(* ===== verification/Prelude.thy ===== *)
theory Prelude
  imports Main "HOL-Library.Word"
begin

text \<open>
  Shared vocabulary of the development: the machine integers of the Go code, Go's slicing and
  indexing (which panic out of range), association lists that stand for Go maps a loop ranges
  over, and the facts about them the components use.

  Conventions used everywhere:
  \<^item> a Go \<open>string\<close> is the HOL type \<open>string\<close>, a list of bytes, so \<open>len\<close> is \<open>length\<close>;
  \<^item> \<open>uint16\<close>, \<open>uint32\<close> and \<open>uint64\<close> are words, and \<open>int64\<close> is \<open>int\<close> with the wrap-around
    written out by \<open>i64\<close>;
  \<^item> a Go pair (value, error) is a sum, \<open>Inl\<close> for the error; a result \<open>None\<close> of an \<open>option\<close>
    result is a run-time panic where the text says so.
\<close>

section \<open>Collections of rewrite rules\<close>

named_theorems go_defs \<open>definitions of the Go primitives, unfolded together\<close>
named_theorems alist_simps \<open>lookups and key sets of association lists\<close>

section \<open>Machine integers\<close>

type_synonym u8 = "8 word"
type_synonym u16 = "16 word"
type_synonym u32 = "32 word"
type_synonym u64 = "64 word"

text \<open>Two's complement wrap-around of an \<open>int64\<close> result.\<close>

definition i64 :: "int \<Rightarrow> int" where
  "i64 x = (x + 2 ^ 63) mod 2 ^ 64 - 2 ^ 63"

text \<open>\<open>uint64(x)\<close> of an \<open>int64\<close>, and \<open>int64(x)\<close> of a \<open>uint64\<close>.\<close>

definition u64_of_i64 :: "int \<Rightarrow> u64" where
  "u64_of_i64 x = word_of_int x"

definition i64_of_u64 :: "u64 \<Rightarrow> int" where
  "i64_of_u64 w = i64 (uint w)"

section \<open>Slices\<close>

text \<open>\<open>xs[lo:hi]\<close>: \<open>None\<close> is the run-time panic "slice bounds out of range".\<close>

definition go_slice :: "'a list \<Rightarrow> nat \<Rightarrow> nat \<Rightarrow> 'a list option" where
  "go_slice xs lo hi = (if lo \<le> hi \<and> hi \<le> length xs then Some (drop lo (take hi xs)) else None)"

text \<open>\<open>xs[i]\<close>: \<open>None\<close> is the run-time panic "index out of range".\<close>

definition go_index :: "'a list \<Rightarrow> nat \<Rightarrow> 'a option" where
  "go_index xs i = (if i < length xs then Some (xs ! i) else None)"

section \<open>Go maps a loop ranges over, as association lists\<close>

text \<open>
  Go visits the entries of a map in an unspecified order. A map some loop ranges over is an
  association list whose order is the order in which the loop visits it; every theorem holds for
  every order. Stores update in place and append a new key at the end.
\<close>

fun al_put :: "'k \<Rightarrow> 'v \<Rightarrow> ('k \<times> 'v) list \<Rightarrow> ('k \<times> 'v) list" where
  "al_put k v [] = [(k, v)]"
| "al_put k v ((k', v') # m) = (if k = k' then (k, v) # m else (k', v') # al_put k v m)"

definition al_del :: "'k \<Rightarrow> ('k \<times> 'v) list \<Rightarrow> ('k \<times> 'v) list" where
  "al_del k m = filter (\<lambda>e. fst e \<noteq> k) m"

abbreviation al_keys :: "('k \<times> 'v) list \<Rightarrow> 'k list" where
  "al_keys m \<equiv> map fst m"

definition al_wf :: "('k \<times> 'v) list \<Rightarrow> bool" where
  "al_wf m \<longleftrightarrow> distinct (al_keys m)"

section \<open>Decimal numbers\<close>

text \<open>The verb \<open>%d\<close> of \<open>fmt.Sprintf\<close>.\<close>

fun show_nat :: "nat \<Rightarrow> string" where
  "show_nat n =
     (if n < 10 then [''0123456789'' ! n] else show_nat (n div 10) @ [''0123456789'' ! (n mod 10)])"

declare show_nat.simps [simp del]

definition show_int :: "int \<Rightarrow> string" where
  "show_int x = (if x < 0 then ''-'' @ show_nat (nat (- x)) else show_nat (nat x))"

section \<open>Facts about wrap-around\<close>

lemma i64_bounds: "- (2 ^ 63) \<le> i64 x \<and> i64 x < 2 ^ 63"
proof -
  have "0 \<le> (x + 2 ^ 63) mod 2 ^ 64" "(x + 2 ^ 63) mod 2 ^ 64 < 2 ^ 64"
    by simp_all
  then show ?thesis by (simp add: i64_def)
qed

lemma i64_id [simp]: "- (2 ^ 63) \<le> x \<Longrightarrow> x < 2 ^ 63 \<Longrightarrow> i64 x = x"
  by (simp add: i64_def)

lemma i64_add: "i64 (i64 x + y) = i64 (x + y)"
  by (simp add: i64_def) (metis (no_types, lifting) add.assoc add.commute diff_add_cancel mod_add_left_eq)

lemma i64_i64: "i64 (i64 x) = i64 x"
  using i64_add [of x 0] by simp

section \<open>Facts about slices\<close>

lemma go_slice_Some: "lo \<le> hi \<Longrightarrow> hi \<le> length xs \<Longrightarrow> go_slice xs lo hi = Some (drop lo (take hi xs))"
  by (simp add: go_slice_def)

section \<open>Facts about association lists\<close>

lemma map_of_al_put [simp, alist_simps]: "map_of (al_put k v m) = (map_of m)(k \<mapsto> v)"
  by (induction k v m rule: al_put.induct) auto

lemma map_of_al_del [simp, alist_simps]: "map_of (al_del k m) = (map_of m)(k := None)"
  by (rule ext) (induction m, auto simp: al_del_def)

lemma set_al_keys_put [simp, alist_simps]: "fst ` set (al_put k v m) = insert k (fst ` set m)"
  by (induction k v m rule: al_put.induct) auto

lemma al_wf_put [simp]: "al_wf m \<Longrightarrow> al_wf (al_put k v m)"
  unfolding al_wf_def by (induction k v m rule: al_put.induct) auto

lemma al_wf_del [simp]: "al_wf m \<Longrightarrow> al_wf (al_del k m)"
  by (simp add: al_wf_def al_del_def distinct_map_filter)

lemma al_wf_map_of_iff: "al_wf m \<Longrightarrow> map_of m k = Some v \<longleftrightarrow> (k, v) \<in> set m"
  by (simp add: al_wf_def)

lemma map_of_None_key: "map_of m k = None \<longleftrightarrow> k \<notin> fst ` set m"
  by (induction m) auto

lemma map_of_in_set: "map_of m k = Some v \<Longrightarrow> (k, v) \<in> set m"
  by (rule map_of_SomeD)

lemma al_put_absent: "k \<notin> fst ` set m \<Longrightarrow> al_put k v m = m @ [(k, v)]"
  by (induction k v m rule: al_put.induct) auto

lemma set_al_put:
  "al_wf m \<Longrightarrow> set (al_put k v m) = insert (k, v) {e \<in> set m. fst e \<noteq> k}"
  unfolding al_wf_def by (induction k v m rule: al_put.induct) (auto simp: image_iff)

lemma set_al_del: "set (al_del k m) = {e \<in> set m. fst e \<noteq> k}"
  by (auto simp: al_del_def)

lemma set_al_put_subset: "e \<in> set (al_put k v m) \<Longrightarrow> e = (k, v) \<or> e \<in> set m"
  by (induction k v m rule: al_put.induct) (auto split: if_splits)

lemma al_put_same: "map_of m k = Some v \<Longrightarrow> al_put k v m = m"
  by (induction k v m rule: al_put.induct) (auto split: if_splits)

lemma al_put_put: "al_put k v (al_put k v' m) = al_put k v m"
  by (induction k v' m rule: al_put.induct) auto

lemma al_del_put: "map_of m k = None \<Longrightarrow> al_del k (al_put k v m) = m"
  by (induction k v m rule: al_put.induct) (auto simp: al_del_def filter_id_conv map_of_None_key split: if_splits)

end
