(* ===== verification/Go_Strings.thy ===== *)
theory Go_Strings
  imports Prelude
begin

text \<open>
  The functions of Go's \<open>strings\<close>, \<open>path\<close> and \<open>strconv\<close> packages the program calls, and the facts
  about slash-separated paths that its directory names rely on.
\<close>

section \<open>strings\<close>

text \<open>\<open>strings.HasPrefix\<close>, \<open>strings.Index\<close> (\<open>None\<close> for -1), \<open>strings.Contains\<close>.\<close>

fun HasPrefix :: "string \<Rightarrow> string \<Rightarrow> bool" where
  "HasPrefix s [] = True"
| "HasPrefix [] (p # ps) = False"
| "HasPrefix (c # s) (p # ps) = (c = p \<and> HasPrefix s ps)"

fun Index :: "string \<Rightarrow> string \<Rightarrow> nat option" where
  "Index [] sub = (if sub = [] then Some 0 else None)"
| "Index (c # s) sub = (if HasPrefix (c # s) sub then Some 0 else map_option Suc (Index s sub))"

definition Contains :: "string \<Rightarrow> string \<Rightarrow> bool" where
  "Contains s sub = (Index s sub \<noteq> None)"

text \<open>\<open>strings.Split\<close> at a one-byte separator, and \<open>strings.Join\<close>.\<close>

fun split_on :: "char \<Rightarrow> string \<Rightarrow> string list" where
  "split_on d [] = [[]]"
| "split_on d (c # s) =
     (if c = d then [] # split_on d s
      else case split_on d s of [] \<Rightarrow> [[c]] | w # ws \<Rightarrow> (c # w) # ws)"

fun join_with :: "string \<Rightarrow> string list \<Rightarrow> string" where
  "join_with sep [] = []"
| "join_with sep [w] = w"
| "join_with sep (w # w' # ws) = w @ sep @ join_with sep (w' # ws)"

text \<open>\<open>strings.Fields\<close> on ASCII text: maximal runs of bytes that are not white space.\<close>

definition is_space :: "char \<Rightarrow> bool" where
  "is_space c \<longleftrightarrow> c \<in> {CHR 0x09, CHR 0x0A, CHR 0x0B, CHR 0x0C, CHR 0x0D, CHR 0x20}"

fun fields_loop :: "string \<Rightarrow> string \<Rightarrow> string list" where
  "fields_loop cur [] = (if cur = [] then [] else [rev cur])"
| "fields_loop cur (c # s) =
     (if is_space c then (if cur = [] then fields_loop [] s else rev cur # fields_loop [] s)
      else fields_loop (c # cur) s)"

definition Fields :: "string \<Rightarrow> string list" where
  "Fields s = fields_loop [] s"

section \<open>strconv\<close>

definition FormatBool :: "bool \<Rightarrow> string" where
  "FormatBool b = (if b then ''true'' else ''false'')"

text \<open>\<open>strconv.ParseBool\<close>; \<open>None\<close> is the error \<open>ErrSyntax\<close>.\<close>

definition ParseBool :: "string \<Rightarrow> bool option" where
  "ParseBool s =
     (if s \<in> {''1'', ''t'', ''T'', ''true'', ''TRUE'', ''True''} then Some True
      else if s \<in> {''0'', ''f'', ''F'', ''false'', ''FALSE'', ''False''} then Some False
      else None)"

lemma ParseBool_FormatBool [simp]: "ParseBool (FormatBool b) = Some b"
  by (cases b) (simp_all add: ParseBool_def FormatBool_def)

section \<open>path\<close>

text \<open>
  \<open>path.Clean\<close>: the components between the slashes are pushed on a stack (innermost first);
  empty components and dots are dropped, and \<open>..\<close> takes back the component before it.
\<close>

fun clean_loop :: "bool \<Rightarrow> string list \<Rightarrow> string list \<Rightarrow> string list" where
  "clean_loop rooted out [] = rev out"
| "clean_loop rooted out (c # cs) =
     (if c = '''' \<or> c = ''.'' then clean_loop rooted out cs
      else if c = ''..'' then
        (case out of
           [] \<Rightarrow> clean_loop rooted (if rooted then [] else [c]) cs
         | d # out' \<Rightarrow> clean_loop rooted (if d = ''..'' then c # out else out') cs)
      else clean_loop rooted (c # out) cs)"

definition path_Clean :: "string \<Rightarrow> string" where
  "path_Clean p =
     (let rooted = HasPrefix p ''/'';
          cs = join_with ''/'' (clean_loop rooted [] (split_on CHR ''/'' p))
      in if rooted then ''/'' @ cs else if cs = '''' then ''.'' else cs)"

text \<open>\<open>path.Join\<close>: leading empty elements are skipped.\<close>

definition path_Join :: "string list \<Rightarrow> string" where
  "path_Join elem =
     (case dropWhile (\<lambda>e. e = '''') elem of
        [] \<Rightarrow> ''''
      | es \<Rightarrow> path_Clean (join_with ''/'' es))"

section \<open>Facts about searching\<close>

lemma HasPrefix_append: "HasPrefix s p \<longleftrightarrow> (\<exists>t. s = p @ t)"
  by (induction s p rule: HasPrefix.induct) auto

lemma Index_Some_split:
  "Index s sub = Some i \<Longrightarrow> \<exists>a b. s = a @ sub @ b \<and> length a = i"
proof (induction s sub arbitrary: i rule: Index.induct)
  case (2 c s sub)
  show ?case
  proof (cases "HasPrefix (c # s) sub")
    case True
    then show ?thesis using 2(2) by (auto simp: HasPrefix_append)
  next
    case False
    then obtain j where j: "i = Suc j" "Index s sub = Some j" using 2(2) by auto
    from 2(1) [OF False j(2)] obtain a b where "s = a @ sub @ b" "length a = j" by blast
    then have "c # s = (c # a) @ sub @ b \<and> length (c # a) = i" using j by simp
    then show ?thesis by blast
  qed
qed (auto split: if_splits)

lemma Index_None_iff: "Index s sub = None \<longleftrightarrow> (\<nexists>a b. s = a @ sub @ b)"
proof (induction s sub rule: Index.induct)
  case (2 c s sub)
  show ?case
  proof (cases "HasPrefix (c # s) sub")
    case True
    then show ?thesis by (auto simp: HasPrefix_append) (metis append_Nil)
  next
    case False
    then have *: "\<And>a b. c # s = a @ sub @ b \<Longrightarrow> \<exists>a'. a = c # a' \<and> s = a' @ sub @ b"
      by (auto simp: HasPrefix_append Cons_eq_append_conv)
    have "(\<exists>a b. c # s = a @ sub @ b) \<longleftrightarrow> (\<exists>a b. s = a @ sub @ b)"
      using * by (metis append_Cons)
    then show ?thesis using False 2 by simp
  qed
qed auto

text \<open>
  A separator that occurs nowhere in the pattern keeps a match from straddling it: the first match
  behind a match-free prefix is the first match of the rest.
\<close>

lemma HasPrefix_barrier:
  "d \<notin> set sub \<Longrightarrow> HasPrefix (a @ d # s) sub \<longleftrightarrow> HasPrefix a sub"
  by (induction a sub rule: HasPrefix.induct) auto

lemma Index_barrier:
  assumes "d \<notin> set sub" "sub \<noteq> []" "Index a sub = None"
  shows "Index (a @ d # s) sub = map_option (\<lambda>i. Suc (length a + i)) (Index s sub)"
  using assms(3)
proof (induction a)
  case Nil
  have "\<not> HasPrefix (d # s) sub" using assms(1,2) by (cases sub) auto
  then show ?case by (simp add: option.map_comp comp_def)
next
  case (Cons c a)
  then have "\<not> HasPrefix (c # a) sub" "Index a sub = None" by (auto split: if_splits)
  then show ?case
    using Cons.IH HasPrefix_barrier [OF assms(1), of "c # a"] by (simp add: option.map_comp comp_def)
qed

lemma Index_prefix: "HasPrefix s sub \<Longrightarrow> Index s sub = Some 0"
  by (cases s) (auto simp: HasPrefix_append)

section \<open>Facts about paths\<close>

text \<open>A proper component, and the absolute path of a list of them.\<close>

definition proper :: "string \<Rightarrow> bool" where
  "proper c \<longleftrightarrow> c \<noteq> '''' \<and> c \<noteq> ''.'' \<and> c \<noteq> ''..'' \<and> CHR ''/'' \<notin> set c"

definition abs_path :: "string list \<Rightarrow> string" where
  "abs_path cs = concat (map (\<lambda>c. CHR ''/'' # c) cs)"

lemma abs_path_snoc: "abs_path (cs @ [c]) = abs_path cs @ CHR ''/'' # c"
  by (simp add: abs_path_def)

lemma split_on_no_sep: "d \<notin> set w \<Longrightarrow> split_on d w = [w]"
  by (induction w) auto

lemma split_on_nonempty [simp]: "split_on d s \<noteq> []"
  by (cases s) (auto split: list.splits)

lemma split_on_sep: "d \<notin> set w \<Longrightarrow> split_on d (w @ d # s) = w # split_on d s"
  by (induction w) auto

lemma split_abs_path:
  "\<forall>c\<in>set cs. proper c \<Longrightarrow> d = CHR ''/'' \<Longrightarrow> d \<notin> set w \<Longrightarrow> split_on d (w @ abs_path cs) = w # cs"
proof (induction cs arbitrary: w)
  case Nil
  then show ?case by (simp add: abs_path_def split_on_no_sep)
next
  case (Cons c cs)
  then have "split_on d (c @ abs_path cs) = c # cs" by (simp add: proper_def)
  then show ?case using Cons.prems by (simp add: abs_path_def split_on_sep)
qed

lemma clean_loop_proper:
  "\<forall>c\<in>set cs. proper c \<Longrightarrow> clean_loop rooted out cs = rev out @ cs"
  by (induction cs arbitrary: out) (auto simp: proper_def)

lemma join_abs_path: "cs \<noteq> [] \<Longrightarrow> ''/'' @ join_with ''/'' cs = abs_path cs"
  by (induction "''/''" cs rule: join_with.induct) (auto simp: abs_path_def)

lemma path_Clean_abs:
  assumes "\<forall>c\<in>set cs. proper c" "cs \<noteq> []"
  shows "path_Clean (abs_path cs) = abs_path cs"
proof -
  have "HasPrefix (abs_path cs) ''/''" using assms(2) by (cases cs) (auto simp: abs_path_def)
  moreover have "split_on CHR ''/'' (abs_path cs) = [] # cs"
    using split_abs_path [OF assms(1), where w = "[]"] by simp
  ultimately show ?thesis
    using join_abs_path [OF assms(2)] clean_loop_proper [OF assms(1)] by (simp add: path_Clean_def)
qed

lemma path_Join_abs:
  assumes "\<forall>c\<in>set cs. proper c" "cs \<noteq> []" "proper d"
  shows "path_Join [abs_path cs, d] = abs_path (cs @ [d])"
proof -
  have "abs_path cs \<noteq> []" using assms(2) by (cases cs) (auto simp: abs_path_def)
  then show ?thesis
    using path_Clean_abs [of "cs @ [d]"] assms by (simp add: path_Join_def abs_path_def)
qed

end
