(* ===== verification/Os.thy ===== *)
theory Os
  imports Go_Strings
begin

text \<open>
  The operating system as a parameter. The plugin calls the kernel through \<open>os\<close>, \<open>unix\<close>,
  \<open>syscall\<close> and \<open>k8s.io/utils/mount\<close>; none of that code is under src/ (or it is the kernel itself),
  so every call is a field of the record \<open>os\<close> over an arbitrary type \<open>'w\<close> of worlds, and a
  definition that performs system calls takes the record as an argument. Calls that only observe
  the system are functions of the world; calls that change it return an optional error and the new
  world. Theorems hold for every such record; where one relies on the documented behaviour of a
  call, that behaviour is a hypothesis of the theorem.

  The second half is an in-memory system, used to exhibit concrete runs.
\<close>

section \<open>Errors and kernel structures\<close>

datatype oserr = ENOENT | ENODATA | Errno string

definition IsNotExist :: "oserr option \<Rightarrow> bool" where
  "IsNotExist e = (e = Some ENOENT)"

record Statfs =
  sf_Type :: int
  sf_Bsize :: int
  sf_Blocks :: u64
  sf_Bfree :: u64

record fsxattr =
  fsx_projid :: u32
  fsx_xflags :: u32

record fs_disk_quota =
  d_version :: u8
  d_flags :: u8
  d_id :: u32
  d_fieldmask :: u16
  d_blk_hardlimit :: u64
  d_blk_softlimit :: u64
  d_bcount :: u64

section \<open>The system calls\<close>

record 'w os =
  os_Stat :: "'w \<Rightarrow> string \<Rightarrow> oserr option"
  os_ReadDir :: "'w \<Rightarrow> string \<Rightarrow> oserr + (string \<times> bool) list"
  os_MkdirAll :: "string \<Rightarrow> nat \<Rightarrow> 'w \<Rightarrow> oserr option \<times> 'w"
  os_RemoveAll :: "string \<Rightarrow> 'w \<Rightarrow> oserr option \<times> 'w"
  os_Getxattr :: "'w \<Rightarrow> string \<Rightarrow> string \<Rightarrow> oserr + string"
  os_Setxattr :: "string \<Rightarrow> string \<Rightarrow> string \<Rightarrow> 'w \<Rightarrow> oserr option \<times> 'w"
  os_Statfs :: "'w \<Rightarrow> string \<Rightarrow> oserr + Statfs"
  os_Lstat_Dev :: "'w \<Rightarrow> string \<Rightarrow> oserr + u64"
  os_ReadLines :: "'w \<Rightarrow> string \<Rightarrow> oserr + string list"
  os_opendir :: "'w \<Rightarrow> string \<Rightarrow> bool"
  os_FSGETXATTR :: "'w \<Rightarrow> string \<Rightarrow> oserr + fsxattr"
  os_FSSETXATTR :: "string \<Rightarrow> fsxattr \<Rightarrow> 'w \<Rightarrow> oserr option \<times> 'w"
  os_XGETQSTAT :: "'w \<Rightarrow> string \<Rightarrow> oserr + u16"
  os_XGETPQUOTA :: "'w \<Rightarrow> string \<Rightarrow> u32 \<Rightarrow> oserr + fs_disk_quota"
  os_XSETPQLIM :: "string \<Rightarrow> fs_disk_quota \<Rightarrow> 'w \<Rightarrow> oserr option \<times> 'w"
  mnt_IsLikelyNotMountPoint :: "'w \<Rightarrow> string \<Rightarrow> oserr + bool"
  mnt_IsNotMountPoint :: "'w \<Rightarrow> string \<Rightarrow> oserr + bool"
  mnt_Mount :: "string \<Rightarrow> string \<Rightarrow> string \<Rightarrow> string list \<Rightarrow> 'w \<Rightarrow> oserr option \<times> 'w"
  mnt_Unmount :: "string \<Rightarrow> 'w \<Rightarrow> oserr option \<times> 'w"
  os_Now :: "'w \<Rightarrow> int"
  os_Rand :: "'w \<Rightarrow> nat \<times> 'w"

text \<open>The bits of \<open>d_fieldmask\<close> for the two block limits (\<open>linux/dqblk_xfs.h\<close>).\<close>

definition FS_DQ_BSOFT :: u16 where "FS_DQ_BSOFT = 0x4"

definition FS_DQ_BHARD :: u16 where "FS_DQ_BHARD = 0x8"

unbundle bit_operations_syntax

section \<open>An in-memory system\<close>

text \<open>
  Directories are a list of cleaned absolute paths; a mount entry is (mount point, device, blocks
  of 512 bytes). Project IDs, quota limits and extended attributes are association lists.
\<close>

record mem =
  m_dirs :: "string list"
  m_mounts :: "(string \<times> (string \<times> u64)) list"
  m_projid :: "(string \<times> u32) list"
  m_limits :: "((string \<times> u32) \<times> (u64 \<times> u64)) list"
  m_xattr :: "((string \<times> string) \<times> string) list"
  m_clock :: int

definition mem_children :: "mem \<Rightarrow> string \<Rightarrow> (string \<times> bool) list" where
  "mem_children w p =
     map (\<lambda>d. (drop (length p + 1) d, True))
       (filter (\<lambda>d. HasPrefix d (p @ ''/'') \<and> \<not> Contains (drop (length p + 1) d) ''/'') (m_dirs w))"

text \<open>Of the limits given, those in the field mask are stored.\<close>

definition mem_limits :: "fs_disk_quota \<Rightarrow> (u64 \<times> u64) option \<Rightarrow> u64 \<times> u64" where
  "mem_limits q old =
     (if d_fieldmask q AND FS_DQ_BHARD \<noteq> 0 then d_blk_hardlimit q else case old of None \<Rightarrow> 0 | Some l \<Rightarrow> fst l,
      if d_fieldmask q AND FS_DQ_BSOFT \<noteq> 0 then d_blk_softlimit q else case old of None \<Rightarrow> 0 | Some l \<Rightarrow> snd l)"

definition mem_os :: "mem os" where
  "mem_os = \<lparr>
     os_Stat = (\<lambda>w p. if p \<in> set (m_dirs w) then None else Some ENOENT),
     os_ReadDir = (\<lambda>w p. if p \<in> set (m_dirs w) then Inr (mem_children w p) else Inl ENOENT),
     os_MkdirAll = (\<lambda>p mode w. (None, w\<lparr>m_dirs := m_dirs w @ [p]\<rparr>)),
     os_RemoveAll = (\<lambda>p w. (None, w\<lparr>m_dirs := filter (\<lambda>d. d \<noteq> p) (m_dirs w),
                                     m_projid := al_del p (m_projid w)\<rparr>)),
     os_Getxattr = (\<lambda>w p k. case map_of (m_xattr w) (p, k) of None \<Rightarrow> Inl ENODATA | Some v \<Rightarrow> Inr v),
     os_Setxattr = (\<lambda>p k v w. (None, w\<lparr>m_xattr := al_put (p, k) v (m_xattr w)\<rparr>)),
     os_Statfs = (\<lambda>w p. case map_of (m_mounts w) p of
                          None \<Rightarrow> Inl ENOENT
                        | Some (d, n) \<Rightarrow> Inr \<lparr>sf_Type = 0x58465342, sf_Bsize = 512, sf_Blocks = n, sf_Bfree = n\<rparr>),
     os_Lstat_Dev = (\<lambda>w p. if p \<in> fst ` set (m_mounts w) then Inr 0x800 else Inl ENOENT),
     os_ReadLines = (\<lambda>w p. Inr (map (\<lambda>(mp, d, n). ''1 1 8:0 / '' @ mp @ '' rw - xfs '' @ d @ '' rw'') (m_mounts w))),
     os_opendir = (\<lambda>w p. p \<in> set (m_dirs w)),
     os_FSGETXATTR = (\<lambda>w p. Inr \<lparr>fsx_projid = (case map_of (m_projid w) p of None \<Rightarrow> 0 | Some i \<Rightarrow> i), fsx_xflags = 0\<rparr>),
     os_FSSETXATTR = (\<lambda>p x w. (None, w\<lparr>m_projid := al_put p (fsx_projid x) (m_projid w)\<rparr>)),
     os_XGETQSTAT = (\<lambda>w d. Inr 0x30),
     os_XGETPQUOTA = (\<lambda>w d i. case map_of (m_limits w) (d, i) of
                          None \<Rightarrow> Inl ENOENT
                        | Some (h, s) \<Rightarrow> Inr \<lparr>d_version = 1, d_flags = 2, d_id = i, d_fieldmask = 0,
                            d_blk_hardlimit = h, d_blk_softlimit = s, d_bcount = 0\<rparr>),
     os_XSETPQLIM = (\<lambda>d q w. (None, w\<lparr>m_limits := al_put (d, d_id q) (mem_limits q (map_of (m_limits w) (d, d_id q))) (m_limits w)\<rparr>)),
     mnt_IsLikelyNotMountPoint = (\<lambda>w p. Inr (p \<notin> fst ` set (m_mounts w))),
     mnt_IsNotMountPoint = (\<lambda>w p. if p \<in> set (m_dirs w) then Inr (p \<notin> fst ` set (m_mounts w)) else Inl ENOENT),
     mnt_Mount = (\<lambda>src tgt ty opts w. (None, w\<lparr>m_mounts := al_put tgt (src, 0) (m_mounts w)\<rparr>)),
     mnt_Unmount = (\<lambda>tgt w. (None, w\<lparr>m_mounts := al_del tgt (m_mounts w)\<rparr>)),
     os_Now = m_clock,
     os_Rand = (\<lambda>w. (nat (m_clock w), w\<lparr>m_clock := m_clock w + 1\<rparr>))\<rparr>"


text \<open>A node with two XFS disks of 1 GiB and 2 GiB mounted under /xfs, and no quota directory yet.\<close>

definition mem0 :: mem where
  "mem0 = \<lparr>m_dirs = [''/xfs'', ''/xfs/d1'', ''/xfs/d2''],
           m_mounts = [(''/xfs/d1'', (''/dev/sdb'', 2097152)), (''/xfs/d2'', (''/dev/sdc'', 4194304))],
           m_projid = [], m_limits = [], m_xattr = [], m_clock = 0\<rparr>"

end
