(* ===== verification/Grpc.thy ===== *)
theory Grpc
  imports Prelude
begin

text \<open>
  The gRPC status errors the servers return: a code, the text of the message, and the error whose
  text the message quotes, if any.
\<close>

datatype code = InvalidArgument | Aborted | Internal | Unimplemented | Unavailable | Unknown

datatype 'e status = Status (st_code: code) (st_text: string) (st_cause: "'e option")

text \<open>\<open>status.Error(c, "...")\<close> and \<open>status.Error(c, err.Error())\<close>.\<close>

abbreviation status_Error :: "code \<Rightarrow> string \<Rightarrow> 'e status" where
  "status_Error c t \<equiv> Status c t None"

abbreviation status_of :: "code \<Rightarrow> 'e \<Rightarrow> 'e status" where
  "status_of c e \<equiv> Status c '''' (Some e)"

end
