(* ===== verification/Fs_Util.thy ===== *)
theory Fs_Util
  imports Os Grpc
begin

text \<open>
  The file-system helpers of pkg/util/util.go, over the system calls of \<^theory_text>\<open>Os\<close>.
\<close>

definition LINUX_MOUNTS_FILE :: string where
  "LINUX_MOUNTS_FILE = ''/proc/self/mountinfo''"

text \<open>The permission bits 0750 and 0755 (octal).\<close>

abbreviation mode_0750 :: nat where
  "mode_0750 \<equiv> 7 * 64 + 5 * 8"

abbreviation mode_0755 :: nat where
  "mode_0755 \<equiv> 7 * 64 + 5 * 8 + 5"

definition GetSubDirs :: "'w os \<Rightarrow> 'w \<Rightarrow> string \<Rightarrow> string list" where
  "GetSubDirs sys w parentDir =
     (let parentDir = path_Clean parentDir
      in case os_ReadDir sys w parentDir of
           Inl _ \<Rightarrow> []
         | Inr dir \<Rightarrow> map (\<lambda>(name, isDir). path_Clean (parentDir @ ''/'' @ name)) (filter snd dir))"

definition SetFilesystemXattr :: "'w os \<Rightarrow> string \<Rightarrow> string \<Rightarrow> string \<Rightarrow> 'w \<Rightarrow> oserr option \<times> 'w" where
  "SetFilesystemXattr sys p attrKey attrValue w = os_Setxattr sys p attrKey attrValue w"

text \<open>The size is asked first; an empty attribute reads as the empty string without an error.\<close>

definition GetFilesystemXattr :: "'w os \<Rightarrow> 'w \<Rightarrow> string \<Rightarrow> string \<Rightarrow> oserr + string" where
  "GetFilesystemXattr sys w p attrKey =
     (case os_Getxattr sys w p attrKey of
        Inl e \<Rightarrow> Inl e
      | Inr v \<Rightarrow> if length v = 0 then Inr '''' else os_Getxattr sys w p attrKey)"

definition CreateNewDir :: "'w os \<Rightarrow> string \<Rightarrow> 'w \<Rightarrow> oserr option \<times> 'w" where
  "CreateNewDir sys mountPath w = os_MkdirAll sys mountPath mode_0750 w"

definition IsPathExist :: "'w os \<Rightarrow> 'w \<Rightarrow> string \<Rightarrow> bool" where
  "IsPathExist sys w dir = (\<not> IsNotExist (os_Stat sys w dir))"

definition CheckDirExists :: "'w os \<Rightarrow> 'w \<Rightarrow> string \<Rightarrow> bool" where
  "CheckDirExists sys w p = (\<not> IsNotExist (os_Stat sys w p))"

definition DeleteFile :: "'w os \<Rightarrow> string \<Rightarrow> 'w \<Rightarrow> oserr option \<times> 'w" where
  "DeleteFile sys p w = (if IsPathExist sys w p then os_RemoveAll sys p w else (None, w))"

definition IsMountPoint :: "'w os \<Rightarrow> 'w \<Rightarrow> string \<Rightarrow> bool \<times> oserr status option" where
  "IsMountPoint sys w p =
     (case mnt_IsLikelyNotMountPoint sys w p of
        Inl e \<Rightarrow> (False, Some (status_of Internal e))
      | Inr notMnt \<Rightarrow> (\<not> notMnt, None))"

definition MkDir :: "'w os \<Rightarrow> string \<Rightarrow> 'w \<Rightarrow> oserr option \<times> 'w" where
  "MkDir sys dir w = (if IsPathExist sys w dir then (None, w) else os_MkdirAll sys dir mode_0755 w)"

definition Mount :: "'w os \<Rightarrow> string \<Rightarrow> string \<Rightarrow> string \<Rightarrow> string list \<Rightarrow> 'w \<Rightarrow> oserr option \<times> 'w" where
  "Mount sys source tgt fstype options w = mnt_Mount sys source tgt fstype options w"

section \<open>The device behind a mount point\<close>

unbundle bit_operations_syntax

definition Major :: "u64 \<Rightarrow> u32" where
  "Major dev = ucast (drop_bit 8 (dev AND 0x00000000000fff00)) OR
               ucast (drop_bit 32 (dev AND 0xfffff00000000000))"

definition Minor :: "u64 \<Rightarrow> u32" where
  "Minor dev = ucast (dev AND 0x00000000000000ff) OR
               ucast (drop_bit 12 (dev AND 0x00000ffffff00000))"

text \<open>The scan of mountinfo; \<open>None\<close> is the final error "couldn't find backing device".\<close>

fun scan_mounts :: "string \<Rightarrow> string \<Rightarrow> string list \<Rightarrow> string option" where
  "scan_mounts dev mountPoint [] = None"
| "scan_mounts dev mountPoint (line # lines) =
     (let tokens = Fields line
      in if length tokens < 5 then scan_mounts dev mountPoint lines
         else if tokens ! 2 = dev \<and> tokens ! 4 = mountPoint then Some (tokens ! (length tokens - 2))
         else scan_mounts dev mountPoint lines)"

datatype dev_error = DevErrno oserr | ErrNoBackingDevice

definition GetDevForPath :: "'w os \<Rightarrow> 'w \<Rightarrow> string \<Rightarrow> dev_error + string" where
  "GetDevForPath sys w mountPoint =
     (let mountPoint = path_Clean mountPoint
      in case os_Lstat_Dev sys w mountPoint of
           Inl e \<Rightarrow> Inl (DevErrno e)
         | Inr dev \<Rightarrow>
             (case os_ReadLines sys w LINUX_MOUNTS_FILE of
                Inl e \<Rightarrow> Inl (DevErrno e)
              | Inr lines \<Rightarrow>
                  (case scan_mounts (show_nat (unat (Major dev)) @ '':'' @ show_nat (unat (Minor dev)))
                          mountPoint lines of
                     None \<Rightarrow> Inl ErrNoBackingDevice
                   | Some d \<Rightarrow> Inr d)))"

section \<open>Facts\<close>

text \<open>
  The device is the one of the first mountinfo line for this very mount point: an earlier line of
  the same device mounted elsewhere, or of another device mounted here, is not taken.
\<close>

lemma scan_mounts_Some:
  "scan_mounts dev mp lines = Some d \<Longrightarrow>
   \<exists>pre line post. lines = pre @ line # post \<and> scan_mounts dev mp pre = None \<and>
     5 \<le> length (Fields line) \<and> Fields line ! 2 = dev \<and> Fields line ! 4 = mp \<and>
     d = Fields line ! (length (Fields line) - 2)"
proof (induction dev mp lines rule: scan_mounts.induct)
  case (2 dev mp line lines)
  show ?case
  proof (cases "5 \<le> length (Fields line) \<and> Fields line ! 2 = dev \<and> Fields line ! 4 = mp")
    case True
    then have "line # lines = [] @ line # lines \<and> scan_mounts dev mp [] = None \<and>
        d = Fields line ! (length (Fields line) - 2)"
      using 2(3) by (simp add: Let_def)
    then show ?thesis using True by blast
  next
    case False
    then have rest: "scan_mounts dev mp lines = Some d"
      using 2(3) by (auto simp: Let_def not_less split: if_splits)
    have "\<exists>pre l post. lines = pre @ l # post \<and> scan_mounts dev mp pre = None \<and>
        5 \<le> length (Fields l) \<and> Fields l ! 2 = dev \<and> Fields l ! 4 = mp \<and>
        d = Fields l ! (length (Fields l) - 2)"
      using 2(1,2) [OF refl _] rest False by (cases "length (Fields line) < 5") (auto simp: not_less)
    then obtain pre l post where l: "lines = pre @ l # post" "scan_mounts dev mp pre = None"
        "5 \<le> length (Fields l)" "Fields l ! 2 = dev" "Fields l ! 4 = mp"
        "d = Fields l ! (length (Fields l) - 2)" by blast
    have "line # lines = (line # pre) @ l # post" using l(1) by simp
    moreover have "scan_mounts dev mp (line # pre) = None" using False l(2) by (auto simp: Let_def)
    ultimately show ?thesis using l(3-6) by blast
  qed
qed simp

end
