(* ===== verification/Csi_Common.thy ===== *)
theory Csi_Common
  imports Fs_Util
begin

text \<open>
  The common CSI code, pkg/csi-plugin/csi-common/: the driver object (driver.go), end point parsing,
  request IDs and the gRPC interceptors (utils.go), the default servers
  (identityserver-default.go, controllerserver-default.go, nodeserver-default.go), the log prefix of
  pkg/util/log.go and the CSI messages as far as the servers read them. The messages themselves are
  generated from the CSI specification; a record has the fields the code uses.
\<close>

section \<open>CSI messages\<close>

datatype rpc_type =
    RPC_UNKNOWN | CREATE_DELETE_VOLUME | PUBLISH_UNPUBLISH_VOLUME | LIST_VOLUMES | GET_CAPACITY
  | CREATE_DELETE_SNAPSHOT | LIST_SNAPSHOTS | CLONE_VOLUME | PUBLISH_READONLY | EXPAND_VOLUME

datatype access_mode =
    MODE_UNKNOWN | SINGLE_NODE_WRITER | SINGLE_NODE_READER_ONLY | MULTI_NODE_READER_ONLY
  | MULTI_NODE_SINGLE_WRITER | MULTI_NODE_MULTI_WRITER

datatype plugin_capability = CONTROLLER_SERVICE | VOLUME_ACCESSIBILITY_CONSTRAINTS | VOLUME_EXPANSION_ONLINE

datatype node_rpc_type = NODE_UNKNOWN | NODE_STAGE_UNSTAGE_VOLUME | NODE_GET_VOLUME_STATS | NODE_EXPAND_VOLUME

text \<open>A volume capability: whether it asks for a block device, and the mount flags if it asks for a mount.\<close>

record VolumeCapability =
  vc_block :: bool
  vc_mount :: "string list option"

record CreateVolumeRequest =
  cv_Name :: string
  cv_VolumeCapabilities :: "VolumeCapability list option"
  cv_RequiredBytes :: "int option"
  cv_Parameters :: "string \<rightharpoonup> string"
  cv_ContentSource :: "string option"

record ControllerExpandVolumeRequest =
  ce_VolumeId :: string
  ce_RequiredBytes :: "int option"

record ValidateVolumeCapabilitiesRequest =
  vv_VolumeId :: string
  vv_VolumeCapabilities :: "VolumeCapability list"

record NodeStageVolumeRequest =
  ns_VolumeId :: string
  ns_StagingTargetPath :: string
  ns_VolumeCapability :: "VolumeCapability option"

record NodePublishVolumeRequest =
  np_VolumeId :: string
  np_TargetPath :: string
  np_StagingTargetPath :: string
  np_VolumeCapability :: "VolumeCapability option"
  np_Readonly :: bool

record NodeExpandVolumeRequest =
  ne_VolumeId :: string
  ne_VolumePath :: string
  ne_RequiredBytes :: "int option"

datatype csi_request =
    CreateVolumeReq CreateVolumeRequest
  | DeleteVolumeReq string
  | CreateSnapshotReq string
  | DeleteSnapshotReq string
  | ControllerExpandVolumeReq ControllerExpandVolumeRequest
  | NodeStageVolumeReq NodeStageVolumeRequest
  | NodeUnstageVolumeReq string string
  | NodePublishVolumeReq NodePublishVolumeRequest
  | NodeUnpublishVolumeReq string string
  | NodeExpandVolumeReq NodeExpandVolumeRequest
  | OtherReq

section \<open>driver.go\<close>

record CSIDriver =
  drv_name :: string
  drv_nodeID :: string
  drv_version :: string
  drv_topology :: "string \<rightharpoonup> string"
  drv_cap :: "rpc_type list"
  drv_vc :: "access_mode list"

definition NewCSIDriver :: "string \<Rightarrow> string \<Rightarrow> string \<Rightarrow> CSIDriver option" where
  "NewCSIDriver name v nodeID =
     (if name = '''' then None else if nodeID = '''' then None else if v = '''' then None
      else Some \<lparr>drv_name = name, drv_nodeID = nodeID, drv_version = v, drv_topology = Map.empty,
                 drv_cap = [], drv_vc = []\<rparr>)"

text \<open>The name that formatting a capability prints.\<close>

fun rpc_name :: "rpc_type \<Rightarrow> string" where
  "rpc_name RPC_UNKNOWN = ''UNKNOWN''"
| "rpc_name CREATE_DELETE_VOLUME = ''CREATE_DELETE_VOLUME''"
| "rpc_name PUBLISH_UNPUBLISH_VOLUME = ''PUBLISH_UNPUBLISH_VOLUME''"
| "rpc_name LIST_VOLUMES = ''LIST_VOLUMES''"
| "rpc_name GET_CAPACITY = ''GET_CAPACITY''"
| "rpc_name CREATE_DELETE_SNAPSHOT = ''CREATE_DELETE_SNAPSHOT''"
| "rpc_name LIST_SNAPSHOTS = ''LIST_SNAPSHOTS''"
| "rpc_name CLONE_VOLUME = ''CLONE_VOLUME''"
| "rpc_name PUBLISH_READONLY = ''PUBLISH_READONLY''"
| "rpc_name EXPAND_VOLUME = ''EXPAND_VOLUME''"

definition ValidateControllerServiceRequest :: "CSIDriver \<Rightarrow> rpc_type \<Rightarrow> 'e status option" where
  "ValidateControllerServiceRequest d c =
     (if c = RPC_UNKNOWN then None
      else if c \<in> set (drv_cap d) then None
      else Some (status_Error InvalidArgument (rpc_name c)))"

definition AddControllerServiceCapabilities :: "rpc_type list \<Rightarrow> CSIDriver \<Rightarrow> CSIDriver" where
  "AddControllerServiceCapabilities cl d = d\<lparr>drv_cap := cl\<rparr>"

definition AddVolumeCapabilityAccessModes :: "access_mode list \<Rightarrow> CSIDriver \<Rightarrow> access_mode list \<times> CSIDriver" where
  "AddVolumeCapabilityAccessModes vc d = (vc, d\<lparr>drv_vc := vc\<rparr>)"

definition GetVolumeCapabilityAccessModes :: "CSIDriver \<Rightarrow> access_mode list" where
  "GetVolumeCapabilityAccessModes d = drv_vc d"

section \<open>utils.go\<close>

text \<open>\<open>strings.ToLower\<close> on ASCII.\<close>

definition to_lower :: "char \<Rightarrow> char" where
  "to_lower c = (let n = of_char c :: nat in if 65 \<le> n \<and> n \<le> 90 then char_of (n + 32) else c)"

definition parseEndpoint :: "string \<Rightarrow> (string \<times> string) option" where
  "parseEndpoint ep =
     (if HasPrefix (map to_lower ep) ''unix://'' \<or> HasPrefix (map to_lower ep) ''tcp://'' then
        (case Index ep ''://'' of
           None \<Rightarrow> None
         | Some i \<Rightarrow> if drop (i + 3) ep \<noteq> '''' then Some (take i ep, drop (i + 3) ep) else None)
      else None)"

definition NewDefaultNodeServer :: "CSIDriver \<Rightarrow> string \<Rightarrow> (string \<rightharpoonup> string) \<Rightarrow> CSIDriver \<times> string" where
  "NewDefaultNodeServer d t topology = (d\<lparr>drv_topology := topology\<rparr>, t)"

fun getReqID :: "csi_request \<Rightarrow> string" where
  "getReqID (CreateVolumeReq r) = cv_Name r"
| "getReqID (DeleteVolumeReq volumeId) = volumeId"
| "getReqID (CreateSnapshotReq name) = name"
| "getReqID (DeleteSnapshotReq snapshotId) = snapshotId"
| "getReqID (ControllerExpandVolumeReq r) = ce_VolumeId r"
| "getReqID (NodeStageVolumeReq r) = ns_VolumeId r"
| "getReqID (NodeUnstageVolumeReq volumeId stagingPath) = volumeId"
| "getReqID (NodePublishVolumeReq r) = np_VolumeId r"
| "getReqID (NodeUnpublishVolumeReq volumeId targetPath) = volumeId"
| "getReqID (NodeExpandVolumeReq r) = ne_VolumeId r"
| "getReqID OtherReq = ''''"

text \<open>The values the interceptor puts into the context, and the log prefix of log.go.\<close>

record Context =
  ctx_ID :: "u64 option"
  ctx_ReqID :: "string option"

definition Log :: "Context \<Rightarrow> string \<Rightarrow> string" where
  "Log ctx format =
     (case ctx_ID ctx of
        None \<Rightarrow> format
      | Some i \<Rightarrow>
          (let a = ''ID: '' @ show_nat (unat i) @ '' ''
           in case ctx_ReqID ctx of
                None \<Rightarrow> a @ format
              | Some reqID \<Rightarrow> a @ ''Req-ID: '' @ reqID @ '' '' @ format))"

text \<open>
  The injector first increments the global counter (atomically) and then reads it: two steps, so
  the counter is an argument of each.
\<close>

definition injector_count :: "u64 \<Rightarrow> u64" where
  "injector_count i = i + 1"

definition contextIDInjector :: "u64 \<Rightarrow> Context \<Rightarrow> csi_request \<Rightarrow> Context" where
  "contextIDInjector i ctx req =
     (let ctx = ctx\<lparr>ctx_ID := Some i\<rparr>; reqID = getReqID req
      in if reqID \<noteq> '''' then ctx\<lparr>ctx_ReqID := Some reqID\<rparr> else ctx)"

text \<open>
  What a handler does: it panics, with a value that is printed as some text, or it returns. The
  interceptor turns a panic into an error that quotes the value.
\<close>

datatype 'a outcome = Panics string | Replies 'a

definition panicHandler :: "('e status + 'r) outcome \<Rightarrow> 'e status + 'r" where
  "panicHandler result =
     (case result of Panics v \<Rightarrow> Inl (status_Error Internal (''panic '' @ v)) | Replies r \<Rightarrow> r)"

definition nil_dereference :: string where
  "nil_dereference = ''runtime error: invalid memory address or nil pointer dereference''"

section \<open>The default servers\<close>

datatype controller_call =
    ControllerPublishVolume | ControllerUnpublishVolume | ControllerExpand | ListVolumes | GetCapacity
  | ControllerGetCapabilities | CreateSnapshot | DeleteSnapshot | ListSnapshots | ControllerGetVolume

fun DefaultControllerServer :: "CSIDriver \<Rightarrow> controller_call \<Rightarrow> 'e status + rpc_type list" where
  "DefaultControllerServer d ControllerGetCapabilities = Inr (drv_cap d)"
| "DefaultControllerServer d _ = Inl (status_Error Unimplemented '''')"

definition GetPluginInfo :: "CSIDriver \<Rightarrow> 'e status + string \<times> string" where
  "GetPluginInfo d =
     (if drv_name d = '''' then Inl (status_Error Unavailable ''Driver name not configured'')
      else if drv_version d = '''' then Inl (status_Error Unavailable ''Driver is missing version'')
      else Inr (drv_name d, drv_version d))"

definition default_GetPluginCapabilities :: "plugin_capability list" where
  "default_GetPluginCapabilities = [CONTROLLER_SERVICE]"

definition NodeGetInfo :: "CSIDriver \<Rightarrow> string \<times> (string \<rightharpoonup> string)" where
  "NodeGetInfo d = (drv_nodeID d, drv_topology d)"

definition default_NodeGetCapabilities :: "node_rpc_type list" where
  "default_NodeGetCapabilities = [NODE_UNKNOWN]"

text \<open>
  The volume statistics of k8s.io/kubernetes/pkg/volume are a parameter; \<open>None\<close> stands for a
  quantity that is not an \<open>int64\<close>, whose \<open>AsInt64\<close> is zero.
\<close>

record VolMetrics =
  vm_Available :: "int option"
  vm_Capacity :: "int option"
  vm_Used :: "int option"
  vm_Inodes :: "int option"
  vm_InodesFree :: "int option"
  vm_InodesUsed :: "int option"

definition AsInt64 :: "int option \<Rightarrow> int" where
  "AsInt64 q = (case q of None \<Rightarrow> 0 | Some n \<Rightarrow> n)"

record VolumeUsage =
  vu_Available :: int
  vu_Total :: int
  vu_Used :: int

text \<open>
  The error of \<open>IsMountPoint\<close> is a gRPC status, for which \<open>os.IsNotExist\<close> is false, so it is
  returned as it is.
\<close>

definition NodeGetVolumeStats ::
    "'w os \<Rightarrow> ('w \<Rightarrow> string \<Rightarrow> oserr + VolMetrics) \<Rightarrow> 'w \<Rightarrow> string \<Rightarrow> oserr status + VolumeUsage \<times> VolumeUsage" where
  "NodeGetVolumeStats sys metrics w targetPath =
     (if targetPath = '''' then Inl (status_Error InvalidArgument ''targetpath  is empty'')
      else case IsMountPoint sys w targetPath of
             (_, Some err) \<Rightarrow> Inl err
           | (isMnt, None) \<Rightarrow>
               if \<not> isMnt then Inl (status_Error InvalidArgument (''targetpath '' @ targetPath @ '' is not mounted''))
               else case metrics w targetPath of
                      Inl err \<Rightarrow> Inl (status_of Internal err)
                    | Inr vm \<Rightarrow>
                        if vm_Capacity vm = None then Inl (status_Error Unknown ''failed to fetch capacity bytes'')
                        else if vm_Inodes vm = None then Inl (status_Error Unknown ''failed to fetch available inodes'')
                        else Inr (\<lparr>vu_Available = AsInt64 (vm_Available vm), vu_Total = AsInt64 (vm_Capacity vm),
                                   vu_Used = AsInt64 (vm_Used vm)\<rparr>,
                                  \<lparr>vu_Available = AsInt64 (vm_InodesFree vm), vu_Total = AsInt64 (vm_Inodes vm),
                                   vu_Used = AsInt64 (vm_InodesUsed vm)\<rparr>))"

fun add_options :: "string list \<Rightarrow> string list \<Rightarrow> string list" where
  "add_options mountOptions [] = mountOptions"
| "add_options mountOptions (f # flags) =
     add_options (if f \<in> set mountOptions then mountOptions else mountOptions @ [f]) flags"

definition ConstructMountOptions :: "string list \<Rightarrow> VolumeCapability option \<Rightarrow> string list" where
  "ConstructMountOptions mountOptions volCap =
     (case Option.bind volCap vc_mount of
        None \<Rightarrow> mountOptions
      | Some flags \<Rightarrow> add_options mountOptions flags)"

fun MountOptionContains :: "string list \<Rightarrow> string \<Rightarrow> bool" where
  "MountOptionContains [] opt = False"
| "MountOptionContains (mnt # mountOptions) opt = (mnt = opt \<or> MountOptionContains mountOptions opt)"

section \<open>Facts\<close>

lemma add_options_props:
  "distinct opts \<Longrightarrow> distinct (add_options opts flags) \<and> set (add_options opts flags) = set opts \<union> set flags \<and>
     take (length opts) (add_options opts flags) = opts"
proof (induction flags arbitrary: opts)
  case (Cons f flags)
  show ?case
  proof (cases "f \<in> set opts")
    case True
    then show ?thesis using Cons.IH [OF Cons.prems] by auto
  next
    case False
    then have "distinct (opts @ [f])" using Cons.prems by simp
    note ih = Cons.IH [OF this]
    have "take (length opts) (take (length (opts @ [f])) (add_options (opts @ [f]) flags)) = opts"
      using ih by simp
    then show ?thesis using ih False by (auto simp: min_def)
  qed
qed simp

lemma MountOptionContains_iff: "MountOptionContains opts opt \<longleftrightarrow> opt \<in> set opts"
  by (induction opts) auto

text \<open>
  An upper-case scheme is accepted but not lowered: the server then compares it with "unix", does
  not remove the old socket, and listens on an unknown network.
\<close>

lemma parseEndpoint_keeps_case: "parseEndpoint ''UNIX:///csi.sock'' = Some (''UNIX'', ''/csi.sock'')"
  by code_simp

text \<open>
  Request IDs are not unique: the counter is incremented atomically but read in a second step,
  so of two requests that both increment before either reads, both are logged with the same ID.
\<close>

lemma request_ids_collide:
  "let i1 = injector_count i; i2 = injector_count i1
   in ctx_ID (contextIDInjector i2 ctx1 req1) = ctx_ID (contextIDInjector i2 ctx2 req2) \<and>
      ctx_ID (contextIDInjector i1 ctx1 req1) \<noteq> ctx_ID (contextIDInjector i2 ctx2 req2)"
  by (simp add: contextIDInjector_def injector_count_def Let_def)

section \<open>Properties\<close>

text \<open>
  The mount options of a volume are unique: starting from distinct options, the result is
  distinct, consists of the given options and the mount flags of the capability, and begins with
  the given options in their order.
\<close>

lemma mount_options_unique:
  assumes "distinct opts"
  shows "distinct (ConstructMountOptions opts cap) \<and>
         set (ConstructMountOptions opts cap) =
           set opts \<union> (case Option.bind cap vc_mount of None \<Rightarrow> {} | Some flags \<Rightarrow> set flags) \<and>
         take (length opts) (ConstructMountOptions opts cap) = opts"
  using add_options_props [OF assms] assms by (auto simp: ConstructMountOptions_def split: option.split)

end
