(* ===== verification/Meta_Store.thy ===== *)
theory Meta_Store
  imports Prelude
begin

text \<open>
  The meta store, pkg/csi-plugin/hostpath/metestore.go: the IDs of all created volumes, as the keys
  of one Kubernetes config map. The API server is a parameter, the record \<open>cm_api\<close> over a type
  \<open>'k\<close> of cluster states; what the theorems rely on is that an update or a creation that succeeds
  is read back.
\<close>

section \<open>The API of config maps\<close>

datatype apierr = NotFound | Conflict | ApiErr string

definition IsNotFound :: "apierr \<Rightarrow> bool" where
  "IsNotFound e = (e = NotFound)"

text \<open>\<open>cm_Data\<close> is \<open>None\<close> for a nil map; \<open>cm_Version\<close> is the resource version.\<close>

record ConfigMap =
  cm_Name :: string
  cm_Data :: "(string \<rightharpoonup> string) option"
  cm_Version :: nat

record 'k cm_api =
  cm_Get :: "'k \<Rightarrow> string \<Rightarrow> string \<Rightarrow> apierr + ConfigMap"
  cm_Create :: "string \<Rightarrow> ConfigMap \<Rightarrow> 'k \<Rightarrow> apierr option \<times> 'k"
  cm_Update :: "string \<Rightarrow> ConfigMap \<Rightarrow> 'k \<Rightarrow> apierr option \<times> 'k"

section \<open>metestore.go\<close>

record ConfigMapMetaStore =
  ms_cmName :: string
  ms_cmNamespace :: string

definition ms_Init :: "'k cm_api \<Rightarrow> ConfigMapMetaStore \<Rightarrow> 'k \<Rightarrow> apierr option \<times> 'k" where
  "ms_Init api c k =
     (case cm_Get api k (ms_cmNamespace c) (ms_cmName c) of
        Inr cm \<Rightarrow> (None, k)
      | Inl err \<Rightarrow>
          if IsNotFound err
          then cm_Create api (ms_cmNamespace c) \<lparr>cm_Name = ms_cmName c, cm_Data = None, cm_Version = 0\<rparr> k
          else (Some err, k))"

definition NewConfigMapMetaStore ::
    "'k cm_api \<Rightarrow> string \<Rightarrow> string \<Rightarrow> 'k \<Rightarrow> (apierr + ConfigMapMetaStore) \<times> 'k" where
  "NewConfigMapMetaStore api cmName cmNamespace k =
     (let mStore = \<lparr>ms_cmName = cmName, ms_cmNamespace = cmNamespace\<rparr>
      in case ms_Init api mStore k of
           (Some err, k) \<Rightarrow> (Inl err, k)
         | (None, k) \<Rightarrow> (Inr mStore, k))"

text \<open>Reading a nil map finds nothing.\<close>

definition go_map :: "(string \<rightharpoonup> string) option \<Rightarrow> string \<rightharpoonup> string" where
  "go_map m = (case m of None \<Rightarrow> Map.empty | Some m \<Rightarrow> m)"

definition ListMetaInfos :: "'k cm_api \<Rightarrow> ConfigMapMetaStore \<Rightarrow> 'k \<Rightarrow> apierr + (string \<rightharpoonup> string)" where
  "ListMetaInfos api c k =
     (case cm_Get api k (ms_cmNamespace c) (ms_cmName c) of
        Inl err \<Rightarrow> Inl err
      | Inr cm \<Rightarrow> Inr (go_map (cm_Data cm)))"

definition AddMetaInfo :: "'k cm_api \<Rightarrow> ConfigMapMetaStore \<Rightarrow> string \<Rightarrow> 'k \<Rightarrow> apierr option \<times> 'k" where
  "AddMetaInfo api c volumeId k =
     (case cm_Get api k (ms_cmNamespace c) (ms_cmName c) of
        Inl err \<Rightarrow> (Some err, k)
      | Inr cm \<Rightarrow>
          (let data = (case cm_Data cm of None \<Rightarrow> Map.empty | Some d \<Rightarrow> d)
           in cm_Update api (ms_cmNamespace c) (cm\<lparr>cm_Data := Some (data(volumeId \<mapsto> ''''))\<rparr>) k))"

definition UnsetMetaInfo :: "'k cm_api \<Rightarrow> ConfigMapMetaStore \<Rightarrow> string \<Rightarrow> 'k \<Rightarrow> apierr option \<times> 'k" where
  "UnsetMetaInfo api c volumeId k =
     (case cm_Get api k (ms_cmNamespace c) (ms_cmName c) of
        Inl err \<Rightarrow> (Some err, k)
      | Inr cm \<Rightarrow>
          cm_Update api (ms_cmNamespace c)
            (cm\<lparr>cm_Data := map_option (\<lambda>d. d(volumeId := None)) (cm_Data cm)\<rparr>) k)"

section \<open>What the API server promises\<close>

text \<open>A successful write is read back, up to the version the server assigns, and an object is read under its own name.\<close>

definition api_stores :: "'k cm_api \<Rightarrow> bool" where
  "api_stores api \<longleftrightarrow>
     (\<forall>ns cm k k'. cm_Update api ns cm k = (None, k') \<or> cm_Create api ns cm k = (None, k') \<longrightarrow>
        (\<exists>v. cm_Get api k' ns (cm_Name cm) = Inr (cm\<lparr>cm_Version := v\<rparr>))) \<and>
     (\<forall>ns name cm k. cm_Get api k ns name = Inr cm \<longrightarrow> cm_Name cm = name)"

lemma api_stores_write:
  "api_stores api \<Longrightarrow> cm_Update api ns cm k = (None, k') \<Longrightarrow>
   \<exists>v. cm_Get api k' ns (cm_Name cm) = Inr (cm\<lparr>cm_Version := v\<rparr>)"
  unfolding api_stores_def by blast

lemma api_stores_name: "api_stores api \<Longrightarrow> cm_Get api k ns name = Inr cm \<Longrightarrow> cm_Name cm = name"
  unfolding api_stores_def by blast

lemma AddMetaInfo_list:
  assumes "api_stores api" "AddMetaInfo api c vol k = (None, k')"
  shows "\<exists>d. ListMetaInfos api c k = Inr d \<and> ListMetaInfos api c k' = Inr (d(vol \<mapsto> ''''))"
proof -
  obtain cm where g: "cm_Get api k (ms_cmNamespace c) (ms_cmName c) = Inr cm"
    and u: "cm_Update api (ms_cmNamespace c) (cm\<lparr>cm_Data := Some ((go_map (cm_Data cm))(vol \<mapsto> ''''))\<rparr>) k = (None, k')"
    using assms(2) by (auto simp: AddMetaInfo_def go_map_def split: sum.splits)
  show ?thesis
    using api_stores_write [OF assms(1) u] api_stores_name [OF assms(1) g] g
    by (auto simp: ListMetaInfos_def go_map_def)
qed

lemma UnsetMetaInfo_list:
  assumes "api_stores api" "UnsetMetaInfo api c vol k = (None, k')"
  shows "\<exists>d. ListMetaInfos api c k = Inr d \<and> ListMetaInfos api c k' = Inr (d(vol := None))"
proof -
  obtain cm where g: "cm_Get api k (ms_cmNamespace c) (ms_cmName c) = Inr cm"
    and u: "cm_Update api (ms_cmNamespace c)
       (cm\<lparr>cm_Data := map_option (\<lambda>d. d(vol := None)) (cm_Data cm)\<rparr>) k = (None, k')"
    using assms(2) by (auto simp: UnsetMetaInfo_def split: sum.splits)
  show ?thesis
    using api_stores_write [OF assms(1) u] api_stores_name [OF assms(1) g] g
    by (cases "cm_Data cm") (auto simp: ListMetaInfos_def go_map_def fun_eq_iff)
qed

section \<open>An in-memory API server\<close>

text \<open>
  One object per namespace and name, and the optimistic concurrency of the real server: an update
  with an old resource version is a conflict.
\<close>

type_synonym mem_api = "string \<times> string \<rightharpoonup> ConfigMap"

definition mem_cm :: "mem_api cm_api" where
  "mem_cm = \<lparr>
     cm_Get = (\<lambda>k ns name. case k (ns, name) of None \<Rightarrow> Inl NotFound | Some cm \<Rightarrow> Inr (cm\<lparr>cm_Name := name\<rparr>)),
     cm_Create = (\<lambda>ns cm k. case k (ns, cm_Name cm) of
        Some _ \<Rightarrow> (Some (ApiErr ''AlreadyExists''), k)
      | None \<Rightarrow> (None, k((ns, cm_Name cm) \<mapsto> cm\<lparr>cm_Version := 1\<rparr>))),
     cm_Update = (\<lambda>ns cm k. case k (ns, cm_Name cm) of
        None \<Rightarrow> (Some NotFound, k)
      | Some old \<Rightarrow>
          if cm_Version old \<noteq> cm_Version cm then (Some Conflict, k)
          else (None, k((ns, cm_Name cm) \<mapsto> cm\<lparr>cm_Version := Suc (cm_Version cm)\<rparr>)))\<rparr>"

lemma mem_cm_stores: "api_stores mem_cm"
proof -
  have "cm\<lparr>cm_Name := cm_Name cm\<rparr> = cm" for cm :: ConfigMap by simp
  then show ?thesis
    unfolding api_stores_def mem_cm_def
    by (intro conjI allI impI) (auto split: option.splits if_splits, blast+)
qed

section \<open>Properties\<close>

text \<open>
  The meta store is a set of volume IDs: a successful \<open>AddMetaInfo\<close> adds exactly the given ID,
  a successful \<open>UnsetMetaInfo\<close> removes exactly it, and both keep every other entry, on any API
  server that reads back what it stored.
\<close>

lemma meta_store_is_a_set:
  assumes "api_stores api"
  shows "(AddMetaInfo api c vol k = (None, k') \<longrightarrow>
            (\<exists>d. ListMetaInfos api c k = Inr d \<and> ListMetaInfos api c k' = Inr (d(vol \<mapsto> '''')))) \<and>
         (UnsetMetaInfo api c vol k = (None, k') \<longrightarrow>
            (\<exists>d. ListMetaInfos api c k = Inr d \<and> ListMetaInfos api c k' = Inr (d(vol := None))))"
  using AddMetaInfo_list [OF assms] UnsetMetaInfo_list [OF assms] by blast

end
