(* ===== verification/Vol_Id.thy ===== *)
theory Vol_Id
  imports Prelude
begin

text \<open>
  The volume identifier codec of \<^verbatim>\<open>pkg/util/volid.go\<close>: \<open>ComposeCSIID\<close> prints a volume
  name and its ephemeral flag as a CSI volume ID, \<open>DecomposeCSIID\<close> parses it back. The parts of
  \<^verbatim>\<open>encoding/hex\<close> and \<^verbatim>\<open>encoding/binary\<close> it calls are modelled first. The
  16-bit length arithmetic of the decoder is kept at its width, and its slice expressions are
  \<open>go_slice\<close>, whose \<open>None\<close> is a run-time panic.
\<close>

unbundle bit_operations_syntax

section \<open>encoding/hex and encoding/binary\<close>

datatype hex_error = InvalidByteError char | ErrLength

definition hextable :: string where
  "hextable = ''0123456789abcdef''"

definition fromHexChar :: "char \<Rightarrow> u8 option" where
  "fromHexChar c =
     (let n = (of_char c :: u8)
      in if 48 \<le> n \<and> n \<le> 57 then Some (n - 48)
         else if 97 \<le> n \<and> n \<le> 102 then Some (n - 97 + 10)
         else if 65 \<le> n \<and> n \<le> 70 then Some (n - 65 + 10)
         else None)"

primrec hex_encode :: "u8 list \<Rightarrow> string" where
  "hex_encode [] = []"
| "hex_encode (b # bs) =
     hextable ! unat (drop_bit 4 b) # hextable ! unat (b AND 15) # hex_encode bs"

fun hex_decode :: "string \<Rightarrow> hex_error + u8 list" where
  "hex_decode [] = Inr []"
| "hex_decode [c] =
     (case fromHexChar c of None \<Rightarrow> Inl (InvalidByteError c) | Some _ \<Rightarrow> Inl ErrLength)"
| "hex_decode (a # b # cs) =
     (case fromHexChar a of
        None \<Rightarrow> Inl (InvalidByteError a)
      | Some x \<Rightarrow>
          (case fromHexChar b of
             None \<Rightarrow> Inl (InvalidByteError b)
           | Some y \<Rightarrow>
               (case hex_decode cs of
                  Inl e \<Rightarrow> Inl e
                | Inr bs \<Rightarrow> Inr ((push_bit 4 x OR y) # bs))))"

definition be_PutUint16 :: "u16 \<Rightarrow> u8 list" where
  "be_PutUint16 v = [ucast (drop_bit 8 v), ucast v]"

text \<open>\<open>None\<close> is the panic of \<open>BigEndian.Uint16\<close> on a slice shorter than two bytes.\<close>

definition be_Uint16 :: "u8 list \<Rightarrow> u16 option" where
  "be_Uint16 bs =
     (case bs of b0 # b1 # _ \<Rightarrow> Some (ucast b1 OR push_bit 8 (ucast b0)) | _ \<Rightarrow> None)"

section \<open>volid.go\<close>

record CSIIdentifier =
  EncodingVersion :: u16
  Ephemeral :: bool
  VolumeName :: string

datatype volid_error =
    EncodingOverflow            \<comment> \<open>"CSI ID encoding length overflow"\<close>
  | StringUnderflow             \<comment> \<open>"failed to decode CSI identifier, string underflow"\<close>
  | HexError hex_error
  | ParseBoolError u16          \<comment> \<open>"parse bool from uint16 ... err"\<close>
  | SizeMismatch                \<comment> \<open>"failed to decode CSI identifier, string size mismatch"\<close>

definition maxVolIDLen :: nat where "maxVolIDLen = 128"

definition VolIDVersion :: u16 where "VolIDVersion = 1"

definition knownFieldSize :: nat where "knownFieldSize = 15"

definition formatBoolToUint16 :: "bool \<Rightarrow> u16" where
  "formatBoolToUint16 b = (if b then 1 else 0)"

definition parseBoolFromUint16 :: "u16 \<Rightarrow> volid_error + bool" where
  "parseBoolFromUint16 v =
     (if v = 0 then Inr False else if v = 1 then Inr True else Inl (ParseBoolError v))"

definition ComposeCSIID :: "CSIIdentifier \<Rightarrow> volid_error + string" where
  "ComposeCSIID ci =
     (if knownFieldSize + length (VolumeName ci) > maxVolIDLen then Inl EncodingOverflow
      else
        let versionEncodedHex = hex_encode (be_PutUint16 (EncodingVersion ci));
            isEphemeralEncodedHex = hex_encode (be_PutUint16 (formatBoolToUint16 (Ephemeral ci)));
            volumeNameLength = hex_encode (be_PutUint16 (of_nat (length (VolumeName ci))))
        in Inr (versionEncodedHex @ ''-'' @ isEphemeralEncodedHex @ ''-'' @
                volumeNameLength @ ''-'' @ VolumeName ci))"

text \<open>
  \<open>hex.DecodeString(s[lo:hi])\<close> followed by \<open>binary.BigEndian.Uint16\<close>, the step the decoder
  repeats for each field. The outer \<open>None\<close> is a panic.
\<close>

definition decode_field :: "string \<Rightarrow> nat \<Rightarrow> nat \<Rightarrow> (volid_error + u16) option" where
  "decode_field s lo hi =
     (case go_slice s lo hi of
        None \<Rightarrow> None
      | Some cs \<Rightarrow>
          (case hex_decode cs of
             Inl e \<Rightarrow> Some (Inl (HexError e))
           | Inr buf16 \<Rightarrow>
               (case be_Uint16 buf16 of None \<Rightarrow> None | Some v \<Rightarrow> Some (Inr v))))"

text \<open>
  The receiver is a pointer: fields assigned before an error stay assigned, so the result is the
  receiver as it is left, with the error. \<open>None\<close> is a panic.
\<close>

definition DecomposeCSIID :: "CSIIdentifier \<Rightarrow> string \<Rightarrow> (CSIIdentifier \<times> volid_error option) option" where
  "DecomposeCSIID ci s =
     (let bytesToProcess = (of_nat (length s) :: u16) in
      if bytesToProcess < of_nat knownFieldSize then Some (ci, Some StringUnderflow)
      else
        (case decode_field s 0 4 of
           None \<Rightarrow> None
         | Some (Inl e) \<Rightarrow> Some (ci, Some e)
         | Some (Inr version) \<Rightarrow>
             (let ci = ci\<lparr>EncodingVersion := version\<rparr>;
                  bytesToProcess = bytesToProcess - 5 in
              (case decode_field s 5 9 of
                 None \<Rightarrow> None
               | Some (Inl e) \<Rightarrow> Some (ci, Some e)
               | Some (Inr eph) \<Rightarrow>
                   (case parseBoolFromUint16 eph of
                      Inl e \<Rightarrow> Some (ci, Some e)
                    | Inr isEphemeral \<Rightarrow>
                        (let ci = ci\<lparr>Ephemeral := isEphemeral\<rparr>;
                             bytesToProcess = bytesToProcess - 5 in
                         (case decode_field s 10 14 of
                            None \<Rightarrow> None
                          | Some (Inl e) \<Rightarrow> Some (ci, Some e)
                          | Some (Inr volumeNameLength) \<Rightarrow>
                              (let bytesToProcess = bytesToProcess - 5 in
                               if bytesToProcess \<noteq> volumeNameLength then Some (ci, Some SizeMismatch)
                               else
                                 (case go_slice s 15 (unat (15 + volumeNameLength)) of
                                    None \<Rightarrow> None
                                  | Some name \<Rightarrow> Some (ci\<lparr>VolumeName := name\<rparr>, None))))))))))"

text \<open>The zero value of \<open>var vi util.CSIIdentifier\<close>.\<close>

definition zero_CSIIdentifier :: CSIIdentifier where
  "zero_CSIIdentifier = \<lparr>EncodingVersion = 0, Ephemeral = False, VolumeName = []\<rparr>"

section \<open>Round trips of the encodings\<close>

lemma fromHexChar_hextable: "n < 16 \<Longrightarrow> fromHexChar (hextable ! n) = Some (of_nat n)"
proof -
  have "\<forall>n \<in> set [0..<16]. fromHexChar (hextable ! n) = Some (of_nat n)"
    by (simp add: hextable_def fromHexChar_def upt_rec)
  then show "n < 16 \<Longrightarrow> fromHexChar (hextable ! n) = Some (of_nat n)" by auto
qed

lemma and_15_take_bit: "(b :: u8) AND 15 = take_bit 4 b"
  by (simp add: take_bit_eq_mask mask_eq_exp_minus_1)

lemma high_nibble_less: "unat (drop_bit 4 (b :: u8)) < 16"
  using unsigned_less [of b, where 'a = nat] by (simp add: drop_bit_eq_div unat_div)

lemma low_nibble_less: "unat ((b :: u8) AND 15) < 16"
  by (simp add: and_15_take_bit take_bit_eq_mod unat_mod)

lemma nibbles_join: "push_bit 4 (drop_bit 4 (b :: u8)) OR (b AND 15) = b"
  by (rule bit_eqI) (auto simp: and_15_take_bit bit_simps)

lemma hex_decode_encode: "hex_decode (hex_encode bs) = Inr bs"
  by (induction bs)
    (simp_all add: fromHexChar_hextable high_nibble_less low_nibble_less nibbles_join)

lemma length_hex_encode [simp]: "length (hex_encode bs) = 2 * length bs"
  by (induction bs) simp_all

lemma length_be_PutUint16 [simp]: "length (be_PutUint16 v) = 2"
  by (simp add: be_PutUint16_def)

lemma be_Uint16_Put: "be_Uint16 (be_PutUint16 v) = Some v"
proof -
  have "ucast (ucast v :: u8) OR push_bit 8 (ucast (ucast (drop_bit 8 v) :: u8)) = v"
    by (rule bit_eqI) (auto simp: bit_simps)
  then show ?thesis by (simp add: be_Uint16_def be_PutUint16_def)
qed

lemma parse_format_bool: "parseBoolFromUint16 (formatBoolToUint16 b) = Inr b"
  by (simp add: parseBoolFromUint16_def formatBoolToUint16_def)

lemma decode_field_middle:
  "lo = length xs \<Longrightarrow> hi = lo + 4 \<Longrightarrow>
   decode_field (xs @ hex_encode (be_PutUint16 v) @ ys) lo hi = Some (Inr v)"
  by (simp add: decode_field_def go_slice_def hex_decode_encode be_Uint16_Put)

section \<open>The decoder never runs out of range\<close>

lemma hex_decode_length: "hex_decode cs = Inr bs \<Longrightarrow> length cs = 2 * length bs"
  by (induction cs arbitrary: bs rule: hex_decode.induct)
    (auto split: option.splits sum.splits)

lemma be_Uint16_total: "length bs = 2 \<Longrightarrow> be_Uint16 bs \<noteq> None"
  by (auto simp: be_Uint16_def length_Suc_conv numeral_2_eq_2)

lemma decode_field_total:
  assumes "lo + 4 = hi" "hi \<le> length s"
  shows "decode_field s lo hi \<noteq> None"
proof -
  have sl: "go_slice s lo hi = Some (drop lo (take hi s))"
    using assms by (simp add: go_slice_Some)
  have len: "length (drop lo (take hi s)) = 4"
    using assms by simp
  show ?thesis
  proof (cases "hex_decode (drop lo (take hi s))")
    case (Inl e)
    then show ?thesis by (simp add: decode_field_def sl)
  next
    case (Inr bs)
    then have "length bs = 2" using hex_decode_length [OF Inr] len by simp
    then show ?thesis using be_Uint16_total [of bs] Inr
      by (auto simp: decode_field_def sl)
  qed
qed

lemma unat_of_length: "unat (of_nat n :: u16) = n mod 65536"
  by (simp add: unat_of_nat)

lemma name_slice_in_range:
  assumes "\<not> (of_nat n :: u16) < of_nat knownFieldSize" "of_nat n - 5 - 5 - 5 = (l :: u16)"
  shows "unat (15 + l) = n mod 65536" "15 \<le> unat (15 + l)" "unat (15 + l) \<le> n" "15 \<le> n"
proof -
  have l: "15 + l = of_nat n" using assms(2) by (auto simp: algebra_simps)
  have "(15 :: u16) \<le> of_nat n" using assms(1) by (simp add: knownFieldSize_def)
  then have "unat (15 :: u16) \<le> unat (of_nat n :: u16)" by (simp only: word_le_nat_alt)
  then show "unat (15 + l) = n mod 65536" "15 \<le> unat (15 + l)" "unat (15 + l) \<le> n" "15 \<le> n"
    using mod_less_eq_dividend [of n 65536] by (simp_all add: l unat_of_length)
qed

section \<open>Properties\<close>

lemma decode_encode:
  assumes "ComposeCSIID ci = Inr volId"
  shows "DecomposeCSIID ci0 volId = Some (ci, None)"
proof -
  let ?n = "length (VolumeName ci)"
  let ?v = "hex_encode (be_PutUint16 (EncodingVersion ci))"
  let ?e = "hex_encode (be_PutUint16 (formatBoolToUint16 (Ephemeral ci)))"
  let ?l = "hex_encode (be_PutUint16 (of_nat ?n))"
  have small: "?n \<le> 113"
    and id: "volId = ?v @ ''-'' @ ?e @ ''-'' @ ?l @ ''-'' @ VolumeName ci"
    using assms by (auto simp: ComposeCSIID_def Let_def knownFieldSize_def maxVolIDLen_def split: if_splits)
  have len: "length volId = 15 + ?n" by (simp add: id)
  have ge: "\<not> (of_nat (length volId) :: u16) < of_nat knownFieldSize"
    using small by (simp add: len knownFieldSize_def word_less_nat_alt unat_of_length
        del: of_nat_add of_nat_numeral)
  have f1: "decode_field volId 0 4 = Some (Inr (EncodingVersion ci))"
    using decode_field_middle [of 0 "[]"] by (simp add: id)
  have f2: "decode_field volId 5 9 = Some (Inr (formatBoolToUint16 (Ephemeral ci)))"
    using decode_field_middle [of 5 "?v @ ''-''"] by (simp add: id)
  have f3: "decode_field volId 10 14 = Some (Inr (of_nat ?n))"
    using decode_field_middle [of 10 "?v @ ''-'' @ ?e @ ''-''"] by (simp add: id)
  have nl: "of_nat (length volId) - 5 - 5 - 5 = (of_nat ?n :: u16)"
    by (simp add: len)
  have nl': "of_nat (length volId) - 15 = (of_nat ?n :: u16)"
    by (simp add: len)
  have hi: "unat (15 + of_nat ?n :: u16) = length volId"
    using name_slice_in_range(1) [OF ge nl] small by (simp add: len)
  have name: "go_slice volId 15 (length volId) = Some (VolumeName ci)"
    by (simp add: go_slice_def id)
  show ?thesis
    unfolding DecomposeCSIID_def Let_def using ge
    by (simp add: f1 f2 f3 parse_format_bool nl' hi name)
qed

text \<open>
  C24. Whatever \<open>ComposeCSIID\<close> prints, \<open>DecomposeCSIID\<close> parses back to the same identifier, into
  any receiver and without an error or a panic.
\<close>

theorem decompose_compose:
  assumes "ComposeCSIID ci = Inr volId"
  shows "DecomposeCSIID ci0 volId = Some (ci, None)"
  using assms by (rule decode_encode)

theorem decompose_compose_witness:
  "ComposeCSIID \<lparr>EncodingVersion = 1, Ephemeral = True, VolumeName = ''pvc-7''\<rparr> =
     Inr ''0001-0001-0005-pvc-7'' \<and>
   DecomposeCSIID zero_CSIIdentifier ''0001-0001-0005-pvc-7'' =
     Some (\<lparr>EncodingVersion = 1, Ephemeral = True, VolumeName = ''pvc-7''\<rparr>, None)"
proof -
  have c: "ComposeCSIID \<lparr>EncodingVersion = 1, Ephemeral = True, VolumeName = ''pvc-7''\<rparr> =
     Inr ''0001-0001-0005-pvc-7''"
    by code_simp
  show ?thesis using c decompose_compose [OF c] by simp
qed

text \<open>
  \<open>ComposeCSIID\<close> refuses exactly the names longer than 113 bytes; what it prints is fifteen
  bytes longer than the name, hence never longer than the 128 bytes the CSI specification allows.
\<close>

lemma compose_length:
  "(case ComposeCSIID ci of
      Inl e \<Rightarrow> e = EncodingOverflow \<and> 113 < length (VolumeName ci)
    | Inr volId \<Rightarrow> length volId = 15 + length (VolumeName ci) \<and> length volId \<le> maxVolIDLen)"
  by (simp add: ComposeCSIID_def Let_def knownFieldSize_def maxVolIDLen_def)

lemma decompose_total: "DecomposeCSIID ci s \<noteq> None"
proof (cases "(of_nat (length s) :: u16) < of_nat knownFieldSize")
  case True
  then show ?thesis by (simp add: DecomposeCSIID_def)
next
  case False
  have "15 \<le> length s" using name_slice_in_range(4) [OF False refl] .
  then have f: "decode_field s 0 4 \<noteq> None" "decode_field s 5 9 \<noteq> None" "decode_field s 10 14 \<noteq> None"
    by (intro decode_field_total; simp)+
  have sl: "go_slice s 15 (unat (15 + l)) \<noteq> None" if "of_nat (length s) - 5 - 5 - 5 = (l :: u16)" for l
    using name_slice_in_range [OF False that] by (simp add: go_slice_def)
  show ?thesis
    using f sl by (auto simp: DecomposeCSIID_def Let_def split: option.splits sum.splits)
qed

text \<open>
  C38. \<open>DecomposeCSIID\<close> does not panic on any byte string, of any length: its 16-bit length
  arithmetic never takes a slice out of range, although the length wraps around at 65536.
\<close>

theorem decompose_no_panic: "DecomposeCSIID ci s \<noteq> None"
  by (rule decompose_total)

text \<open>
  A successful decoding of an ID shorter than 65536 bytes takes the whole rest of the string
  behind the three fields as the volume name, and the third field is that name's length.
\<close>

lemma decompose_success:
  assumes "DecomposeCSIID ci s = Some (ci', None)" and "length s < 65536"
  shows "VolumeName ci' = drop 15 s \<and> length s = 15 + length (VolumeName ci') \<and>
         decode_field s 10 14 = Some (Inr (of_nat (length (VolumeName ci'))))"
proof -
  from assms(1) obtain l name where
    ge: "\<not> (of_nat (length s) :: u16) < of_nat knownFieldSize"
    and l: "decode_field s 10 14 = Some (Inr l)"
    and diff: "of_nat (length s) - 5 - 5 - 5 = l"
    and name: "go_slice s 15 (unat (15 + l)) = Some name" "VolumeName ci' = name"
    by (auto simp: DecomposeCSIID_def Let_def split: if_splits option.splits sum.splits)
  have hi: "unat (15 + l) = length s" and ge15: "15 \<le> length s"
    using name_slice_in_range [OF ge diff] assms(2) by simp_all
  have "name = drop 15 s" using name(1) by (simp add: hi go_slice_def split: if_splits)
  moreover have "of_nat (length s - 15) = l" using diff ge15 by (simp add: of_nat_diff)
  ultimately show ?thesis using name(2) l ge15 by simp
qed

end
