(* ===== verification/Go_Float.thy ===== *)
theory Go_Float
  imports Complex_Main Prelude "HOL-Library.Log_Nat"
begin

text \<open>
  The \<open>float64\<close> arithmetic the Go code uses to round sizes and to score nodes. A finite
  \<open>float64\<close> is a rational, and every operation rounds its exact result to 53 significant bits,
  to nearest with ties to even, as IEEE 754 prescribes. The magnitudes that occur lie far inside
  the exponent range, so overflow and subnormal numbers play no part.
\<close>

section \<open>Rounding to nearest, ties to even\<close>

definition rne :: "rat \<Rightarrow> int" where
  "rne x =
     (let f = \<lfloor>x\<rfloor>; d = x - of_int f
      in if d < 1/2 then f else if 1/2 < d then f + 1 else if even f then f else f + 1)"

text \<open>The exponent \<open>e\<close> with \<open>2 ^ e \<le> x < 2 ^ (e + 1)\<close>, for a positive \<open>x\<close>.\<close>

definition float_expo :: "rat \<Rightarrow> int" where
  "float_expo x = (if 1 \<le> x then bitlen \<lfloor>x\<rfloor> - 1 else - bitlen (\<lceil>1 / x\<rceil> - 1))"

definition fl :: "rat \<Rightarrow> rat" where
  "fl x =
     (if x = 0 then 0
      else let u = 2 powi (float_expo \<bar>x\<bar> - 52) in of_int (rne (x / u)) * u)"

text \<open>\<open>float64(n)\<close>, \<open>int64(x)\<close>, and the operators.\<close>

definition float64 :: "int \<Rightarrow> rat" where
  "float64 n = fl (of_int n)"

definition int64_of_float :: "rat \<Rightarrow> int" where
  "int64_of_float x = i64 (if 0 \<le> x then \<lfloor>x\<rfloor> else \<lceil>x\<rceil>)"

definition fmul :: "rat \<Rightarrow> rat \<Rightarrow> rat" where
  "fmul x y = fl (x * y)"

definition fdiv :: "rat \<Rightarrow> rat \<Rightarrow> rat" where
  "fdiv x y = fl (x / y)"

section \<open>Rounding to an integer\<close>

lemma rne_of_int [simp]: "rne (of_int n) = n"
  by (simp add: rne_def)

lemma rne_bounds: "\<lfloor>x\<rfloor> \<le> rne x \<and> rne x \<le> \<lfloor>x\<rfloor> + 1"
  by (simp add: rne_def Let_def)

lemma rne_mono:
  assumes "x \<le> y"
  shows "rne x \<le> rne y"
proof (cases "\<lfloor>x\<rfloor> = \<lfloor>y\<rfloor>")
  case True
  then show ?thesis using assms by (auto simp: rne_def Let_def)
next
  case False
  then have "\<lfloor>x\<rfloor> + 1 \<le> \<lfloor>y\<rfloor>" using floor_mono [OF assms] by linarith
  then show ?thesis using rne_bounds [of x] rne_bounds [of y] by linarith
qed

section \<open>The exponent\<close>

lemma powi_less_iff: "(2 :: rat) powi a < 2 powi b \<longleftrightarrow> a < b"
  using power_int_strict_increasing [of a b "2 :: rat"] power_int_increasing [of b a "2 :: rat"]
  by (cases "a < b") auto

lemma bitlen_powi_bounds:
  assumes "0 < m"
  shows "(2 :: rat) powi (bitlen m - 1) \<le> of_int m" "of_int m < (2 :: rat) powi bitlen m"
proof -
  have pos: "0 < bitlen m"
    using bitlen_bounds [OF assms] assms by (cases "0 < bitlen m") auto
  have b: "2 ^ nat (bitlen m - 1) \<le> m" "m < 2 ^ nat (bitlen m)"
    using bitlen_bounds [OF assms] by auto
  have "(of_int (2 ^ nat (bitlen m - 1)) :: rat) \<le> of_int m" using b(1) by (simp only: of_int_le_iff)
  then show "(2 :: rat) powi (bitlen m - 1) \<le> of_int m" using pos by (simp add: power_int_def)
  have "(of_int m :: rat) < of_int (2 ^ nat (bitlen m))" using b(2) by (simp only: of_int_less_iff)
  then show "of_int m < (2 :: rat) powi bitlen m" using pos by (simp add: power_int_def)
qed

lemma float_expo_lower:
  assumes "0 < x"
  shows "2 powi float_expo x \<le> x"
proof (cases "1 \<le> x")
  case True
  then have "0 < \<lfloor>x\<rfloor>" by simp
  then have "(2 :: rat) powi (bitlen \<lfloor>x\<rfloor> - 1) \<le> of_int \<lfloor>x\<rfloor>" by (rule bitlen_powi_bounds)
  then have "(2 :: rat) powi (bitlen \<lfloor>x\<rfloor> - 1) \<le> x" by (rule order_trans) (rule of_int_floor_le)
  then show ?thesis using True by (simp add: float_expo_def)
next
  case False
  define m where "m = \<lceil>1 / x\<rceil> - 1"
  have "1 < 1 / x" using assms False by (simp add: field_simps)
  then have m: "0 < m" by (simp add: m_def less_ceiling_iff)
  have "of_int (m + 1) \<le> (2 :: rat) powi bitlen m"
  proof -
    have pos: "0 \<le> bitlen m" by (simp add: bitlen_def)
    have "m + 1 \<le> 2 ^ nat (bitlen m)" using bitlen_bounds [OF m] by simp
    then have "(of_int (m + 1) :: rat) \<le> of_int (2 ^ nat (bitlen m))" by (simp only: of_int_le_iff)
    then show ?thesis using pos by (simp add: power_int_def)
  qed
  moreover have "1 / x \<le> of_int (m + 1)" by (simp add: m_def)
  ultimately have "1 / x \<le> 2 powi bitlen m" by linarith
  then have "1 / (2 powi bitlen m) \<le> x" using assms by (simp add: field_simps)
  then show ?thesis using False by (simp add: float_expo_def m_def power_int_minus_divide)
qed

lemma float_expo_upper:
  assumes "0 < x"
  shows "x < 2 powi (float_expo x + 1)"
proof (cases "1 \<le> x")
  case True
  then have "0 < \<lfloor>x\<rfloor>" by simp
  then have "\<lfloor>x\<rfloor> + 1 \<le> 2 ^ nat (bitlen \<lfloor>x\<rfloor>)" using bitlen_bounds [of "\<lfloor>x\<rfloor>"] by simp
  then have "(of_int (\<lfloor>x\<rfloor> + 1) :: rat) \<le> of_int (2 ^ nat (bitlen \<lfloor>x\<rfloor>))" by (simp only: of_int_le_iff)
  moreover have "x < of_int (\<lfloor>x\<rfloor> + 1)" by linarith
  moreover have "(2 :: rat) powi bitlen \<lfloor>x\<rfloor> = of_int (2 ^ nat (bitlen \<lfloor>x\<rfloor>))"
    by (simp add: power_int_def bitlen_def)
  ultimately show ?thesis using True by (simp add: float_expo_def)
next
  case False
  define m where "m = \<lceil>1 / x\<rceil> - 1"
  have "1 < 1 / x" using assms False by (simp add: field_simps)
  then have m: "0 < m" by (simp add: m_def less_ceiling_iff)
  have "(2 :: rat) powi (bitlen m - 1) \<le> of_int m" using m by (rule bitlen_powi_bounds)
  moreover have "of_int m < 1 / x" using ceiling_correct [of "1 / x"] by (simp add: m_def)
  ultimately have "2 powi (bitlen m - 1) < 1 / x" by linarith
  then have "x < 1 / (2 powi (bitlen m - 1))" using assms by (simp add: field_simps)
  also have "\<dots> = 2 powi (1 - bitlen m)" by (simp add: power_int_minus_divide [symmetric])
  finally show ?thesis using False by (simp add: float_expo_def m_def)
qed

lemma float_expo_unique:
  assumes "2 powi e \<le> x" "x < 2 powi (e + 1)"
  shows "float_expo x = e"
proof -
  have x: "0 < x" using assms(1) by (rule less_le_trans [rotated]) simp
  have "(2 :: rat) powi e < 2 powi (float_expo x + 1)"
    using assms(1) float_expo_upper [OF x] by linarith
  moreover have "(2 :: rat) powi float_expo x < 2 powi (e + 1)"
    using assms(2) float_expo_lower [OF x] by linarith
  ultimately show ?thesis by (simp add: powi_less_iff)
qed

lemma float_expo_mono:
  assumes "0 < x" "x \<le> y"
  shows "float_expo x \<le> float_expo y"
proof -
  have "(2 :: rat) powi float_expo x < 2 powi (float_expo y + 1)"
    using float_expo_lower [of x] float_expo_upper [of y] assms by linarith
  then show ?thesis by (simp add: powi_less_iff)
qed

lemma float_expo_scale:
  assumes "0 < x"
  shows "float_expo (x / 2 powi k) = float_expo x - k"
proof (rule float_expo_unique)
  show "2 powi (float_expo x - k) \<le> x / 2 powi k"
    using float_expo_lower [OF assms] by (simp add: power_int_diff divide_right_mono)
  show "x / 2 powi k < 2 powi (float_expo x - k + 1)"
    using float_expo_upper [OF assms]
    by (simp add: power_int_diff power_int_add divide_strict_right_mono)
qed

section \<open>Rounding to a float\<close>

lemma fl_0 [simp]: "fl 0 = 0"
  by (simp add: fl_def)

lemma fl_pos: "0 < x \<Longrightarrow> fl x = of_int (rne (x / 2 powi (float_expo x - 52))) * 2 powi (float_expo x - 52)"
  by (simp add: fl_def Let_def)

text \<open>Numbers with at most 53 significant bits are not changed.\<close>

lemma fl_representable:
  assumes "0 \<le> m" "m < 2 ^ 53"
  shows "fl (of_int m * 2 powi k) = of_int m * 2 powi k"
proof (cases "m = 0")
  case False
  define x where "x = (of_int m * 2 powi k :: rat)"
  have m: "0 < m" using assms(1) False by simp
  have x: "0 < x" using m by (simp add: x_def)
  have "(of_int m :: rat) < of_int (2 ^ 53)" using assms(2) by (simp only: of_int_less_iff)
  then have "x < 2 ^ 53 * 2 powi k" by (simp add: x_def mult_strict_right_mono)
  also have "\<dots> = 2 powi (53 + k)" by (simp add: power_int_add)
  finally have "(2 :: rat) powi float_expo x < 2 powi (53 + k)"
    using float_expo_lower [OF x] by linarith
  then have e: "0 \<le> k - (float_expo x - 52)" by (simp add: powi_less_iff)
  have "x / 2 powi (float_expo x - 52) = of_int m * 2 powi (k - (float_expo x - 52))"
    by (simp add: x_def power_int_diff)
  also have "\<dots> = of_int (m * 2 ^ nat (k - (float_expo x - 52)))"
    using e by (simp add: power_int_def)
  finally have "rne (x / 2 powi (float_expo x - 52)) = m * 2 ^ nat (k - (float_expo x - 52))"
    and "of_int (m * 2 ^ nat (k - (float_expo x - 52))) = x / 2 powi (float_expo x - 52)"
    by (simp_all only: rne_of_int)
  then have "fl x = x" by (simp only: fl_pos [OF x]) simp
  then show ?thesis by (simp add: x_def)
qed simp

lemma float64_small: "0 \<le> n \<Longrightarrow> n \<le> 2 ^ 53 \<Longrightarrow> float64 n = of_int n"
proof -
  assume "0 \<le> n" "n \<le> 2 ^ 53"
  show "float64 n = of_int n"
  proof (cases "n < 2 ^ 53")
    case True
    then show ?thesis using fl_representable [of n 0] \<open>0 \<le> n\<close> by (simp add: float64_def)
  next
    case False
    then have "n = 2 ^ 53" using \<open>n \<le> 2 ^ 53\<close> by simp
    then show ?thesis using fl_representable [of "2 ^ 52" 1] by (simp add: float64_def)
  qed
qed

lemma fl_binade:
  assumes "0 < x"
  shows "2 powi float_expo x \<le> fl x \<and> fl x \<le> 2 powi (float_expo x + 1)"
proof -
  define u where "u = (2 :: rat) powi (float_expo x - 52)"
  have u: "0 < u" by (simp add: u_def)
  have lo: "of_int (2 ^ 52) * u = 2 powi float_expo x"
    and hi: "of_int (2 ^ 53) * u = 2 powi (float_expo x + 1)"
    by (simp_all add: u_def power_int_diff power_int_add)
  have "of_int (2 ^ 52) \<le> x / u" "x / u \<le> of_int (2 ^ 53)"
    using float_expo_lower [OF assms] float_expo_upper [OF assms] lo hi u
    by (simp_all add: pos_le_divide_eq pos_divide_le_eq)
  then have "rne (of_int (2 ^ 52)) \<le> rne (x / u)" "rne (x / u) \<le> rne (of_int (2 ^ 53))"
    by (simp_all only: rne_mono)
  then have "of_int (2 ^ 52) * u \<le> of_int (rne (x / u)) * u" "of_int (rne (x / u)) * u \<le> of_int (2 ^ 53) * u"
    using u by (simp_all only: rne_of_int of_int_le_iff mult_le_cancel_right_pos)
  moreover have "fl x = of_int (rne (x / u)) * u" by (simp add: fl_pos [OF assms] u_def)
  ultimately show ?thesis by (simp only: lo hi)
qed

lemma fl_mono:
  assumes "0 \<le> x" "x \<le> y"
  shows "fl x \<le> fl y"
proof (cases "x = 0")
  case True
  show ?thesis
  proof (cases "y = 0")
    case False
    then have "2 powi float_expo y \<le> fl y" using fl_binade [of y] assms True by simp
    then have "0 \<le> fl y" by (rule order_trans [rotated]) simp
    then show ?thesis by (simp add: True)
  qed (simp add: True)
next
  case False
  then have x: "0 < x" and y: "0 < y" using assms by auto
  show ?thesis
  proof (cases "float_expo x = float_expo y")
    case True
    then show ?thesis
      using assms by (simp add: fl_pos x y rne_mono divide_right_mono)
  next
    case False
    then have "float_expo x + 1 \<le> float_expo y" using float_expo_mono [OF x assms(2)] by simp
    then have "(2 :: rat) powi (float_expo x + 1) \<le> 2 powi float_expo y"
      by (simp add: power_int_increasing)
    then show ?thesis using fl_binade [OF x] fl_binade [OF y] by linarith
  qed
qed

lemma fl_nonneg: "0 \<le> x \<Longrightarrow> 0 \<le> fl x"
  using fl_mono [of 0 x] by simp

text \<open>Scaling by a power of two is exact.\<close>

lemma fl_scale:
  assumes "0 \<le> x"
  shows "fl (x / 2 powi k) = fl x / 2 powi k"
proof (cases "x = 0")
  case False
  then have x: "0 < x" and x': "0 < x / 2 powi k" using assms by simp_all
  have "(2 :: rat) powi (float_expo x - k - 52) = 2 powi (float_expo x - 52) / 2 powi k"
    by (simp add: power_int_diff)
  then show ?thesis
    by (simp add: fl_pos [OF x] fl_pos [OF x'] float_expo_scale [OF x])
qed simp

lemma fl_idem:
  assumes "0 \<le> x"
  shows "fl (fl x) = fl x"
proof (cases "x = 0")
  case False
  then have x: "0 < x" using assms by simp
  define r where "r = rne (x / 2 powi (float_expo x - 52))"
  have eq: "fl x = of_int r * 2 powi (float_expo x - 52)" by (simp add: fl_pos [OF x] r_def)
  have up: "of_int r * 2 powi (float_expo x - 52) \<le> (of_int (2 ^ 53) :: rat) * 2 powi (float_expo x - 52)"
    using fl_binade [OF x] by (simp add: eq power_int_diff power_int_add)
  have r: "r \<le> 2 ^ 53" using up by (simp only: mult_le_cancel_right_pos zero_less_power_int of_int_le_iff zero_less_numeral)
  have "0 \<le> of_int r * (2 :: rat) powi (float_expo x - 52)" using fl_nonneg [of x] x by (simp add: eq)
  moreover have "0 < (2 :: rat) powi (float_expo x - 52)" by simp
  ultimately have r0: "0 \<le> r" by (simp add: zero_le_mult_iff del: zero_less_power_int)
  show ?thesis
  proof (cases "r = 2 ^ 53")
    case False
    then show ?thesis using fl_representable [of r] r r0 by (simp add: eq)
  next
    case True
    have "fl x = of_int (2 ^ 52) * 2 powi (float_expo x - 51)"
      by (simp add: eq True power_int_diff)
    then show ?thesis using fl_representable [of "2 ^ 52"] by simp
  qed
qed simp

text \<open>The float nearest to an integer is an integer.\<close>

lemma float64_integer:
  assumes "0 \<le> n"
  obtains f where "float64 n = of_int f"
proof (cases "n \<le> 2 ^ 53")
  case True
  then show ?thesis using float64_small [OF assms] that by blast
next
  case False
  then have x: "(0 :: rat) < of_int n" by simp
  have "(of_int (2 ^ 53) :: rat) < of_int n" using False by (simp only: of_int_less_iff)
  then have "(2 :: rat) powi 53 < 2 powi (float_expo (of_int n) + 1)"
    using float_expo_upper [OF x] by simp
  then have e: "0 \<le> float_expo (of_int n) - 52" by (simp only: powi_less_iff)
  have "(2 :: rat) powi (float_expo (of_int n) - 52) = of_int (2 ^ nat (float_expo (of_int n) - 52))"
    using e by (simp add: power_int_def)
  then have "float64 n = of_int (rne (of_int n / 2 powi (float_expo (of_int n) - 52)) *
      2 ^ nat (float_expo (of_int n) - 52))"
    by (simp add: float64_def fl_pos [OF x])
  then show ?thesis by (rule that)
qed

end
