(* ===== verification/Size_Util.thy ===== *)
theory Size_Util
  imports Go_Float
begin

text \<open>
  \<open>RoundOffBytes\<close> of \<^verbatim>\<open>pkg/util/util.go\<close>: a size below one GiB is rounded up to whole MiB,
  a larger one to whole GiB. The code goes through \<open>float64\<close>; the model keeps that, so what the
  53-bit mantissa and the final 64-bit product do to huge sizes is part of it.
\<close>

definition MiB :: int where "MiB = 1024 * 1024"

definition GiB :: int where "GiB = MiB * 1024"

definition RoundOffBytes :: "int \<Rightarrow> int" where
  "RoundOffBytes bytes =
     (let floatBytes = float64 bytes
      in if floatBytes < of_int GiB
         then i64 (int64_of_float (of_int \<lceil>fdiv floatBytes (of_int MiB)\<rceil>) * MiB)
         else i64 (int64_of_float (of_int \<lceil>fdiv floatBytes (of_int GiB)\<rceil>) * GiB))"

text \<open>The unit a size is rounded to, and the rounding in exact integer arithmetic.\<close>

definition size_unit :: "int \<Rightarrow> int" where
  "size_unit bytes = (if bytes < GiB then MiB else GiB)"

definition round_up :: "int \<Rightarrow> int \<Rightarrow> int" where
  "round_up u n = - ((- n) div u) * u"

section \<open>Exact rounding up\<close>

lemma round_up_eq: "round_up u n = n + (- n) mod u"
  using minus_mod_eq_div_mult [of "- n" u] by (simp add: round_up_def)

lemma round_up_bounds: "0 < u \<Longrightarrow> n \<le> round_up u n \<and> round_up u n < n + u"
  by (simp add: round_up_eq)

lemma round_up_dvd: "u dvd round_up u n"
  by (simp add: round_up_def)

lemma round_up_multiple: "u dvd n \<Longrightarrow> round_up u n = n"
  by (simp add: round_up_eq)

lemma round_up_le:
  assumes u: "0 < u" and m: "u dvd m" "n \<le> m"
  shows "round_up u n \<le> m"
proof (rule ccontr)
  assume "\<not> round_up u n \<le> m"
  then have "0 < round_up u n - m" "round_up u n - m < u"
    using round_up_bounds [OF u, of n] m(2) by linarith+
  moreover have "u dvd round_up u n - m" using m(1) by (simp add: round_up_dvd)
  ultimately show False using zdvd_not_zless by blast
qed

lemma round_up_ceiling: "\<lceil>(of_int n :: rat) / of_int u\<rceil> * u = round_up u n"
  by (simp add: round_up_def ceiling_divide_eq_div)

section \<open>The code computes it\<close>

lemma units_powi: "(of_int MiB :: rat) = 2 powi 20" "(of_int GiB :: rat) = 2 powi 30"
  by (simp_all add: MiB_def GiB_def power_int_def)

lemma units_pos [simp]: "0 < MiB" "0 < GiB" "MiB dvd GiB"
  by (simp_all add: MiB_def GiB_def)

lemma size_unit_pos [simp]: "0 < size_unit n"
  by (simp add: size_unit_def)

lemma int64_of_float_of_int: "int64_of_float (of_int n) = i64 n"
  by (simp add: int64_of_float_def)

text \<open>
  For every non-negative \<open>int64\<close>, with \<open>f\<close> the float nearest to it: the two scalings by a power of
  two are exact, so only the first conversion and the last product can lose anything.
\<close>

lemma RoundOffBytes_float:
  assumes "0 \<le> b" "b < 2 ^ 63" "float64 b = of_int f"
  shows "RoundOffBytes b = i64 (round_up (size_unit f) f)"
proof -
  have f0: "0 \<le> f" using assms fl_nonneg [of "of_int b"] by (simp add: float64_def)
  have "(of_int f :: rat) \<le> fl (of_int (2 ^ 63))"
    using assms fl_mono [of "of_int b" "of_int (2 ^ 63)"]
    by (simp add: float64_def del: of_int_power of_int_numeral)
  then have "(of_int f :: rat) \<le> of_int (2 ^ 63)"
    using fl_representable [of 1 63] by simp
  then have f1: "f \<le> 2 ^ 63" by (simp only: of_int_le_iff)
  have "fdiv (of_int f) (2 powi k) = of_int f / 2 powi k" for k
    using fl_scale [of "of_int f" k] fl_idem [of "of_int b"] assms f0
    by (simp add: fdiv_def float64_def)
  then have exact: "fdiv (of_int f) (of_int MiB) = of_int f / of_int MiB"
    "fdiv (of_int f) (of_int GiB) = of_int f / of_int GiB"
    by (simp_all only: units_powi)
  have ceil: "int64_of_float (of_int \<lceil>(of_int f :: rat) / of_int u\<rceil>) * u = round_up u f"
    if "u = MiB \<or> u = GiB" for u
  proof -
    have u: "0 < u" "2 ^ 20 \<le> u" using that by (auto simp: MiB_def GiB_def)
    have "f \<le> 2 ^ 43 * u" using f1 u(2) by simp
    then have "(of_int f :: rat) \<le> of_int (2 ^ 43 * u)" by (simp only: of_int_le_iff)
    then have "(of_int f :: rat) / of_int u \<le> of_int (2 ^ 43)" using u(1) by (simp add: field_simps)
    then have "\<lceil>(of_int f :: rat) / of_int u\<rceil> \<le> 2 ^ 43" by (simp only: ceiling_le_iff)
    moreover have "0 \<le> \<lceil>(of_int f :: rat) / of_int u\<rceil>"
      using f0 u(1) by (simp add: order_less_le_trans [of "- 1" 0])
    ultimately show ?thesis by (simp add: int64_of_float_of_int round_up_ceiling)
  qed
  show ?thesis
    using ceil [of MiB] ceil [of GiB]
    by (simp add: RoundOffBytes_def Let_def assms(3) exact size_unit_def)
qed

text \<open>Every non-negative \<open>int64\<close> has an integer nearest float: rounding never produces a fraction.\<close>

lemma RoundOffBytes_exact:
  assumes "0 \<le> b" "b \<le> 2 ^ 53"
  shows "RoundOffBytes b = round_up (size_unit b) b"
proof -
  have "round_up (size_unit b) b \<le> 2 ^ 53"
    using assms by (intro round_up_le) (auto simp: size_unit_def MiB_def GiB_def)
  moreover have "0 \<le> round_up (size_unit b) b"
    using assms round_up_bounds [of "size_unit b" b] by simp
  ultimately show ?thesis
    using RoundOffBytes_float [of b b] float64_small [of b] assms by simp
qed

section \<open>Properties\<close>

text \<open>
  C33. For every size up to 2^53 bytes the float arithmetic is exact: the result is the least
  multiple of the unit (MiB below one GiB, GiB from there on) that is not below the request. So a
  positive size below one MiB becomes one MiB, and a size of 0 stays 0.
\<close>

theorem RoundOffBytes_least:
  assumes "0 \<le> b" and "b \<le> 2 ^ 53"
  shows "b \<le> RoundOffBytes b \<and> RoundOffBytes b < b + size_unit b \<and> size_unit b dvd RoundOffBytes b \<and>
         (\<forall>m. size_unit b dvd m \<longrightarrow> b \<le> m \<longrightarrow> RoundOffBytes b \<le> m)"
  using round_up_bounds [of "size_unit b" b] round_up_dvd round_up_le [of "size_unit b" _ b]
  by (auto simp: RoundOffBytes_exact [OF assms])

theorem RoundOffBytes_least_witness:
  "(0::int) \<le> 1600000 \<and> (1600000::int) \<le> 2 ^ 53 \<and> 1600000 \<le> RoundOffBytes 1600000 \<and>
   RoundOffBytes 1600000 < 1600000 + MiB"
  using RoundOffBytes_least [of 1600000] by (simp add: size_unit_def MiB_def GiB_def)

text \<open>
  The comment of the function says that a size less than 1MiB is rounded off to 1MiB; a size of 0 is not.
\<close>

lemma zero_stays_zero: "RoundOffBytes 0 = 0"
  using RoundOffBytes_exact [of 0] by (simp add: round_up_def)

text \<open>
  Rounding an already rounded size changes nothing, although the first rounding may move a
  size just below one GiB into the range that is rounded to GiB.
\<close>

lemma RoundOffBytes_idem:
  assumes "0 \<le> b" and "b \<le> 2 ^ 53"
  shows "RoundOffBytes (RoundOffBytes b) = RoundOffBytes b"
proof -
  let ?r = "round_up (size_unit b) b"
  have le: "?r \<le> 2 ^ 53"
    using assms by (intro round_up_le) (auto simp: size_unit_def MiB_def GiB_def)
  have b: "b \<le> ?r" using round_up_bounds [of "size_unit b" b] by simp
  have "size_unit ?r dvd ?r"
  proof (cases "b < GiB")
    case True
    then have "?r \<le> GiB" by (intro round_up_le) (simp_all add: size_unit_def)
    then show ?thesis using round_up_dvd [of MiB b] True by (cases "?r = GiB") (auto simp: size_unit_def)
  next
    case False
    then have "\<not> ?r < GiB" using b by simp
    then show ?thesis using False round_up_dvd [of GiB b] by (simp add: size_unit_def)
  qed
  then show ?thesis
    using le b assms by (simp add: RoundOffBytes_exact round_up_multiple)
qed

text \<open>
  At the top of the \<open>int64\<close> range the final product wraps around: for every request from
  2^63 - 2^30 + 1024 bytes on, the "rounded up" size is the most negative \<open>int64\<close>.
\<close>

lemma RoundOffBytes_overflow:
  assumes "2 ^ 63 - 2 ^ 30 + 1024 \<le> b" and "b < 2 ^ 63"
  shows "RoundOffBytes b = - (2 ^ 63)"
proof -
  let ?lo = "2 ^ 63 - 2 ^ 30 + 1024 :: int"
  have lo: "fl (of_int ?lo) = of_int ?lo" "fl (of_int (2 ^ 63)) = of_int (2 ^ 63)"
    using fl_representable [of "2 ^ 53 - 2 ^ 20 + 1" 10] fl_representable [of 1 63] by simp_all
  have mono: "fl (of_int ?lo) \<le> float64 b" "float64 b \<le> fl (of_int (2 ^ 63))"
    unfolding float64_def using assms by (intro fl_mono; simp)+
  obtain f where f: "float64 b = of_int f" using float64_integer [of b] assms by force
  then have fb: "?lo \<le> f" "f \<le> 2 ^ 63"
    using mono unfolding lo f by (simp_all only: of_int_le_iff)
  have "round_up GiB f = 2 ^ 63"
  proof (rule ccontr)
    assume "round_up GiB f \<noteq> 2 ^ 63"
    moreover have "round_up GiB f \<le> 2 ^ 63" using fb by (intro round_up_le) (simp_all add: GiB_def MiB_def)
    ultimately have "0 < 2 ^ 63 - round_up GiB f" "2 ^ 63 - round_up GiB f < GiB"
      using fb round_up_bounds [of GiB f] by (simp_all add: GiB_def MiB_def)
    moreover have "GiB dvd 2 ^ 63 - round_up GiB f"
      using round_up_dvd [of GiB f] by (simp add: GiB_def MiB_def dvd_diff)
    ultimately show False using zdvd_not_zless by blast
  qed
  then show ?thesis
    using RoundOffBytes_float [OF _ assms(2) f] assms fb by (simp add: size_unit_def GiB_def MiB_def i64_def)
qed

end
