(* ===== verification/Id_Locker.thy ===== *)
theory Id_Locker
  imports Prelude
begin

text \<open>
  The per-volume locks of \<^verbatim>\<open>pkg/util/idlocker.go\<close>. \<open>VolumeLocks\<close> is the set of volume IDs with an
  operation in progress, the lock every CSI handler takes; \<open>OperationLock\<close> counts the operations
  in progress per kind and volume. A mutex makes every method atomic, so concurrent use is an
  interleaving of the methods, modelled by step relations over the lock and its holders.
\<close>

section \<open>VolumeLocks\<close>

record VolumeLocks =
  vl_locks :: "string set"

definition NewVolumeLocks :: VolumeLocks where
  "NewVolumeLocks = \<lparr>vl_locks = {}\<rparr>"

definition TryAcquire :: "string \<Rightarrow> VolumeLocks \<Rightarrow> bool \<times> VolumeLocks" where
  "TryAcquire volumeID vl =
     (if volumeID \<in> vl_locks vl then (False, vl)
      else (True, vl\<lparr>vl_locks := insert volumeID (vl_locks vl)\<rparr>))"

definition ReleaseLock :: "string \<Rightarrow> VolumeLocks \<Rightarrow> VolumeLocks" where
  "ReleaseLock volumeID vl = vl\<lparr>vl_locks := vl_locks vl - {volumeID}\<rparr>"

section \<open>OperationLock\<close>

text \<open>The Go type is a string; any value beside the five constants is \<open>otherOp\<close>.\<close>

datatype operation = createOp | deleteOp | cloneOpt | restoreOp | expandOp | otherOp string

datatype lock_error =
    OperationExists operation string  \<comment> \<open>"a(n) ... operation with given id ... already exists"\<close>
  | OperationNotSupported operation

record OperationLock =
  ol_locks :: "operation \<Rightarrow> string \<rightharpoonup> int"

definition NewOperationLock :: OperationLock where
  "NewOperationLock = \<lparr>ol_locks = (\<lambda>_. Map.empty)\<rparr>"

text \<open>\<open>ol.locks[op][volumeID]\<close> as Go reads it: zero for a missing key.\<close>

definition ol_count :: "OperationLock \<Rightarrow> operation \<Rightarrow> string \<Rightarrow> int" where
  "ol_count ol op volumeID = (case ol_locks ol op volumeID of None \<Rightarrow> 0 | Some n \<Rightarrow> n)"

definition ol_set :: "OperationLock \<Rightarrow> operation \<Rightarrow> string \<Rightarrow> int option \<Rightarrow> OperationLock" where
  "ol_set ol op volumeID v =
     ol\<lparr>ol_locks := (ol_locks ol)(op := (ol_locks ol op)(volumeID := v))\<rparr>"

text \<open>The checks of one case, in the source's order: the first kind with an entry is reported.\<close>

fun ol_conflict :: "OperationLock \<Rightarrow> operation list \<Rightarrow> string \<Rightarrow> lock_error option" where
  "ol_conflict ol [] volumeID = None"
| "ol_conflict ol (op # ops) volumeID =
     (case ol_locks ol op volumeID of
        Some _ \<Rightarrow> Some (OperationExists op volumeID)
      | None \<Rightarrow> ol_conflict ol ops volumeID)"

fun tryAcquire :: "operation \<Rightarrow> string \<Rightarrow> OperationLock \<Rightarrow> lock_error option \<times> OperationLock" where
  "tryAcquire createOp volumeID ol =
     (case ol_conflict ol [deleteOp] volumeID of
        Some e \<Rightarrow> (Some e, ol)
      | None \<Rightarrow> (None, ol_set ol createOp volumeID (Some (ol_count ol createOp volumeID + 1))))"
| "tryAcquire cloneOpt volumeID ol =
     (case ol_conflict ol [deleteOp, expandOp] volumeID of
        Some e \<Rightarrow> (Some e, ol)
      | None \<Rightarrow> (None, ol_set ol cloneOpt volumeID (Some (ol_count ol cloneOpt volumeID + 1))))"
| "tryAcquire deleteOp volumeID ol =
     (case ol_conflict ol [expandOp, cloneOpt, createOp, restoreOp] volumeID of
        Some e \<Rightarrow> (Some e, ol)
      | None \<Rightarrow> (None, ol_set ol deleteOp volumeID (Some 1)))"
| "tryAcquire restoreOp volumeID ol =
     (case ol_conflict ol [deleteOp] volumeID of
        Some e \<Rightarrow> (Some e, ol)
      | None \<Rightarrow> (None, ol_set ol restoreOp volumeID (Some (ol_count ol restoreOp volumeID + 1))))"
| "tryAcquire expandOp volumeID ol =
     (case ol_conflict ol [deleteOp, cloneOpt, createOp] volumeID of
        Some e \<Rightarrow> (Some e, ol)
      | None \<Rightarrow> (None, ol_set ol expandOp volumeID (Some 1)))"
| "tryAcquire (otherOp s) volumeID ol = (Some (OperationNotSupported (otherOp s)), ol)"

definition release_count :: "operation \<Rightarrow> string \<Rightarrow> OperationLock \<Rightarrow> OperationLock" where
  "release_count op volumeID ol =
     (case ol_locks ol op volumeID of
        None \<Rightarrow> ol
      | Some val \<Rightarrow>
          (let ol' = ol_set ol op volumeID (Some (val - 1))
           in if ol_count ol' op volumeID = 0 then ol_set ol' op volumeID None else ol'))"

fun release :: "operation \<Rightarrow> string \<Rightarrow> OperationLock \<Rightarrow> OperationLock" where
  "release (otherOp s) volumeID ol = ol"
| "release op volumeID ol = release_count op volumeID ol"

definition GetSnapshotCreateLock where "GetSnapshotCreateLock = tryAcquire createOp"
definition GetCloneLock where "GetCloneLock = tryAcquire cloneOpt"
definition GetDeleteLock where "GetDeleteLock = tryAcquire deleteOp"
definition GetRestoreLock where "GetRestoreLock = tryAcquire restoreOp"
definition GetExpandLock where "GetExpandLock = tryAcquire expandOp"
definition ReleaseSnapshotCreateLock where "ReleaseSnapshotCreateLock = release createOp"
definition ReleaseCloneLock where "ReleaseCloneLock = release cloneOpt"
definition ReleaseDeleteLock where "ReleaseDeleteLock = release deleteOp"
definition ReleaseRestoreLock where "ReleaseRestoreLock = release restoreOp"
definition ReleaseExpandLock where "ReleaseExpandLock = release expandOp"

section \<open>Interleavings\<close>

text \<open>
  Handlers, numbered by \<open>nat\<close>, that work on at most one volume each: a handler starts by
  \<open>TryAcquire\<close>, gives up when that fails, and releases the lock when it returns.
\<close>

record lock_system =
  ls_locks :: VolumeLocks
  ls_running :: "nat \<Rightarrow> string option"

inductive handler_step :: "lock_system \<Rightarrow> lock_system \<Rightarrow> bool" where
  handler_start:
    "ls_running s h = None \<Longrightarrow> TryAcquire v (ls_locks s) = (True, l') \<Longrightarrow>
     handler_step s (s\<lparr>ls_locks := l', ls_running := (ls_running s)(h \<mapsto> v)\<rparr>)"
| handler_abort:
    "ls_running s h = None \<Longrightarrow> TryAcquire v (ls_locks s) = (False, l') \<Longrightarrow>
     handler_step s (s\<lparr>ls_locks := l'\<rparr>)"
| handler_return:
    "ls_running s h = Some v \<Longrightarrow>
     handler_step s (s\<lparr>ls_locks := ReleaseLock v (ls_locks s), ls_running := (ls_running s)(h := None)\<rparr>)"

inductive lock_reachable :: "lock_system \<Rightarrow> bool" where
  lock_init: "lock_reachable \<lparr>ls_locks = NewVolumeLocks, ls_running = (\<lambda>_. None)\<rparr>"
| lock_step: "lock_reachable s \<Longrightarrow> handler_step s t \<Longrightarrow> lock_reachable t"

text \<open>
  Users of the \<open>OperationLock\<close>: \<open>os_held op v\<close> counts the operations of a kind on a volume that
  have acquired the lock and not released it yet. Only a holder releases.
\<close>

record op_system =
  os_lock :: OperationLock
  os_held :: "operation \<Rightarrow> string \<Rightarrow> nat"

definition held_upd :: "(operation \<Rightarrow> string \<Rightarrow> nat) \<Rightarrow> operation \<Rightarrow> string \<Rightarrow> nat \<Rightarrow> operation \<Rightarrow> string \<Rightarrow> nat" where
  "held_upd h op v n = h(op := (h op)(v := n))"

inductive op_step :: "op_system \<Rightarrow> op_system \<Rightarrow> bool" where
  op_acquire:
    "tryAcquire op v (os_lock s) = (None, l') \<Longrightarrow>
     op_step s \<lparr>os_lock = l', os_held = held_upd (os_held s) op v (os_held s op v + 1)\<rparr>"
| op_refused:
    "tryAcquire op v (os_lock s) = (Some e, l') \<Longrightarrow> op_step s (s\<lparr>os_lock := l'\<rparr>)"
| op_release:
    "0 < os_held s op v \<Longrightarrow>
     op_step s \<lparr>os_lock = release op v (os_lock s), os_held = held_upd (os_held s) op v (os_held s op v - 1)\<rparr>"

inductive op_reachable :: "op_system \<Rightarrow> bool" where
  op_init: "op_reachable \<lparr>os_lock = NewOperationLock, os_held = (\<lambda>_ _. 0)\<rparr>"
| op_next: "op_reachable s \<Longrightarrow> op_step s t \<Longrightarrow> op_reachable t"

section \<open>The contract of a try-lock\<close>

locale try_lock =
  fixes acquire :: "'i \<Rightarrow> 'l \<Rightarrow> bool \<times> 'l"
    and unlock :: "'i \<Rightarrow> 'l \<Rightarrow> 'l"
    and held :: "'l \<Rightarrow> 'i set"
  assumes acquire_free: "i \<notin> held l \<Longrightarrow> \<exists>l'. acquire i l = (True, l') \<and> held l' = insert i (held l)"
    and acquire_taken: "i \<in> held l \<Longrightarrow> acquire i l = (False, l)"
    and held_unlock: "held (unlock i l) = held l - {i}"
begin

lemma acquire_iff: "fst (acquire i l) \<longleftrightarrow> i \<notin> held l"
  using acquire_free [of i l] acquire_taken [of i l] by (cases "i \<in> held l") auto

lemma acquire_success: "acquire i l = (True, l') \<Longrightarrow> i \<notin> held l \<and> held l' = insert i (held l)"
  using acquire_free [of i l] acquire_taken [of i l] by (cases "i \<in> held l") auto

lemma acquire_failure: "acquire i l = (False, l') \<Longrightarrow> i \<in> held l \<and> l' = l"
  using acquire_free [of i l] acquire_taken [of i l] by (cases "i \<in> held l") auto

text \<open>The pattern \<open>TryAcquire; defer Release\<close> leaves the set of held locks as it was.\<close>

lemma acquire_unlock: "acquire i l = (True, l') \<Longrightarrow> held (unlock i l') = held l"
  using acquire_success [of i l l'] by (auto simp: held_unlock)

end

interpretation vl: try_lock TryAcquire ReleaseLock vl_locks
  by unfold_locales (auto simp: TryAcquire_def ReleaseLock_def)

lemma VolumeLocks_eqI: "vl_locks a = vl_locks b \<Longrightarrow> a = (b :: VolumeLocks)"
  by (cases a, cases b) simp

lemma acquire_release_same: "TryAcquire v l = (True, l') \<Longrightarrow> ReleaseLock v l' = l"
  by (rule VolumeLocks_eqI) (rule vl.acquire_unlock)

section \<open>Invariants of the interleavings\<close>

definition lock_inv :: "lock_system \<Rightarrow> bool" where
  "lock_inv s \<longleftrightarrow>
     (\<forall>v. v \<in> vl_locks (ls_locks s) \<longleftrightarrow> (\<exists>h. ls_running s h = Some v)) \<and>
     (\<forall>h h' v. ls_running s h = Some v \<longrightarrow> ls_running s h' = Some v \<longrightarrow> h = h')"

lemma lock_inv_step:
  assumes "handler_step s t" "lock_inv s"
  shows "lock_inv t"
  using assms
proof (cases rule: handler_step.cases)
  case (handler_start h v l')
  have "v \<notin> vl_locks (ls_locks s)" "vl_locks l' = insert v (vl_locks (ls_locks s))"
    using vl.acquire_success [OF handler_start(3)] by simp_all
  with handler_start assms(2) show ?thesis by (simp add: lock_inv_def) (metis option.distinct(1) option.inject)
next
  case (handler_abort h v l')
  then show ?thesis using vl.acquire_failure [OF handler_abort(3)] assms(2) by (simp add: lock_inv_def)
next
  case (handler_return h v)
  have locks: "w \<in> vl_locks (ls_locks s) \<longleftrightarrow> (\<exists>h. ls_running s h = Some w)"
    and uniq: "ls_running s h = Some w \<Longrightarrow> ls_running s h' = Some w \<Longrightarrow> h = h'" for w h h'
    using assms(2) by (auto simp: lock_inv_def)
  have "w \<in> vl_locks (ls_locks t) \<longleftrightarrow> (\<exists>h. ls_running t h = Some w)" for w
  proof (cases "w = v")
    case True
    then show ?thesis using uniq [OF handler_return(2)] by (auto simp: handler_return(1) vl.held_unlock)
  next
    case False
    then have "h' \<noteq> h" if "ls_running s h' = Some w" for h' using that handler_return(2) by auto
    with False show ?thesis by (auto simp: handler_return(1) vl.held_unlock locks)
  qed
  then show ?thesis using uniq by (simp add: lock_inv_def handler_return(1))
qed

lemma lock_reachable_inv: "lock_reachable s \<Longrightarrow> lock_inv s"
proof (induction rule: lock_reachable.induct)
  case lock_init
  show ?case by (simp add: lock_inv_def NewVolumeLocks_def)
next
  case (lock_step s t)
  then show ?case by (blast intro: lock_inv_step)
qed

text \<open>
  What holds for one volume: \<open>f\<close> is its row of counters, \<open>h\<close> the operations really in progress.
\<close>

definition held_count :: "nat \<Rightarrow> int option" where
  "held_count n = (if n = 0 then None else Some (int n))"

definition op_ok :: "(operation \<Rightarrow> int option) \<Rightarrow> (operation \<Rightarrow> nat) \<Rightarrow> bool" where
  "op_ok f h \<longleftrightarrow>
     f createOp = held_count (h createOp) \<and> f cloneOpt = held_count (h cloneOpt) \<and>
     f restoreOp = held_count (h restoreOp) \<and>
     (f deleteOp = None \<or> f deleteOp = Some 1 \<and> 0 < h deleteOp) \<and>
     (f expandOp = None \<or> f expandOp = Some 1 \<and> 0 < h expandOp) \<and>
     (f deleteOp \<noteq> None \<longrightarrow>
        f createOp = None \<and> f cloneOpt = None \<and> f restoreOp = None \<and> f expandOp = None) \<and>
     (f expandOp \<noteq> None \<longrightarrow> f cloneOpt = None)"

definition op_inv :: "op_system \<Rightarrow> bool" where
  "op_inv s \<longleftrightarrow> (\<forall>v. op_ok (\<lambda>op. ol_locks (os_lock s) op v) (\<lambda>op. os_held s op v))"

lemma ol_locks_set: "ol_locks (ol_set l op v x) op' v' = (if op' = op \<and> v' = v then x else ol_locks l op' v')"
  by (simp add: ol_set_def)

lemma held_upd_at: "held_upd h op v n op' v' = (if op' = op \<and> v' = v then n else h op' v')"
  by (simp add: held_upd_def)

lemma ol_locks_release:
  "ol_locks (release_count op v l) op' v' =
     (if op' = op \<and> v' = v
      then (case ol_locks l op v of None \<Rightarrow> None | Some n \<Rightarrow> if n = 1 then None else Some (n - 1))
      else ol_locks l op' v')"
  by (auto simp: release_count_def ol_locks_set ol_count_def Let_def split: option.splits)

lemma held_count_simps [simp]:
  "held_count 0 = None" "held_count (Suc n) = Some (int n + 1)" "held_count n = None \<longleftrightarrow> n = 0"
  "(case held_count n of None \<Rightarrow> 0 | Some k \<Rightarrow> k) = int n"
  by (simp_all add: held_count_def)

lemma held_count_release:
  "0 < n \<Longrightarrow>
   (case held_count n of None \<Rightarrow> None | Some k \<Rightarrow> if k = 1 then None else Some (k - 1)) = held_count (n - 1)"
  by (auto simp: held_count_def)

lemmas op_row_simps = ol_locks_set held_upd_at ol_locks_release ol_count_def

lemma tryAcquire_other:
  "tryAcquire op v l = (None, l') \<Longrightarrow> v' \<noteq> v \<Longrightarrow> ol_locks l' op' v' = ol_locks l op' v'"
  by (cases op) (auto simp: ol_locks_set split: option.splits)

lemma op_ok_acquire:
  assumes "tryAcquire op v l = (None, l')" "op_ok (\<lambda>op. ol_locks l op v) (\<lambda>op. h op v)"
  shows "op_ok (\<lambda>op. ol_locks l' op v) (\<lambda>op'. held_upd h op v (h op v + 1) op' v)"
  using assms
  by (cases op) (force simp: op_ok_def op_row_simps split: option.splits)+

lemma op_refused_same: "tryAcquire op v l = (Some e, l') \<Longrightarrow> l' = l"
  by (cases op) (auto split: option.splits)

lemma op_ok_release:
  assumes "0 < h op v" "op_ok (\<lambda>op. ol_locks l op v) (\<lambda>op. h op v)"
  shows "op_ok (\<lambda>op'. ol_locks (release op v l) op' v) (\<lambda>op'. held_upd h op v (h op v - 1) op' v)"
  using assms
  by (cases op; cases "ol_locks l deleteOp v"; cases "ol_locks l expandOp v")
    (auto simp: op_ok_def op_row_simps held_count_release)

lemma release_other: "v' \<noteq> v \<Longrightarrow> ol_locks (release op v l) op' v' = ol_locks l op' v'"
  by (cases op) (auto simp: ol_locks_release)

lemma op_inv_step:
  assumes "op_step s t" "op_inv s"
  shows "op_inv t"
  using assms(1)
proof (cases rule: op_step.cases)
  case (op_acquire op v l')
  have "op_ok (\<lambda>op. ol_locks l' op v') (\<lambda>op'. held_upd (os_held s) op v (os_held s op v + 1) op' v')" for v'
    using assms(2) op_ok_acquire [OF op_acquire(2)] tryAcquire_other [OF op_acquire(2)]
    by (cases "v' = v") (auto simp: op_inv_def held_upd_at)
  then show ?thesis by (simp add: op_inv_def op_acquire(1))
next
  case (op_refused op v e l')
  then show ?thesis using assms(2) op_refused_same [OF op_refused(2)] by (simp add: op_inv_def)
next
  case (op_release op v)
  have "op_ok (\<lambda>op'. ol_locks (release op v (os_lock s)) op' v')
          (\<lambda>op'. held_upd (os_held s) op v (os_held s op v - 1) op' v')" for v'
    using assms(2) op_ok_release [where h = "os_held s", OF op_release(2)]
    by (cases "v' = v") (auto simp: op_inv_def held_upd_at release_other)
  then show ?thesis by (simp add: op_inv_def op_release(1))
qed

lemma op_reachable_inv: "op_reachable s \<Longrightarrow> op_inv s"
proof (induction rule: op_reachable.induct)
  case op_init
  show ?case by (simp add: op_inv_def op_ok_def held_count_def NewOperationLock_def)
next
  case (op_next s t)
  then show ?case by (blast intro: op_inv_step)
qed

section \<open>Properties\<close>

text \<open>
  C20. In every interleaving of handlers, \<open>TryAcquire\<close> on a volume succeeds exactly when no handler
  is working on it, and two handlers never work on the same volume at the same time.
\<close>

theorem volume_lock_exclusive:
  assumes "lock_reachable s"
  shows "(fst (TryAcquire v (ls_locks s)) \<longleftrightarrow> (\<forall>h. ls_running s h \<noteq> Some v)) \<and>
         (\<forall>h h'. ls_running s h = Some v \<and> ls_running s h' = Some v \<longrightarrow> h = h')"
  using lock_reachable_inv [OF assms] by (auto simp: lock_inv_def vl.acquire_iff)

theorem volume_lock_exclusive_witness:
  "\<exists>s. lock_reachable s \<and> ls_running s 0 = Some ''pv1'' \<and> \<not> fst (TryAcquire ''pv1'' (ls_locks s))"
proof -
  let ?i = "\<lparr>ls_locks = NewVolumeLocks, ls_running = (\<lambda>_. None)\<rparr>"
  let ?s = "?i\<lparr>ls_locks := \<lparr>vl_locks = {''pv1''}\<rparr>, ls_running := (ls_running ?i)(0 \<mapsto> ''pv1'')\<rparr>"
  have "TryAcquire ''pv1'' (ls_locks ?i) = (True, \<lparr>vl_locks = {''pv1''}\<rparr>)"
    by (simp add: TryAcquire_def NewVolumeLocks_def)
  then have "handler_step ?i ?s" by (intro handler_start) simp_all
  then have r: "lock_reachable ?s" by (rule lock_step [OF lock_init])
  have run: "ls_running ?s 0 = Some ''pv1''" by simp
  then have "\<not> fst (TryAcquire ''pv1'' (ls_locks ?s))"
    using volume_lock_exclusive [OF r, of "''pv1''"] by blast
  with r run show ?thesis by blast
qed

text \<open>
  C32. While a create, clone or restore operation is in progress on a volume, its counter is the
  number of those operations and no delete can start; while a clone is in progress, no expand can.
\<close>

theorem counted_operations_block_delete:
  assumes "op_reachable s" and "op \<in> {createOp, cloneOpt, restoreOp}" and "0 < os_held s op v"
  shows "ol_locks (os_lock s) op v = Some (int (os_held s op v)) \<and>
         fst (GetDeleteLock v (os_lock s)) \<noteq> None \<and>
         (op = cloneOpt \<longrightarrow> fst (GetExpandLock v (os_lock s)) \<noteq> None)"
proof -
  have "op_ok (\<lambda>op. ol_locks (os_lock s) op v) (\<lambda>op. os_held s op v)"
    using op_reachable_inv [OF assms(1)] by (simp add: op_inv_def)
  moreover have "held_count (os_held s op v) = Some (int (os_held s op v))"
    using assms(3) by (simp add: held_count_def)
  ultimately have "ol_locks (os_lock s) op v = Some (int (os_held s op v))"
    using assms(2) by (auto simp: op_ok_def)
  then show ?thesis
    using assms(2) by (auto simp: GetDeleteLock_def GetExpandLock_def split: option.splits)
qed

theorem counted_operations_block_delete_witness:
  "\<exists>s. op_reachable s \<and> os_held s createOp ''pv1'' = 1 \<and> fst (GetDeleteLock ''pv1'' (os_lock s)) \<noteq> None"
proof -
  let ?i = "\<lparr>os_lock = NewOperationLock, os_held = (\<lambda>_ _. 0)\<rparr>"
  define s1 where "s1 = \<lparr>os_lock = ol_set NewOperationLock createOp ''pv1'' (Some 1),
    os_held = held_upd (os_held ?i) createOp ''pv1'' (os_held ?i createOp ''pv1'' + 1)\<rparr>"
  have "op_step ?i s1" unfolding s1_def
    by (rule op_acquire) (simp add: NewOperationLock_def ol_count_def)
  then have r: "op_reachable s1" by (rule op_next [OF op_init])
  have one: "os_held s1 createOp ''pv1'' = 1" by (simp add: s1_def held_upd_at)
  then have held: "0 < os_held s1 createOp ''pv1''" by simp
  have "fst (GetDeleteLock ''pv1'' (os_lock s1)) \<noteq> None"
    using counted_operations_block_delete [OF r _ held] by blast
  with r one show ?thesis by blast
qed

text \<open>
  The delete and expand entries are set to one, not counted: when two expand operations run on
  a volume and the first of them ends, a delete is admitted while the second is still in progress.
\<close>

lemma expand_lock_lost:
  "\<exists>s. op_reachable s \<and> 0 < os_held s expandOp v \<and> 0 < os_held s deleteOp v"
proof -
  let ?i = "\<lparr>os_lock = NewOperationLock, os_held = (\<lambda>_ _. 0)\<rparr>"
  let ?l1 = "ol_set NewOperationLock expandOp v (Some 1)"
  define s1 where "s1 = \<lparr>os_lock = ?l1, os_held = held_upd (os_held ?i) expandOp v (os_held ?i expandOp v + 1)\<rparr>"
  define s2 where "s2 = \<lparr>os_lock = ol_set ?l1 expandOp v (Some 1), os_held = held_upd (os_held s1) expandOp v (os_held s1 expandOp v + 1)\<rparr>"
  define s3 where "s3 = \<lparr>os_lock = release expandOp v (os_lock s2), os_held = held_upd (os_held s2) expandOp v (os_held s2 expandOp v - 1)\<rparr>"
  define s4 where "s4 = \<lparr>os_lock = ol_set (os_lock s3) deleteOp v (Some 1), os_held = held_upd (os_held s3) deleteOp v (os_held s3 deleteOp v + 1)\<rparr>"
  have "op_step ?i s1" unfolding s1_def
    by (rule op_acquire) (simp add: NewOperationLock_def)
  then have r1: "op_reachable s1" by (rule op_next [OF op_init])
  have "op_step s1 s2" unfolding s2_def
    by (rule op_acquire) (simp add: s1_def NewOperationLock_def ol_locks_set)
  with r1 have r2: "op_reachable s2" by (rule op_next)
  have "op_step s2 s3" unfolding s3_def
    by (rule op_release) (simp add: s2_def held_upd_at)
  with r2 have r3: "op_reachable s3" by (rule op_next)
  have "op_step s3 s4" unfolding s4_def
    by (rule op_acquire) (simp add: s3_def s2_def s1_def NewOperationLock_def ol_locks_set ol_locks_release)
  with r3 have "op_reachable s4" by (rule op_next)
  then show ?thesis
    by (intro exI [of _ s4]) (simp add: s4_def s3_def s2_def s1_def held_upd_at)
qed

end
