(* ===== verification/Controller_Server.thy ===== *)
theory Controller_Server
  imports Csi_Common Meta_Store Vol_Id Size_Util Id_Locker
begin

text \<open>
  The controller server, pkg/csi-plugin/hostpath/controllerserver.go. A volume is created by
  composing its ID from the name and recording the ID in the meta store; the node does the rest. A
  handler is a function of the locks and of the cluster state; a handler that takes the lock of its
  volume holds it for its whole body, so a lock held in the state it starts from belongs to another
  request in progress.
\<close>

section \<open>controllerserver.go\<close>

record CreateVolumeResponse =
  cr_VolumeId :: string
  cr_CapacityBytes :: int
  cr_VolumeContext :: "string \<rightharpoonup> string"
  cr_ContentSource :: "string option"

record ControllerExpandVolumeResponse =
  er_CapacityBytes :: int
  er_NodeExpansionRequired :: bool

definition validateCreateVolumeRequest :: "CSIDriver \<Rightarrow> CreateVolumeRequest \<Rightarrow> 'e status option" where
  "validateCreateVolumeRequest d req =
     (case ValidateControllerServiceRequest d CREATE_DELETE_VOLUME of
        Some err \<Rightarrow> Some err
      | None \<Rightarrow>
          if cv_Name req = '''' then Some (status_Error InvalidArgument ''volume Name cannot be empty'')
          else case cv_VolumeCapabilities req of
                 None \<Rightarrow> Some (status_Error InvalidArgument ''volume Capabilities cannot be empty'')
               | Some caps \<Rightarrow>
                   if list_ex vc_block caps then Some (status_Error Unimplemented ''block volume not supported'')
                   else None)"

text \<open>The text of \<open>VolumeOperationAlreadyExistsFmt\<close>.\<close>

definition VolumeOperationAlreadyExists :: "string \<Rightarrow> string" where
  "VolumeOperationAlreadyExists volID = ''an operation with the given Volume ID '' @ volID @ '' already exists''"

text \<open>\<open>CreateVolume\<close> between taking and releasing the lock.\<close>

definition create_locked ::
    "'k cm_api \<Rightarrow> ConfigMapMetaStore \<Rightarrow> CreateVolumeRequest \<Rightarrow> 'k \<Rightarrow> (apierr status + CreateVolumeResponse) \<times> 'k" where
  "create_locked api store req k =
     (let volSizeBytes = (case cv_RequiredBytes req of None \<Rightarrow> MiB * 100 | Some n \<Rightarrow> n);
          volSizeBytes = RoundOffBytes volSizeBytes
      in case ParseBool (case cv_Parameters req ''ephemeral'' of None \<Rightarrow> '''' | Some s \<Rightarrow> s) of
           None \<Rightarrow> (Inl (status_Error InvalidArgument ''invalid ephemeral volume options in request''), k)
         | Some ephemeral \<Rightarrow>
             (case ComposeCSIID \<lparr>EncodingVersion = VolIDVersion, Ephemeral = ephemeral, VolumeName = cv_Name req\<rparr> of
                Inl err \<Rightarrow> (Inl (status_Error Internal ''failed get volumeId''), k)
              | Inr volumeId \<Rightarrow>
                  (case AddMetaInfo api store volumeId k of
                     (Some err, k) \<Rightarrow> (Inl (status_Error InvalidArgument ''failed add volumeId to meta store''), k)
                   | (None, k) \<Rightarrow>
                       (Inr \<lparr>cr_VolumeId = volumeId, cr_CapacityBytes = volSizeBytes,
                             cr_VolumeContext = cv_Parameters req, cr_ContentSource = cv_ContentSource req\<rparr>, k))))"

definition CreateVolume ::
    "'k cm_api \<Rightarrow> CSIDriver \<Rightarrow> ConfigMapMetaStore \<Rightarrow> CreateVolumeRequest \<Rightarrow> VolumeLocks \<Rightarrow> 'k
       \<Rightarrow> (apierr status + CreateVolumeResponse) \<times> VolumeLocks \<times> 'k" where
  "CreateVolume api d store req l k =
     (case validateCreateVolumeRequest d req of
        Some err \<Rightarrow> (Inl err, l, k)
      | None \<Rightarrow>
          (case TryAcquire (cv_Name req) l of
             (False, l) \<Rightarrow> (Inl (status_Error Aborted (VolumeOperationAlreadyExists (cv_Name req))), l, k)
           | (True, l) \<Rightarrow>
               (case create_locked api store req k of
                  (r, k) \<Rightarrow> (r, ReleaseLock (cv_Name req) l, k))))"

definition DeleteVolume ::
    "'k cm_api \<Rightarrow> CSIDriver \<Rightarrow> ConfigMapMetaStore \<Rightarrow> string \<Rightarrow> 'k \<Rightarrow> apierr status option \<times> 'k" where
  "DeleteVolume api d store volumeID k =
     (case ValidateControllerServiceRequest d CREATE_DELETE_VOLUME of
        Some err \<Rightarrow> (Some err, k)
      | None \<Rightarrow>
          if volumeID = '''' then (Some (status_Error InvalidArgument ''empty volume ID in request''), k)
          else case UnsetMetaInfo api store volumeID k of
                 (Some err, k) \<Rightarrow> (Some (status_Error InvalidArgument ''failed remove from meta store''), k)
               | (None, k) \<Rightarrow> (None, k))"

definition ControllerExpandVolume ::
    "CSIDriver \<Rightarrow> ControllerExpandVolumeRequest \<Rightarrow> VolumeLocks
       \<Rightarrow> (apierr status + ControllerExpandVolumeResponse) \<times> VolumeLocks" where
  "ControllerExpandVolume d req l =
     (case ValidateControllerServiceRequest d EXPAND_VOLUME of
        Some err \<Rightarrow> (Inl err, l)
      | None \<Rightarrow>
          if ce_VolumeId req = '''' then (Inl (status_Error InvalidArgument ''volume ID cannot be empty''), l)
          else case ce_RequiredBytes req of
                 None \<Rightarrow> (Inl (status_Error InvalidArgument ''capacityRange cannot be empty''), l)
               | Some bytes \<Rightarrow>
                   (let volSize = RoundOffBytes bytes
                    in case TryAcquire (ce_VolumeId req) l of
                         (False, l) \<Rightarrow> (Inl (status_Error Aborted (VolumeOperationAlreadyExists (ce_VolumeId req))), l)
                       | (True, l) \<Rightarrow>
                           (Inr \<lparr>er_CapacityBytes = volSize, er_NodeExpansionRequired = True\<rparr>,
                            ReleaseLock (ce_VolumeId req) l)))"

text \<open>The response carries the confirmed capabilities, or none when one of them asks for a block device.\<close>

definition ValidateVolumeCapabilities ::
    "ValidateVolumeCapabilitiesRequest \<Rightarrow> apierr status + VolumeCapability list option" where
  "ValidateVolumeCapabilities req =
     (if vv_VolumeId req = '''' then Inl (status_Error InvalidArgument ''empty volume ID in request'')
      else if vv_VolumeCapabilities req = [] then Inl (status_Error InvalidArgument ''empty volume capabilities in request'')
      else if list_ex vc_block (vv_VolumeCapabilities req) then Inr None
      else Inr (Some (vv_VolumeCapabilities req)))"

section \<open>Facts\<close>

lemma create_locked_ok:
  assumes "create_locked api store req k = (Inr resp, k')"
  obtains eph where
    "ParseBool (case cv_Parameters req ''ephemeral'' of None \<Rightarrow> '''' | Some s \<Rightarrow> s) = Some eph"
    "ComposeCSIID \<lparr>EncodingVersion = VolIDVersion, Ephemeral = eph, VolumeName = cv_Name req\<rparr> = Inr (cr_VolumeId resp)"
    "AddMetaInfo api store (cr_VolumeId resp) k = (None, k')"
    "cr_CapacityBytes resp = RoundOffBytes (case cv_RequiredBytes req of None \<Rightarrow> MiB * 100 | Some n \<Rightarrow> n)"
proof (cases "ParseBool (case cv_Parameters req ''ephemeral'' of None \<Rightarrow> '''' | Some s \<Rightarrow> s)")
  case None
  then show ?thesis using assms by (simp add: create_locked_def Let_def)
next
  case (Some eph)
  then show ?thesis
    using assms that [OF Some]
    by (auto simp: create_locked_def Let_def split: sum.splits prod.splits option.splits)
qed

lemma create_locked_same:
  assumes "create_locked api store req k1 = (Inr resp1, k2)" "create_locked api store req k = (Inr resp, k')"
  shows "resp1 = resp"
proof (cases "ParseBool (case cv_Parameters req ''ephemeral'' of None \<Rightarrow> '''' | Some s \<Rightarrow> s)")
  case None
  then show ?thesis using assms by (simp add: create_locked_def Let_def)
next
  case (Some eph)
  then show ?thesis
    using assms by (auto simp: create_locked_def Let_def split: sum.splits prod.splits option.splits)
qed

lemma CreateVolume_ok:
  assumes "CreateVolume api d store req l k = (Inr resp, l', k')"
  shows "l' = l \<and> cv_Name req \<notin> vl_locks l \<and> cv_Name req \<noteq> '''' \<and> create_locked api store req k = (Inr resp, k')"
proof -
  have v: "validateCreateVolumeRequest d req = (None :: apierr status option)"
    using assms by (auto simp: CreateVolume_def split: option.splits)
  obtain l1 where t: "TryAcquire (cv_Name req) l = (True, l1)"
    using assms v by (cases "TryAcquire (cv_Name req) l"; cases "fst (TryAcquire (cv_Name req) l)")
      (auto simp: CreateVolume_def)
  have "ReleaseLock (cv_Name req) l1 = l" by (rule acquire_release_same [OF t])
  moreover have "cv_Name req \<notin> vl_locks l" using t by (auto simp: TryAcquire_def split: if_splits)
  moreover have "cv_Name req \<noteq> ''''" using v by (auto simp: validateCreateVolumeRequest_def split: option.splits if_splits)
  ultimately show ?thesis using assms v t by (auto simp: CreateVolume_def split: prod.splits)
qed

section \<open>Properties\<close>

text \<open>
  C14. What \<open>CreateVolume\<close> promises: a successful request returns an ID from which the node recovers
  the volume's name and whether it is ephemeral, a capacity that is the requested one (100 MiB by
  default) rounded up, the ID is recorded in the meta store beside every ID recorded before, and the
  lock is free again. Repeating the request, in whatever state of the cluster, returns the same ID and
  capacity.
\<close>

theorem CreateVolume_correct:
  assumes "api_stores api" "CreateVolume api d store req l k = (Inr resp, l', k')"
  shows "l' = l \<and>
         (\<exists>eph. ParseBool (case cv_Parameters req ''ephemeral'' of None \<Rightarrow> '''' | Some s \<Rightarrow> s) = Some eph \<and>
            DecomposeCSIID zero_CSIIdentifier (cr_VolumeId resp) =
              Some (\<lparr>EncodingVersion = VolIDVersion, Ephemeral = eph, VolumeName = cv_Name req\<rparr>, None)) \<and>
         cr_CapacityBytes resp = RoundOffBytes (case cv_RequiredBytes req of None \<Rightarrow> 104857600 | Some n \<Rightarrow> n) \<and>
         (\<exists>ids. ListMetaInfos api store k = Inr ids \<and> ListMetaInfos api store k' = Inr (ids(cr_VolumeId resp \<mapsto> ''''))) \<and>
         (\<forall>k1 resp1 l1 k2. CreateVolume api d store req l k1 = (Inr resp1, l1, k2) \<longrightarrow> resp1 = resp)"
proof (intro conjI allI impI)
  note ok = CreateVolume_ok [OF assms(2)]
  then show "l' = l" by blast
  have c: "create_locked api store req k = (Inr resp, k')" using ok by blast
  obtain eph where eph: "ParseBool (case cv_Parameters req ''ephemeral'' of None \<Rightarrow> '''' | Some s \<Rightarrow> s) = Some eph"
    and id: "ComposeCSIID \<lparr>EncodingVersion = VolIDVersion, Ephemeral = eph, VolumeName = cv_Name req\<rparr> = Inr (cr_VolumeId resp)"
    and add: "AddMetaInfo api store (cr_VolumeId resp) k = (None, k')"
    and cap: "cr_CapacityBytes resp = RoundOffBytes (case cv_RequiredBytes req of None \<Rightarrow> MiB * 100 | Some n \<Rightarrow> n)"
    by (rule create_locked_ok [OF c]) (rule that)
  show "\<exists>eph. ParseBool (case cv_Parameters req ''ephemeral'' of None \<Rightarrow> '''' | Some s \<Rightarrow> s) = Some eph \<and>
      DecomposeCSIID zero_CSIIdentifier (cr_VolumeId resp) =
        Some (\<lparr>EncodingVersion = VolIDVersion, Ephemeral = eph, VolumeName = cv_Name req\<rparr>, None)"
    using eph decode_encode [OF id] by blast
  show "cr_CapacityBytes resp = RoundOffBytes (case cv_RequiredBytes req of None \<Rightarrow> 104857600 | Some n \<Rightarrow> n)"
    using cap by (cases "cv_RequiredBytes req") (simp_all add: MiB_def)
  show "\<exists>ids. ListMetaInfos api store k = Inr ids \<and> ListMetaInfos api store k' = Inr (ids(cr_VolumeId resp \<mapsto> ''''))"
    by (rule AddMetaInfo_list [OF assms(1) add])
next
  fix k1 resp1 l1 k2
  assume "CreateVolume api d store req l k1 = (Inr resp1, l1, k2)"
  then have "create_locked api store req k1 = (Inr resp1, k2)" by (rule CreateVolume_ok [THEN conjunct2, THEN conjunct2, THEN conjunct2])
  moreover have "create_locked api store req k = (Inr resp, k')" by (rule CreateVolume_ok [OF assms(2), THEN conjunct2, THEN conjunct2, THEN conjunct2])
  ultimately show "resp1 = resp" by (rule create_locked_same)
qed

text \<open>A driver with the capabilities the plugin enables, a store with its config map, and a request.\<close>

definition driver0 :: CSIDriver where
  "driver0 = \<lparr>drv_name = ''hostpath'', drv_nodeID = ''n1'', drv_version = ''v1'', drv_topology = Map.empty,
     drv_cap = [CREATE_DELETE_VOLUME, EXPAND_VOLUME], drv_vc = []\<rparr>"

definition store0 :: ConfigMapMetaStore where
  "store0 = \<lparr>ms_cmName = ''meta'', ms_cmNamespace = ''kube-system''\<rparr>"

definition api0 :: mem_api where
  "api0 = [(''kube-system'', ''meta'') \<mapsto> \<lparr>cm_Name = ''meta'', cm_Data = None, cm_Version = 1\<rparr>]"

definition req0 :: CreateVolumeRequest where
  "req0 = \<lparr>cv_Name = ''pvc-7'', cv_VolumeCapabilities = Some [\<lparr>vc_block = False, vc_mount = Some []\<rparr>],
     cv_RequiredBytes = Some 1600000, cv_Parameters = [''ephemeral'' \<mapsto> ''true''], cv_ContentSource = None\<rparr>"

lemma req0_id: "ComposeCSIID \<lparr>EncodingVersion = VolIDVersion, Ephemeral = True, VolumeName = ''pvc-7''\<rparr> =
    Inr ''0001-0001-0005-pvc-7''"
  by code_simp

lemmas create_run_defs = CreateVolume_def driver0_def store0_def req0_def api0_def NewVolumeLocks_def TryAcquire_def
  ReleaseLock_def validateCreateVolumeRequest_def ValidateControllerServiceRequest_def create_locked_def
  ParseBool_def req0_id AddMetaInfo_def mem_cm_def

lemma req0_ok:
  "\<exists>resp k'. CreateVolume mem_cm driver0 store0 req0 NewVolumeLocks api0 = (Inr resp, NewVolumeLocks, k') \<and>
     cr_VolumeId resp = ''0001-0001-0005-pvc-7'' \<and>
     fst (DeleteVolume mem_cm driver0 store0 (cr_VolumeId resp) k') = None"
  by (simp add: create_run_defs DeleteVolume_def UnsetMetaInfo_def Let_def)

theorem CreateVolume_correct_witness:
  "api_stores mem_cm \<and>
   (\<exists>resp k' ids. CreateVolume mem_cm driver0 store0 req0 NewVolumeLocks api0 = (Inr resp, NewVolumeLocks, k') \<and>
      ListMetaInfos mem_cm store0 k' = Inr (ids(''0001-0001-0005-pvc-7'' \<mapsto> '''')))"
proof -
  obtain resp k' where r: "CreateVolume mem_cm driver0 store0 req0 NewVolumeLocks api0 = (Inr resp, NewVolumeLocks, k')"
    and id: "cr_VolumeId resp = ''0001-0001-0005-pvc-7''" using req0_ok by blast
  obtain ids where "ListMetaInfos mem_cm store0 k' = Inr (ids(cr_VolumeId resp \<mapsto> ''''))"
    using CreateVolume_correct [OF mem_cm_stores r] by blast
  then show ?thesis using mem_cm_stores r id by (intro conjI exI) simp_all
qed

text \<open>
  \<open>DeleteVolume\<close> undoes \<open>CreateVolume\<close>: deleting the ID a creation returned leaves the meta store
  with the IDs recorded before, less this one.
\<close>

lemma delete_undoes_create:
  assumes "api_stores api" "CreateVolume api d store req l k = (Inr resp, l', k1)"
    and "DeleteVolume api d store (cr_VolumeId resp) k1 = (None, k2)"
  shows "\<exists>ids. ListMetaInfos api store k = Inr ids \<and>
           ListMetaInfos api store k2 = Inr (ids(cr_VolumeId resp := None))"
proof -
  have "create_locked api store req k = (Inr resp, k1)" by (rule CreateVolume_ok [OF assms(2), THEN conjunct2, THEN conjunct2, THEN conjunct2])
  then have add: "AddMetaInfo api store (cr_VolumeId resp) k = (None, k1)" by (rule create_locked_ok)
  have unset: "UnsetMetaInfo api store (cr_VolumeId resp) k1 = (None, k2)"
    using assms(3) by (auto simp: DeleteVolume_def split: option.splits if_splits prod.splits)
  obtain ids where "ListMetaInfos api store k = Inr ids" "ListMetaInfos api store k1 = Inr (ids(cr_VolumeId resp \<mapsto> ''''))"
    using AddMetaInfo_list [OF assms(1) add] by blast
  moreover obtain ids1 where "ListMetaInfos api store k1 = Inr ids1"
      "ListMetaInfos api store k2 = Inr (ids1(cr_VolumeId resp := None))"
    using UnsetMetaInfo_list [OF assms(1) unset] by blast
  ultimately show ?thesis by auto
qed

end
