(* ===== verification/Id_Allocator.thy ===== *)
theory Id_Allocator
  imports Prelude
begin

text \<open>
  The pool of XFS project IDs: the bitmap of
  \<^verbatim>\<open>vendor/k8s.io/kubernetes/pkg/registry/core/service/allocator/bitmap.go\<close> and the
  \<open>ProjectIDAllocator\<close> of \<^verbatim>\<open>quotaProvider/projidallocator.go\<close> on top of it. The bitmap is
  the natural number whose bits it holds, as the \<open>big.Int\<close> of the source. The generator
  \<open>rand.Intn(max)\<close> is an arbitrary number \<open>rnd\<close>, reduced modulo \<open>max\<close>; every theorem holds for
  every value of it.
\<close>

section \<open>AllocationBitmap\<close>

record AllocationBitmap =
  ab_max :: nat
  ab_rangeSpec :: string
  ab_count :: int
  ab_allocated :: nat

definition NewAllocationMap :: "nat \<Rightarrow> string \<Rightarrow> AllocationBitmap" where
  "NewAllocationMap mx rangeSpec =
     \<lparr>ab_max = mx, ab_rangeSpec = rangeSpec, ab_count = 0, ab_allocated = 0\<rparr>"

definition ab_Allocate :: "nat \<Rightarrow> AllocationBitmap \<Rightarrow> bool \<times> AllocationBitmap" where
  "ab_Allocate offset r =
     (if bit (ab_allocated r) offset then (False, r)
      else (True, r\<lparr>ab_allocated := set_bit offset (ab_allocated r), ab_count := ab_count r + 1\<rparr>))"

text \<open>The loop of \<open>randomScanStrategy.AllocateBit\<close>, from iteration \<open>i\<close> on.\<close>

function scan_loop :: "nat \<Rightarrow> nat \<Rightarrow> nat \<Rightarrow> nat \<Rightarrow> nat option" where
  "scan_loop allocated mx offset i =
     (if i < mx then
        let at = (offset + i) mod mx
        in if \<not> bit allocated at then Some at else scan_loop allocated mx offset (i + 1)
      else None)"
  by pat_completeness auto
termination
  by (relation "measure (\<lambda>(allocated, mx, offset, i). mx - i)") auto

declare scan_loop.simps [simp del]

definition AllocateBit :: "nat \<Rightarrow> nat \<Rightarrow> nat \<Rightarrow> int \<Rightarrow> nat option" where
  "AllocateBit rnd allocated mx count =
     (if int mx \<le> count then None else scan_loop allocated mx (rnd mod mx) 0)"

definition ab_AllocateNext :: "nat \<Rightarrow> AllocationBitmap \<Rightarrow> nat option \<times> AllocationBitmap" where
  "ab_AllocateNext rnd r =
     (case AllocateBit rnd (ab_allocated r) (ab_max r) (ab_count r) of
        None \<Rightarrow> (None, r)
      | Some next \<Rightarrow>
          (Some next, r\<lparr>ab_count := ab_count r + 1, ab_allocated := set_bit next (ab_allocated r)\<rparr>))"

definition ab_Release :: "nat \<Rightarrow> AllocationBitmap \<Rightarrow> AllocationBitmap" where
  "ab_Release offset r =
     (if \<not> bit (ab_allocated r) offset then r
      else r\<lparr>ab_allocated := unset_bit offset (ab_allocated r), ab_count := ab_count r - 1\<rparr>)"

definition ab_Has :: "nat \<Rightarrow> AllocationBitmap \<Rightarrow> bool" where
  "ab_Has offset r = bit (ab_allocated r) offset"

section \<open>ProjectIDAllocator\<close>

datatype alloc_error = ErrFull | ErrAllocated | ErrNotInRange string

record ProjectIDAllocator =
  PrjIdStart :: int
  MaxPrjIdNum :: int
  pa_alloc :: AllocationBitmap

definition NewAllocator :: "int \<Rightarrow> int \<Rightarrow> ProjectIDAllocator" where
  "NewAllocator ProjectIdStart ProjectIdMaxNum =
     (let rangeSpec = show_int ProjectIdStart @ ''-'' @ show_int (ProjectIdMaxNum - 1)
      in \<lparr>PrjIdStart = ProjectIdStart, MaxPrjIdNum = ProjectIdMaxNum,
          pa_alloc = NewAllocationMap (nat ProjectIdMaxNum) rangeSpec\<rparr>)"

definition pa_contains :: "ProjectIDAllocator \<Rightarrow> int \<Rightarrow> bool \<times> nat" where
  "pa_contains r prjID =
     (if PrjIdStart r \<le> prjID \<and> prjID < PrjIdStart r + MaxPrjIdNum r
      then (True, nat (prjID - PrjIdStart r)) else (False, 0))"

definition pa_Allocate :: "u32 \<Rightarrow> ProjectIDAllocator \<Rightarrow> alloc_error option \<times> ProjectIDAllocator" where
  "pa_Allocate prjId r =
     (case pa_contains r (uint prjId) of
        (False, _) \<Rightarrow>
          (Some (ErrNotInRange (show_int (PrjIdStart r) @ ''-'' @ show_int (MaxPrjIdNum r - 1))), r)
      | (True, offset) \<Rightarrow>
          (case ab_Allocate offset (pa_alloc r) of
             (allocated, a) \<Rightarrow>
               (if \<not> allocated then Some ErrAllocated else None, r\<lparr>pa_alloc := a\<rparr>)))"

definition pa_AllocateNext :: "nat \<Rightarrow> ProjectIDAllocator \<Rightarrow> (alloc_error + u32) \<times> ProjectIDAllocator" where
  "pa_AllocateNext rnd r =
     (case ab_AllocateNext rnd (pa_alloc r) of
        (None, a) \<Rightarrow> (Inl ErrFull, r\<lparr>pa_alloc := a\<rparr>)
      | (Some offset, a) \<Rightarrow> (Inr (word_of_int (PrjIdStart r + int offset)), r\<lparr>pa_alloc := a\<rparr>))"

definition pa_Release :: "u32 \<Rightarrow> ProjectIDAllocator \<Rightarrow> ProjectIDAllocator" where
  "pa_Release prjId r =
     (case pa_contains r (uint prjId) of
        (False, _) \<Rightarrow> r
      | (True, offset) \<Rightarrow> r\<lparr>pa_alloc := ab_Release offset (pa_alloc r)\<rparr>)"

definition pa_Has :: "u32 \<Rightarrow> ProjectIDAllocator \<Rightarrow> bool" where
  "pa_Has prjId r =
     (case pa_contains r (uint prjId) of
        (False, _) \<Rightarrow> False
      | (True, offset) \<Rightarrow> ab_Has offset (pa_alloc r))"

section \<open>What the bitmap represents\<close>

definition ab_used :: "AllocationBitmap \<Rightarrow> nat set" where
  "ab_used r = {i. bit (ab_allocated r) i}"

definition ab_ok :: "AllocationBitmap \<Rightarrow> bool" where
  "ab_ok r \<longleftrightarrow> ab_used r \<subseteq> {..<ab_max r} \<and> ab_count r = int (card (ab_used r))"

text \<open>The interface \<open>allocator.Interface\<close> of the pool, over the set of taken offsets.\<close>

locale offset_pool =
  fixes take_offset :: "nat \<Rightarrow> 'b \<Rightarrow> bool \<times> 'b"
    and take_any :: "nat \<Rightarrow> 'b \<Rightarrow> nat option \<times> 'b"
    and free_offset :: "nat \<Rightarrow> 'b \<Rightarrow> 'b"
    and used :: "'b \<Rightarrow> nat set"
    and capacity :: "'b \<Rightarrow> nat"
    and ok :: "'b \<Rightarrow> bool"
  assumes used_bound: "ok b \<Longrightarrow> used b \<subseteq> {..<capacity b}"
    and take_free: "ok b \<Longrightarrow> i < capacity b \<Longrightarrow> i \<notin> used b \<Longrightarrow>
      \<exists>b'. take_offset i b = (True, b') \<and> used b' = insert i (used b) \<and> ok b' \<and> capacity b' = capacity b"
    and take_taken: "i \<in> used b \<Longrightarrow> take_offset i b = (False, b)"
    and take_any_free: "ok b \<Longrightarrow> used b \<noteq> {..<capacity b} \<Longrightarrow>
      \<exists>i b'. take_any rnd b = (Some i, b') \<and> i < capacity b \<and> i \<notin> used b \<and>
        used b' = insert i (used b) \<and> ok b' \<and> capacity b' = capacity b"
    and take_any_full: "ok b \<Longrightarrow> used b = {..<capacity b} \<Longrightarrow> take_any rnd b = (None, b)"
    and free_used: "ok b \<Longrightarrow>
      used (free_offset i b) = used b - {i} \<and> ok (free_offset i b) \<and> capacity (free_offset i b) = capacity b"
begin

lemma take_any_None_iff: "ok b \<Longrightarrow> fst (take_any rnd b) = None \<longleftrightarrow> used b = {..<capacity b}"
  by (cases "used b = {..<capacity b}") (auto simp: take_any_full dest: take_any_free [where rnd = rnd])

lemma free_take:
  assumes "ok b" "i < capacity b" "i \<notin> used b" "take_offset i b = (True, b')"
  shows "used (free_offset i b') = used b"
  using assms take_free [of b i] free_used [of b' i] by auto

end

section \<open>The scan finds a free offset\<close>

lemma scan_loop_Some:
  "scan_loop allocated mx offset i = Some at \<Longrightarrow> at < mx \<and> \<not> bit allocated at"
proof (induction allocated mx offset i rule: scan_loop.induct)
  case (1 allocated mx offset i)
  then show ?case
    by (auto simp: scan_loop.simps [of allocated mx offset i] Let_def split: if_splits)
qed

lemma scan_loop_None:
  "scan_loop allocated mx offset i = None \<Longrightarrow> i \<le> j \<Longrightarrow> j < mx \<Longrightarrow> bit allocated ((offset + j) mod mx)"
proof (induction allocated mx offset i rule: scan_loop.induct)
  case (1 allocated mx offset i)
  have "i < mx" using "1.prems" by simp
  then have "bit allocated ((offset + i) mod mx)" "scan_loop allocated mx offset (i + 1) = None"
    using "1.prems"(1) by (auto simp: scan_loop.simps [of allocated mx offset i] Let_def split: if_splits)
  then show ?case using "1.IH" [OF \<open>i < mx\<close> refl] "1.prems" by (cases "j = i") auto
qed

lemma scan_covers:
  assumes "k < mx"
  shows "\<exists>j < mx. (offset + j) mod mx = (k :: nat)"
proof -
  have "(offset + (k + (mx - offset mod mx)) mod mx) mod mx = (offset mod mx + (k + (mx - offset mod mx))) mod mx"
    by (simp add: mod_simps)
  also have "offset mod mx + (k + (mx - offset mod mx)) = k + mx"
    using assms mod_less_divisor [of mx offset] by linarith
  finally have "(offset + (k + (mx - offset mod mx)) mod mx) mod mx = k" using assms by simp
  moreover have "(k + (mx - offset mod mx)) mod mx < mx" using assms by simp
  ultimately show ?thesis by blast
qed

lemma scan_complete: "k < mx \<Longrightarrow> \<not> bit allocated k \<Longrightarrow> scan_loop allocated mx offset 0 \<noteq> None"
  using scan_loop_None [of allocated mx offset 0] scan_covers [of k mx offset] by auto

section \<open>The bitmap implements the pool\<close>

lemma ab_used_finite [simp]: "finite (ab_used r)"
proof -
  have "ab_used r \<subseteq> {..<ab_allocated r}"
  proof
    fix i assume "i \<in> ab_used r"
    then have "2 ^ i \<le> ab_allocated r"
      by (auto simp: ab_used_def bit_iff_odd not_less [symmetric] div_less)
    then have "i < ab_allocated r" by (rule less_le_trans [OF less_exp])
    then show "i \<in> {..<ab_allocated r}" by simp
  qed
  then show ?thesis by (rule finite_subset) simp
qed

lemma ab_used_set: "ab_used (r\<lparr>ab_count := c, ab_allocated := set_bit i (ab_allocated r)\<rparr>) = insert i (ab_used r)"
  by (auto simp: ab_used_def bit_simps)

lemma ab_used_unset: "ab_used (r\<lparr>ab_count := c, ab_allocated := unset_bit i (ab_allocated r)\<rparr>) = ab_used r - {i}"
  by (auto simp: ab_used_def bit_simps)

lemma ab_upd_swap: "r\<lparr>ab_allocated := a, ab_count := c\<rparr> = r\<lparr>ab_count := c, ab_allocated := a\<rparr>"
  by simp

lemma ab_ok_set: "ab_ok r \<Longrightarrow> i < ab_max r \<Longrightarrow> i \<notin> ab_used r \<Longrightarrow>
    ab_ok (r\<lparr>ab_count := ab_count r + 1, ab_allocated := set_bit i (ab_allocated r)\<rparr>)"
  by (simp add: ab_ok_def ab_used_set)

lemma ab_ok_unset: "ab_ok r \<Longrightarrow> i \<in> ab_used r \<Longrightarrow>
    ab_ok (r\<lparr>ab_count := ab_count r - 1, ab_allocated := unset_bit i (ab_allocated r)\<rparr>)"
  using card_Suc_Diff1 [of "ab_used r" i] by (auto simp: ab_ok_def ab_used_unset)

lemma ab_full_iff: "ab_ok r \<Longrightarrow> int (ab_max r) \<le> ab_count r \<longleftrightarrow> ab_used r = {..<ab_max r}"
proof
  assume ok: "ab_ok r" and full: "int (ab_max r) \<le> ab_count r"
  then have "card {..<ab_max r} \<le> card (ab_used r)" by (simp add: ab_ok_def)
  then show "ab_used r = {..<ab_max r}" using ok by (intro card_seteq) (simp_all add: ab_ok_def)
qed (simp add: ab_ok_def)

lemma ab_AllocateNext_full: "ab_ok r \<Longrightarrow> ab_used r = {..<ab_max r} \<Longrightarrow> ab_AllocateNext rnd r = (None, r)"
  using ab_full_iff [of r] by (simp add: ab_AllocateNext_def AllocateBit_def)

lemma ab_AllocateNext_free:
  assumes ok: "ab_ok r" and free: "ab_used r \<noteq> {..<ab_max r}"
  shows "\<exists>i r'. ab_AllocateNext rnd r = (Some i, r') \<and> i < ab_max r \<and> i \<notin> ab_used r \<and>
           ab_used r' = insert i (ab_used r) \<and> ab_ok r' \<and> ab_max r' = ab_max r"
proof -
  obtain k where k: "k < ab_max r" "\<not> bit (ab_allocated r) k"
    using ok free by (auto simp: ab_ok_def ab_used_def)
  obtain i where i: "scan_loop (ab_allocated r) (ab_max r) (rnd mod ab_max r) 0 = Some i"
    using scan_complete [OF k] by blast
  then have "i < ab_max r" "i \<notin> ab_used r" using scan_loop_Some [OF i] by (simp_all add: ab_used_def)
  moreover have "\<not> int (ab_max r) \<le> ab_count r" using ab_full_iff [OF ok] free by simp
  ultimately show ?thesis
    using ok i by (simp add: ab_AllocateNext_def AllocateBit_def ab_used_set ab_ok_set)
qed

interpretation ab: offset_pool ab_Allocate ab_AllocateNext ab_Release ab_used ab_max ab_ok
proof
  fix b i rnd
  show "ab_ok b \<Longrightarrow> ab_used b \<subseteq> {..<ab_max b}" by (simp add: ab_ok_def)
  show "i \<in> ab_used b \<Longrightarrow> ab_Allocate i b = (False, b)" by (simp add: ab_Allocate_def ab_used_def)
  show "\<exists>b'. ab_Allocate i b = (True, b') \<and> ab_used b' = insert i (ab_used b) \<and> ab_ok b' \<and> ab_max b' = ab_max b"
    if "ab_ok b" "i < ab_max b" "i \<notin> ab_used b"
    using that ab_ok_set [OF that] ab_used_set [where r = b and i = i and c = "ab_count b + 1"]
    by (simp add: ab_Allocate_def ab_upd_swap ab_used_def)
  show "ab_ok b \<Longrightarrow> ab_used b = {..<ab_max b} \<Longrightarrow> ab_AllocateNext rnd b = (None, b)"
    by (rule ab_AllocateNext_full)
  show "\<exists>i b'. ab_AllocateNext rnd b = (Some i, b') \<and> i < ab_max b \<and> i \<notin> ab_used b \<and>
           ab_used b' = insert i (ab_used b) \<and> ab_ok b' \<and> ab_max b' = ab_max b"
    if "ab_ok b" "ab_used b \<noteq> {..<ab_max b}"
    using that by (rule ab_AllocateNext_free)
  show "ab_used (ab_Release i b) = ab_used b - {i} \<and> ab_ok (ab_Release i b) \<and> ab_max (ab_Release i b) = ab_max b"
    if "ab_ok b"
    using that ab_ok_unset [OF that, of i] ab_used_unset [where r = b and i = i and c = "ab_count b - 1"]
    by (auto simp: ab_Release_def ab_upd_swap ab_used_def)
qed

section \<open>The contract of the ID allocator\<close>

definition pa_range :: "ProjectIDAllocator \<Rightarrow> u32 set" where
  "pa_range r = {p. PrjIdStart r \<le> uint p \<and> uint p < PrjIdStart r + MaxPrjIdNum r}"

definition pa_ids :: "ProjectIDAllocator \<Rightarrow> u32 set" where
  "pa_ids r = {p \<in> pa_range r. nat (uint p - PrjIdStart r) \<in> ab_used (pa_alloc r)}"

definition pa_ok :: "ProjectIDAllocator \<Rightarrow> bool" where
  "pa_ok r \<longleftrightarrow> ab_ok (pa_alloc r) \<and> int (ab_max (pa_alloc r)) = MaxPrjIdNum r \<and>
     0 \<le> PrjIdStart r \<and> PrjIdStart r + MaxPrjIdNum r \<le> 2 ^ 32"

text \<open>The interface \<open>AllocatorInterface\<close>, over the set of allocated project IDs.\<close>

locale id_allocator =
  fixes allocate :: "u32 \<Rightarrow> 'a \<Rightarrow> 'e option \<times> 'a"
    and allocate_next :: "nat \<Rightarrow> 'a \<Rightarrow> ('e + u32) \<times> 'a"
    and free :: "u32 \<Rightarrow> 'a \<Rightarrow> 'a"
    and ids :: "'a \<Rightarrow> u32 set"
    and id_range :: "'a \<Rightarrow> u32 set"
    and ok :: "'a \<Rightarrow> bool"
  assumes ids_in_range: "ok a \<Longrightarrow> ids a \<subseteq> id_range a"
    and allocate_free: "ok a \<Longrightarrow> i \<in> id_range a \<Longrightarrow> i \<notin> ids a \<Longrightarrow>
      \<exists>a'. allocate i a = (None, a') \<and> ids a' = insert i (ids a) \<and> ok a' \<and> id_range a' = id_range a"
    and allocate_refused: "ok a \<Longrightarrow> i \<notin> id_range a \<or> i \<in> ids a \<Longrightarrow> \<exists>e. allocate i a = (Some e, a)"
    and next_free: "ok a \<Longrightarrow> ids a \<noteq> id_range a \<Longrightarrow>
      \<exists>i a'. allocate_next rnd a = (Inr i, a') \<and> i \<in> id_range a \<and> i \<notin> ids a \<and>
        ids a' = insert i (ids a) \<and> ok a' \<and> id_range a' = id_range a"
    and next_full: "ok a \<Longrightarrow> ids a = id_range a \<Longrightarrow> \<exists>e. allocate_next rnd a = (Inl e, a)"
    and free_ids: "ok a \<Longrightarrow> ids (free i a) = ids a - {i} \<and> ok (free i a) \<and> id_range (free i a) = id_range a"
begin

lemma allocate_success:
  assumes "ok a" "allocate i a = (None, a')"
  shows "i \<in> id_range a \<and> i \<notin> ids a \<and> ids a' = insert i (ids a) \<and> ok a' \<and> id_range a' = id_range a"
  using assms allocate_free [of a i] allocate_refused [of a i] by (cases "i \<in> id_range a \<and> i \<notin> ids a") auto

lemma allocate_error: "ok a \<Longrightarrow> allocate i a = (Some e, a') \<Longrightarrow> a' = a"
  using allocate_free [of a i] allocate_refused [of a i] by (cases "i \<in> id_range a \<and> i \<notin> ids a") auto

lemma next_success:
  assumes "ok a" "allocate_next rnd a = (Inr i, a')"
  shows "i \<in> id_range a \<and> i \<notin> ids a \<and> ids a' = insert i (ids a) \<and> ok a' \<and> id_range a' = id_range a"
  using assms next_free [of a rnd] next_full [of a rnd] by (cases "ids a = id_range a") auto

lemma next_error: "ok a \<Longrightarrow> allocate_next rnd a = (Inl e, a') \<Longrightarrow> a' = a \<and> ids a = id_range a"
  using next_free [of a rnd] next_full [of a rnd] by (cases "ids a = id_range a") auto

text \<open>Giving back the ID just taken restores the set of allocated IDs.\<close>

lemma next_then_free:
  assumes "ok a" "allocate_next rnd a = (Inr i, a')"
  shows "ids (free i a') = ids a \<and> ok (free i a') \<and> id_range (free i a') = id_range a"
  using next_success [OF assms] free_ids [of a' i] by auto

end

lemma pa_offset_bound: "pa_ok r \<Longrightarrow> p \<in> pa_range r \<Longrightarrow> nat (uint p - PrjIdStart r) < ab_max (pa_alloc r)"
  by (auto simp: pa_ok_def pa_range_def)

lemma pa_contains_iff:
  "pa_contains r (uint p) = (if p \<in> pa_range r then (True, nat (uint p - PrjIdStart r)) else (False, 0))"
  by (simp add: pa_contains_def pa_range_def)

lemma pa_range_alloc [simp]: "pa_range (r\<lparr>pa_alloc := a\<rparr>) = pa_range r"
  by (simp add: pa_range_def)

lemma pa_ids_insert:
  assumes "p \<in> pa_range r" "ab_used a = insert (nat (uint p - PrjIdStart r)) (ab_used (pa_alloc r))"
  shows "pa_ids (r\<lparr>pa_alloc := a\<rparr>) = insert p (pa_ids r)"
proof -
  have "q = p" if "q \<in> pa_range r" "nat (uint q - PrjIdStart r) = nat (uint p - PrjIdStart r)" for q
    using that assms(1) by (intro word_uint_eqI) (auto simp: pa_range_def)
  then show ?thesis using assms by (auto simp: pa_ids_def)
qed

lemma pa_ids_remove:
  assumes "p \<in> pa_range r" "ab_used a = ab_used (pa_alloc r) - {nat (uint p - PrjIdStart r)}"
  shows "pa_ids (r\<lparr>pa_alloc := a\<rparr>) = pa_ids r - {p}"
proof -
  have "q = p" if "q \<in> pa_range r" "nat (uint q - PrjIdStart r) = nat (uint p - PrjIdStart r)" for q
    using that assms(1) by (intro word_uint_eqI) (auto simp: pa_range_def)
  then show ?thesis using assms by (auto simp: pa_ids_def)
qed

text \<open>The project ID of an offset, as \<open>AllocateNext\<close> returns it.\<close>

lemma pa_id_of_offset:
  assumes "pa_ok r" "i < ab_max (pa_alloc r)"
  shows "word_of_int (PrjIdStart r + int i) \<in> pa_range r"
    "nat (uint (word_of_int (PrjIdStart r + int i) :: u32) - PrjIdStart r) = i"
proof -
  have "0 \<le> PrjIdStart r + int i" "PrjIdStart r + int i < 2 ^ 32" "int i < MaxPrjIdNum r"
    using assms by (auto simp: pa_ok_def)
  moreover from this have "uint (word_of_int (PrjIdStart r + int i) :: u32) = PrjIdStart r + int i"
    by (simp add: uint_word_of_int del: of_int_add)
  ultimately show "word_of_int (PrjIdStart r + int i) \<in> pa_range r"
    "nat (uint (word_of_int (PrjIdStart r + int i) :: u32) - PrjIdStart r) = i"
    using assms(1) by (simp_all add: pa_range_def pa_ok_def del: of_int_add)
qed

lemma pa_full_iff:
  assumes "pa_ok r"
  shows "pa_ids r = pa_range r \<longleftrightarrow> ab_used (pa_alloc r) = {..<ab_max (pa_alloc r)}"
proof
  assume full: "pa_ids r = pa_range r"
  have "i \<in> ab_used (pa_alloc r)" if i: "i < ab_max (pa_alloc r)" for i
  proof -
    have "word_of_int (PrjIdStart r + int i) \<in> pa_ids r"
      using pa_id_of_offset(1) [OF assms i] by (simp only: full)
    then show ?thesis by (simp only: pa_ids_def mem_Collect_eq pa_id_of_offset(2) [OF assms i])
  qed
  then show "ab_used (pa_alloc r) = {..<ab_max (pa_alloc r)}"
    using assms by (auto simp: pa_ok_def ab_ok_def)
next
  assume "ab_used (pa_alloc r) = {..<ab_max (pa_alloc r)}"
  then show "pa_ids r = pa_range r" using pa_offset_bound [OF assms] by (auto simp: pa_ids_def)
qed

lemma pa_AllocateNext_free:
  assumes a: "pa_ok a" "pa_ids a \<noteq> pa_range a"
  shows "\<exists>i a'. pa_AllocateNext rnd a = (Inr i, a') \<and> i \<in> pa_range a \<and> i \<notin> pa_ids a \<and>
      pa_ids a' = insert i (pa_ids a) \<and> pa_ok a' \<and> pa_range a' = pa_range a"
proof -
  obtain k b where b: "ab_AllocateNext rnd (pa_alloc a) = (Some k, b)" "k < ab_max (pa_alloc a)"
    "k \<notin> ab_used (pa_alloc a)" "ab_used b = insert k (ab_used (pa_alloc a))" "ab_ok b"
    "ab_max b = ab_max (pa_alloc a)"
    using ab.take_any_free [of "pa_alloc a" rnd] a pa_full_iff [OF a(1)] by (auto simp: pa_ok_def)
  let ?i = "word_of_int (PrjIdStart a + int k) :: u32"
  have i: "?i \<in> pa_range a" "nat (uint ?i - PrjIdStart a) = k" using pa_id_of_offset [OF a(1) b(2)] .
  have "pa_ids (a\<lparr>pa_alloc := b\<rparr>) = insert ?i (pa_ids a)"
    by (rule pa_ids_insert [OF i(1)]) (simp only: i(2) b(4))
  moreover have "?i \<notin> pa_ids a" using b(3) by (simp only: pa_ids_def mem_Collect_eq i(2)) simp
  moreover have "pa_ok (a\<lparr>pa_alloc := b\<rparr>)" using a(1) b(5,6) by (simp add: pa_ok_def)
  moreover have "pa_AllocateNext rnd a = (Inr ?i, a\<lparr>pa_alloc := b\<rparr>)"
    by (simp only: pa_AllocateNext_def b(1) prod.case option.case)
  ultimately show ?thesis using i(1) pa_range_alloc by blast
qed

interpretation pa: id_allocator pa_Allocate pa_AllocateNext pa_Release pa_ids pa_range pa_ok
proof
  fix a :: ProjectIDAllocator and i :: u32 and rnd :: nat
  show "pa_ok a \<Longrightarrow> pa_ids a \<subseteq> pa_range a" by (auto simp: pa_ids_def)
  show "\<exists>a'. pa_Allocate i a = (None, a') \<and> pa_ids a' = insert i (pa_ids a) \<and> pa_ok a' \<and> pa_range a' = pa_range a"
    if a: "pa_ok a" "i \<in> pa_range a" "i \<notin> pa_ids a"
  proof -
    obtain b where "ab_Allocate (nat (uint i - PrjIdStart a)) (pa_alloc a) = (True, b)" "ab_ok b"
      "ab_used b = insert (nat (uint i - PrjIdStart a)) (ab_used (pa_alloc a))" "ab_max b = ab_max (pa_alloc a)"
      using ab.take_free [OF _ pa_offset_bound [OF a(1,2)]] a by (auto simp: pa_ok_def pa_ids_def)
    then show ?thesis
      using a pa_ids_insert [OF a(2)] by (simp add: pa_Allocate_def pa_contains_iff pa_ok_def)
  qed
  show "\<exists>e. pa_Allocate i a = (Some e, a)" if "pa_ok a" "i \<notin> pa_range a \<or> i \<in> pa_ids a"
    using that ab.take_taken [of "nat (uint i - PrjIdStart a)" "pa_alloc a"]
    by (auto simp: pa_Allocate_def pa_contains_iff pa_ids_def)
  show "\<exists>i a'. pa_AllocateNext rnd a = (Inr i, a') \<and> i \<in> pa_range a \<and> i \<notin> pa_ids a \<and>
      pa_ids a' = insert i (pa_ids a) \<and> pa_ok a' \<and> pa_range a' = pa_range a"
    if "pa_ok a" "pa_ids a \<noteq> pa_range a"
    using that by (rule pa_AllocateNext_free)
  show "\<exists>e. pa_AllocateNext rnd a = (Inl e, a)" if "pa_ok a" "pa_ids a = pa_range a"
    using that ab.take_any_full [of "pa_alloc a" rnd] pa_full_iff [OF that(1)]
    by (simp add: pa_AllocateNext_def pa_ok_def)
  show "pa_ids (pa_Release i a) = pa_ids a - {i} \<and> pa_ok (pa_Release i a) \<and> pa_range (pa_Release i a) = pa_range a"
    if a: "pa_ok a"
  proof (cases "i \<in> pa_range a")
    case True
    then show ?thesis
      using a ab.free_used [of "pa_alloc a" "nat (uint i - PrjIdStart a)"] pa_ids_remove [OF True]
      by (simp add: pa_Release_def pa_contains_iff pa_ok_def)
  next
    case False
    then show ?thesis using a by (auto simp: pa_Release_def pa_contains_iff pa_ids_def)
  qed
qed

lemma pa_Has_iff: "pa_Has p r \<longleftrightarrow> p \<in> pa_ids r"
  by (simp add: pa_Has_def pa_contains_iff ab_Has_def pa_ids_def ab_used_def)

lemma pa_new:
  assumes "0 \<le> start" "0 \<le> n" "start + n \<le> 2 ^ 32"
  shows "pa_ok (NewAllocator start n) \<and> pa_ids (NewAllocator start n) = {}"
  using assms by (simp add: NewAllocator_def NewAllocationMap_def Let_def pa_ok_def ab_ok_def pa_ids_def ab_used_def)

section \<open>Properties\<close>

text \<open>
  C23. On a well-formed allocator \<open>AllocateNext\<close> fails exactly when every ID of the range is taken;
  otherwise it returns an ID of the range that was free, marks it and nothing else, whatever the
  random number. The new state is well-formed again.
\<close>

theorem AllocateNext_fresh:
  assumes "pa_ok r"
  shows "case pa_AllocateNext rnd r of
           (Inl e, r') \<Rightarrow> r' = r \<and> pa_ids r = pa_range r
         | (Inr p, r') \<Rightarrow> p \<in> pa_range r \<and> \<not> pa_Has p r \<and> pa_ok r' \<and>
             (\<forall>q. pa_Has q r' \<longleftrightarrow> q = p \<or> pa_Has q r)"
proof (cases "pa_AllocateNext rnd r")
  case (Pair res r')
  then show ?thesis
    using pa.next_error [OF assms] pa.next_success [OF assms] by (cases res) (auto simp: pa_Has_iff)
qed

theorem AllocateNext_fresh_witness:
  "pa_ok (NewAllocator 1000000 5000) \<and>
   (\<exists>r'. pa_AllocateNext 6003 (NewAllocator 1000000 5000) = (Inr 1001003, r') \<and> pa_Has 1001003 r')"
proof -
  have ok: "pa_ok (NewAllocator 1000000 5000)" by (rule conjunct1 [OF pa_new]) simp_all
  obtain r' where r': "pa_AllocateNext 6003 (NewAllocator 1000000 5000) = (Inr 1001003, r')"
    by (simp add: pa_AllocateNext_def ab_AllocateNext_def AllocateBit_def NewAllocator_def
        NewAllocationMap_def scan_loop.simps Let_def)
  show ?thesis using ok r' AllocateNext_fresh [OF ok, of 6003] by auto
qed

text \<open>
  \<open>Release\<close> undoes \<open>AllocateNext\<close>, and \<open>Allocate\<close> succeeds exactly on a free ID of the range:
  an ID is never handed out twice.
\<close>

lemma Allocate_iff_free:
  assumes "pa_ok r"
  shows "(fst (pa_Allocate p r) = None \<longleftrightarrow> p \<in> pa_range r \<and> \<not> pa_Has p r) \<and>
         (pa_AllocateNext rnd r = (Inr p, r') \<longrightarrow>
            fst (pa_Allocate p r') \<noteq> None \<and> pa_ids (pa_Release p r') = pa_ids r)"
proof -
  have "fst (pa_Allocate p r) = None \<longleftrightarrow> p \<in> pa_range r \<and> \<not> pa_Has p r"
    using pa.allocate_free [OF assms, of p] pa.allocate_refused [OF assms, of p]
    by (cases "p \<in> pa_range r \<and> p \<notin> pa_ids r") (auto simp: pa_Has_iff)
  moreover have "fst (pa_Allocate p r') \<noteq> None \<and> pa_ids (pa_Release p r') = pa_ids r"
    if "pa_AllocateNext rnd r = (Inr p, r')"
    using pa.next_success [OF assms that] pa.next_then_free [OF assms that] pa.allocate_refused [of r' p]
    by auto
  ultimately show ?thesis by blast
qed

end
