(* ===== verification/Quota_Provider.thy ===== *)
theory Quota_Provider
  imports Id_Allocator Os
begin

text \<open>
  The XFS project-quota provider, pkg/csi-plugin/hostpath/quota-manager/quotaProvider/: the data
  types of project\_quota.go, the system-call wrappers of quota\_common\_linux.go and the provider of
  quota\_xfs.go. The provider keeps a project-ID allocator and a cache from quota directories to
  project IDs; its contract is that the cache is injective and holds exactly the allocated IDs.
\<close>

section \<open>Data\<close>

record Quota =
  HardQuota :: u64
  SoftQuota :: u64
  Used :: u64

datatype prov_error =
    ErrAlloc alloc_error
  | ErrOpenDir string
  | ErrGetProjectId oserr
  | ErrSetProjectId oserr
  | ErrGetProjectQuota oserr
  | ErrSetProjectQuota oserr
  | ErrStatfs oserr
  | ErrRemoveAll oserr

record QuotaVolumeProvider =
  projectIdAllocator :: ProjectIDAllocator
  quotaPathAndId :: "string \<rightharpoonup> u32"

section \<open>quota\_common\_linux.go\<close>

definition BASIC_BLOCK_SIZE :: u64 where
  "BASIC_BLOCK_SIZE = 512"

text \<open>Flags of \<open>linux/dqblk_xfs.h\<close> and \<open>linux/fs.h\<close>.\<close>

definition FS_QUOTA_PDQ_ACCT :: u16 where "FS_QUOTA_PDQ_ACCT = 0x10"

definition FS_QUOTA_PDQ_ENFD :: u16 where "FS_QUOTA_PDQ_ENFD = 0x20"

definition FS_DQUOT_VERSION :: u8 where "FS_DQUOT_VERSION = 1"

definition XFS_PROJ_QUOTA :: u8 where "XFS_PROJ_QUOTA = 2"

definition FS_XFLAG_PROJINHERIT :: u32 where "FS_XFLAG_PROJINHERIT = 0x200"


definition supported :: "'w os \<Rightarrow> 'w \<Rightarrow> string \<Rightarrow> string \<Rightarrow> int \<Rightarrow> bool" where
  "supported sys w mountPoint devicePath magic =
     (case os_Statfs sys w mountPoint of
        Inl _ \<Rightarrow> False
      | Inr buf \<Rightarrow>
          if sf_Type buf \<noteq> magic then False
          else case os_XGETQSTAT sys w devicePath of
                 Inl _ \<Rightarrow> False
               | Inr qs_flags \<Rightarrow> qs_flags AND FS_QUOTA_PDQ_ENFD > 0 \<and> qs_flags AND FS_QUOTA_PDQ_ACCT > 0)"

definition getProjectQuota :: "'w os \<Rightarrow> 'w \<Rightarrow> string \<Rightarrow> u32 \<Rightarrow> prov_error + Quota" where
  "getProjectQuota sys w devicePath projectId =
     (case os_XGETPQUOTA sys w devicePath projectId of
        Inl errno \<Rightarrow> Inl (ErrGetProjectQuota errno)
      | Inr disk_quota \<Rightarrow>
          Inr \<lparr>HardQuota = d_blk_hardlimit disk_quota * BASIC_BLOCK_SIZE,
               SoftQuota = d_blk_softlimit disk_quota * BASIC_BLOCK_SIZE,
               Used = d_bcount disk_quota * BASIC_BLOCK_SIZE\<rparr>)"

definition setProjectQuota ::
    "'w os \<Rightarrow> string \<Rightarrow> u32 \<Rightarrow> u64 \<Rightarrow> u64 \<Rightarrow> 'w \<Rightarrow> prov_error option \<times> 'w" where
  "setProjectQuota sys devicePath projectId hardQuota softQuota w =
     (let d = \<lparr>d_version = FS_DQUOT_VERSION, d_flags = XFS_PROJ_QUOTA, d_id = projectId,
               d_fieldmask = FS_DQ_BHARD OR FS_DQ_BSOFT,
               d_blk_hardlimit = hardQuota div BASIC_BLOCK_SIZE,
               d_blk_softlimit = softQuota div BASIC_BLOCK_SIZE, d_bcount = 0\<rparr>
      in case os_XSETPQLIM sys devicePath d w of
           (Some errno, w) \<Rightarrow> (Some (ErrSetProjectQuota errno), w)
         | (None, w) \<Rightarrow> (None, w))"

definition getProjectId :: "'w os \<Rightarrow> 'w \<Rightarrow> string \<Rightarrow> prov_error + u32" where
  "getProjectId sys w quotaPath =
     (if \<not> os_opendir sys w quotaPath then Inl (ErrOpenDir quotaPath)
      else case os_FSGETXATTR sys w quotaPath of
             Inl errno \<Rightarrow> Inl (ErrGetProjectId errno)
           | Inr fsx \<Rightarrow> Inr (fsx_projid fsx))"

definition setProjectId :: "'w os \<Rightarrow> string \<Rightarrow> u32 \<Rightarrow> 'w \<Rightarrow> prov_error option \<times> 'w" where
  "setProjectId sys quotaPath projectId w =
     (if \<not> os_opendir sys w quotaPath then (Some (ErrOpenDir quotaPath), w)
      else case os_FSSETXATTR sys quotaPath \<lparr>fsx_projid = projectId, fsx_xflags = FS_XFLAG_PROJINHERIT\<rparr> w of
             (Some errno, w) \<Rightarrow> (Some (ErrSetProjectId errno), w)
           | (None, w) \<Rightarrow> (None, w))"

section \<open>quota\_xfs.go\<close>

definition LinuxXfsMagic :: int where
  "LinuxXfsMagic = 0x58465342"

definition NewXFSVolumeQuotaProvider :: "int \<Rightarrow> int \<Rightarrow> QuotaVolumeProvider" where
  "NewXFSVolumeQuotaProvider startId idNumber =
     \<lparr>projectIdAllocator = NewAllocator startId idNumber, quotaPathAndId = Map.empty\<rparr>"

definition Supported :: "'w os \<Rightarrow> 'w \<Rightarrow> string \<Rightarrow> string \<Rightarrow> bool" where
  "Supported sys w mountPoint devicePath = supported sys w (path_Clean mountPoint) devicePath LinuxXfsMagic"

definition GetProjectQuota ::
    "'w os \<Rightarrow> 'w \<Rightarrow> string \<Rightarrow> string \<Rightarrow> QuotaVolumeProvider \<Rightarrow> (prov_error + Quota) \<times> QuotaVolumeProvider" where
  "GetProjectQuota sys w quotaPath devicePath v =
     (case quotaPathAndId v quotaPath of
        Some projectId \<Rightarrow> (getProjectQuota sys w devicePath projectId, v)
      | None \<Rightarrow>
          (case getProjectId sys w quotaPath of
             Inl err \<Rightarrow> (Inl err, v)
           | Inr projectId \<Rightarrow>
               (case pa_Allocate projectId (projectIdAllocator v) of
                  (Some err, a) \<Rightarrow> (Inl (ErrAlloc err), v\<lparr>projectIdAllocator := a\<rparr>)
                | (None, a) \<Rightarrow>
                    (getProjectQuota sys w devicePath projectId,
                     v\<lparr>projectIdAllocator := a,
                       quotaPathAndId := (quotaPathAndId v)(quotaPath \<mapsto> projectId)\<rparr>))))"

text \<open>
  The deferred function of \<open>SetProjectQuota\<close>, run with the error the function returns; the random
  scan of \<open>AllocateNext\<close> starts at a draw of the system's generator.
\<close>

definition set_rollback :: "string \<Rightarrow> u32 \<Rightarrow> QuotaVolumeProvider \<Rightarrow> QuotaVolumeProvider" where
  "set_rollback quotaPath projectId v =
     v\<lparr>projectIdAllocator := pa_Release projectId (projectIdAllocator v),
       quotaPathAndId := (quotaPathAndId v)(quotaPath := None)\<rparr>"

definition SetProjectQuota ::
    "'w os \<Rightarrow> string \<Rightarrow> string \<Rightarrow> u64 \<Rightarrow> u64 \<Rightarrow> QuotaVolumeProvider \<Rightarrow> 'w
       \<Rightarrow> prov_error option \<times> QuotaVolumeProvider \<times> 'w" where
  "SetProjectQuota sys quotaPath devicePath hardQuota softQuota v w =
     (case quotaPathAndId v quotaPath of
        Some _ \<Rightarrow> (None, v, w)
      | None \<Rightarrow>
          (case os_Rand sys w of
             (rnd, w) \<Rightarrow>
               (case pa_AllocateNext rnd (projectIdAllocator v) of
                  (Inl err, a) \<Rightarrow> (Some (ErrAlloc err), v\<lparr>projectIdAllocator := a\<rparr>, w)
                | (Inr projectId, a) \<Rightarrow>
                    (let v = v\<lparr>projectIdAllocator := a\<rparr>
                     in case setProjectId sys quotaPath projectId w of
                          (Some err, w) \<Rightarrow> (Some err, set_rollback quotaPath projectId v, w)
                        | (None, w) \<Rightarrow>
                            (case setProjectQuota sys devicePath projectId hardQuota softQuota w of
                               (Some err, w) \<Rightarrow> (Some err, set_rollback quotaPath projectId v, w)
                             | (None, w) \<Rightarrow>
                                 (None, v\<lparr>quotaPathAndId := (quotaPathAndId v)(quotaPath \<mapsto> projectId)\<rparr>, w))))))"

definition DeleteProjectQuota ::
    "'w os \<Rightarrow> string \<Rightarrow> QuotaVolumeProvider \<Rightarrow> 'w \<Rightarrow> prov_error option \<times> QuotaVolumeProvider \<times> 'w" where
  "DeleteProjectQuota sys quotaPath v w =
     (let v = (case quotaPathAndId v quotaPath of
                 None \<Rightarrow> v
               | Some projectId \<Rightarrow>
                   v\<lparr>projectIdAllocator := pa_Release projectId (projectIdAllocator v),
                     quotaPathAndId := (quotaPathAndId v)(quotaPath := None)\<rparr>)
      in if IsNotExist (os_Stat sys w quotaPath) then (None, v, w)
         else case os_RemoveAll sys quotaPath w of
                (err, w) \<Rightarrow> (map_option ErrRemoveAll err, v, w))"

definition GetQuotaDiskInfo :: "'w os \<Rightarrow> 'w \<Rightarrow> string \<Rightarrow> prov_error + Quota" where
  "GetQuotaDiskInfo sys w mountPoint =
     (case os_Statfs sys w mountPoint of
        Inl err \<Rightarrow> Inl (ErrStatfs err)
      | Inr fs \<Rightarrow>
          Inr \<lparr>HardQuota = sf_Blocks fs * word_of_int (sf_Bsize fs),
               SoftQuota = sf_Blocks fs * word_of_int (sf_Bsize fs),
               Used = (sf_Blocks fs - sf_Bfree fs) * word_of_int (sf_Bsize fs)\<rparr>)"

section \<open>A cache over an allocator\<close>

text \<open>The cache is injective and holds exactly the allocated IDs.\<close>

context id_allocator
begin

definition cached :: "(string \<rightharpoonup> u32) \<Rightarrow> 'a \<Rightarrow> bool" where
  "cached m a \<longleftrightarrow> ok a \<and> ran m = ids a \<and> inj_on m (dom m)"

lemma cached_add:
  assumes "cached m a" "m k = None" "i \<notin> ids a" "ok a'" "ids a' = insert i (ids a)"
  shows "cached (m(k \<mapsto> i)) a'"
proof -
  have "m x \<noteq> Some i" for x using assms(1,3) by (auto simp: cached_def ran_def)
  moreover have "inj_on m (dom m)" using assms(1) by (simp add: cached_def)
  ultimately have "inj_on (m(k \<mapsto> i)) (insert k (dom m))" using assms(2)
    by (simp add: inj_on_def) (metis)
  then show ?thesis using assms by (simp add: cached_def)
qed

lemma cached_remove:
  assumes "cached m a" "m k = Some i"
  shows "cached (m(k := None)) (free i a)"
proof -
  have "ran (m(k := None)) = ran m - {i}"
  proof -
    have 1: "j \<noteq> k" if "m j = Some q" "q \<noteq> i" for j q using that assms(2) by auto
    have 2: "j = k" if "m j = Some i" for j
    proof (rule inj_onD [of m "dom m"])
      show "inj_on m (dom m)" using assms(1) by (simp add: cached_def)
    qed (use that assms(2) in auto)
    have "q \<in> ran (m(k := None)) \<longleftrightarrow> (\<exists>j. j \<noteq> k \<and> m j = Some q)" for q
      by (auto simp: ran_def)
    moreover have "(\<exists>j. j \<noteq> k \<and> m j = Some q) \<longleftrightarrow> q \<in> ran m \<and> q \<noteq> i" for q
      using 1 [of _ q] 2 unfolding ran_def by blast
    ultimately show ?thesis by blast
  qed
  moreover have "inj_on (m(k := None)) (dom m - {k})"
    using assms(1) by (simp add: cached_def inj_on_def)
  ultimately show ?thesis
    using assms(1) free_ids [of a i] by (simp add: cached_def)
qed

lemma cached_allocate:
  assumes "cached m a" "m k = None" "allocate i a = (None, a')"
  shows "cached (m(k \<mapsto> i)) a'"
  using allocate_success [OF _ assms(3)] assms(1,2) cached_add [of m a k i a'] by (auto simp: cached_def)

lemma cached_next:
  assumes "cached m a" "m k = None" "allocate_next rnd a = (Inr i, a')"
  shows "cached (m(k \<mapsto> i)) a' \<and> cached m (free i a')"
proof -
  have ok: "ok a" using assms(1) by (simp add: cached_def)
  note s = next_success [OF ok assms(3)]
  have "cached (m(k \<mapsto> i)) a'" using s assms(1,2) cached_add [of m a k i a'] by auto
  from cached_remove [OF this, of k i] show ?thesis using \<open>cached (m(k \<mapsto> i)) a'\<close> assms(2)
    by (simp add: fun_upd_idem)
qed

end

section \<open>The contract of the provider\<close>

definition prov_inv :: "QuotaVolumeProvider \<Rightarrow> bool" where
  "prov_inv v \<longleftrightarrow> pa.cached (quotaPathAndId v) (projectIdAllocator v)"

lemma prov_inv_ok: "prov_inv v \<Longrightarrow> pa_ok (projectIdAllocator v)"
  by (simp add: prov_inv_def pa.cached_def)

lemma prov_inv_ids: "prov_inv v \<Longrightarrow> pa_ids (projectIdAllocator v) = ran (quotaPathAndId v)"
  by (simp add: prov_inv_def pa.cached_def)

lemma prov_inv_New:
  assumes "0 \<le> s" "0 \<le> n" "s + n \<le> 2 ^ 32"
  shows "prov_inv (NewXFSVolumeQuotaProvider s n)"
  using pa_new [OF assms] by (simp add: prov_inv_def pa.cached_def NewXFSVolumeQuotaProvider_def)

lemma prov_inv_Get: "prov_inv v \<Longrightarrow> prov_inv (snd (GetProjectQuota sys w p d v))"
  using pa.allocate_error [OF prov_inv_ok] pa.cached_allocate [of "quotaPathAndId v" "projectIdAllocator v" p]
  by (auto simp: GetProjectQuota_def prov_inv_def split: option.split sum.split prod.split)

lemma prov_inv_rollback:
  assumes "prov_inv v" "quotaPathAndId v p = None"
    and "pa_AllocateNext rnd (projectIdAllocator v) = (Inr i, a)"
  shows "prov_inv (set_rollback p i (v\<lparr>projectIdAllocator := a\<rparr>))"
  using pa.cached_next [where m = "quotaPathAndId v" and k = p, OF _ assms(2,3)] assms(1,2) by (simp add: prov_inv_def set_rollback_def fun_upd_idem)

lemma prov_inv_Set: "prov_inv v \<Longrightarrow> prov_inv (fst (snd (SetProjectQuota sys p d h s v w)))"
  using pa.next_error [OF prov_inv_ok] prov_inv_rollback [of v p]
    pa.cached_next [of "quotaPathAndId v" "projectIdAllocator v" p]
  by (auto simp: SetProjectQuota_def prov_inv_def Let_def split: option.split sum.split prod.split)

lemma prov_inv_Delete: "prov_inv v \<Longrightarrow> prov_inv (fst (snd (DeleteProjectQuota sys p v w)))"
  using pa.cached_remove [of "quotaPathAndId v" "projectIdAllocator v" p]
  by (auto simp: DeleteProjectQuota_def prov_inv_def Let_def split: option.split prod.split)

lemma prov_inv_SetD: "SetProjectQuota sys p d h s v w = (e, v', w') \<Longrightarrow> prov_inv v \<Longrightarrow> prov_inv v'"
  using prov_inv_Set [of v sys p d h s w] by simp

lemma prov_inv_DeleteD: "DeleteProjectQuota sys p v w = (e, v', w') \<Longrightarrow> prov_inv v \<Longrightarrow> prov_inv v'"
  using prov_inv_Delete [of v sys p w] by simp

lemma prov_inv_GetD: "GetProjectQuota sys w p d v = (r, v') \<Longrightarrow> prov_inv v \<Longrightarrow> prov_inv v'"
  using prov_inv_Get [of v sys w p d] by simp

lemmas prov_inv_D = prov_inv_SetD prov_inv_DeleteD prov_inv_GetD

text \<open>The cache after each operation.\<close>

lemma Set_cached: "quotaPathAndId v p = Some i \<Longrightarrow> SetProjectQuota sys p d h s v w = (None, v, w)"
  by (simp add: SetProjectQuota_def)

lemma Set_cache:
  "SetProjectQuota sys p d h s v w = (err, v', w') \<Longrightarrow>
   (err = None \<longrightarrow> dom (quotaPathAndId v') = insert p (dom (quotaPathAndId v))) \<and>
   (err \<noteq> None \<longrightarrow> quotaPathAndId v' = quotaPathAndId v)"
  by (auto simp: SetProjectQuota_def Let_def set_rollback_def fun_upd_idem
      split: option.splits sum.splits prod.splits)

lemma Delete_cache:
  "DeleteProjectQuota sys p v w = (err, v', w') \<Longrightarrow> quotaPathAndId v' = (quotaPathAndId v)(p := None)"
  by (auto simp: DeleteProjectQuota_def Let_def fun_upd_idem split: option.splits prod.splits if_splits)

section \<open>Properties of the provider\<close>

text \<open>
  C21. Every operation of the quota provider keeps its contract: the cache from quota directories to
  project IDs stays injective and holds exactly the IDs taken from the allocator, so two quota
  directories never share a project ID and no ID leaks. A new provider satisfies it, for every
  range of IDs that fits into 32 bits.
\<close>

theorem provider_cache_invariant:
  "(0 \<le> s \<and> 0 \<le> n \<and> s + n \<le> 2 ^ 32 \<longrightarrow> prov_inv (NewXFSVolumeQuotaProvider s n)) \<and>
   (prov_inv v \<longrightarrow> prov_inv (snd (GetProjectQuota sys w p d v)) \<and>
      prov_inv (fst (snd (SetProjectQuota sys p d h h' v w))) \<and>
      prov_inv (fst (snd (DeleteProjectQuota sys p v w))))"
  by (intro conjI impI; (elim conjE)?; erule prov_inv_Get prov_inv_Set prov_inv_Delete prov_inv_New; assumption?)

theorem provider_cache_invariant_witness:
  "prov_inv (NewXFSVolumeQuotaProvider 1000000 5000) \<and>
   prov_inv (fst (snd (SetProjectQuota mem_os ''/xfs/d1/k8squota_a'' ''/dev/sdb'' 1048576 1048576
      (NewXFSVolumeQuotaProvider 1000000 5000) mem0)))"
proof -
  have "prov_inv (NewXFSVolumeQuotaProvider 1000000 5000)"
    using provider_cache_invariant [where s = 1000000 and n = 5000, THEN conjunct1] by simp
  then show ?thesis
    using provider_cache_invariant [THEN conjunct2, rule_format, THEN conjunct2, THEN conjunct1] by simp
qed

text \<open>
  C28. \<open>SetProjectQuota\<close> is atomic in the provider's state: when it fails, whatever call failed
  (the allocator, the project-ID ioctl or the quotactl), the cache is the old one and exactly the
  IDs allocated before are allocated after.
\<close>

theorem SetProjectQuota_error_rollback:
  assumes "prov_inv v" "SetProjectQuota sys p d h s v w = (Some err, v', w')"
  shows "quotaPathAndId v' = quotaPathAndId v \<and>
         (\<forall>i. pa_Has i (projectIdAllocator v') = pa_Has i (projectIdAllocator v))"
proof -
  have "quotaPathAndId v' = quotaPathAndId v" using Set_cache [OF assms(2)] by simp
  moreover have "prov_inv v'" using prov_inv_Set [OF assms(1), of sys p d h s w] assms(2) by simp
  ultimately show ?thesis using assms(1) by (simp add: pa_Has_iff prov_inv_ids)
qed

theorem SetProjectQuota_error_rollback_witness:
  "prov_inv (NewXFSVolumeQuotaProvider 1000000 5000) \<and>
   (\<exists>err v' w'. SetProjectQuota mem_os ''/gone'' ''/dev/sdb'' 512 512
       (NewXFSVolumeQuotaProvider 1000000 5000) mem0 = (Some err, v', w') \<and>
     \<not> pa_Has 1000000 (projectIdAllocator v'))"
proof -
  let ?v = "NewXFSVolumeQuotaProvider 1000000 5000"
  have inv: "prov_inv ?v" by (rule prov_inv_New) simp_all
  obtain v' w' where r: "SetProjectQuota mem_os ''/gone'' ''/dev/sdb'' 512 512 ?v mem0 =
      (Some (ErrOpenDir ''/gone''), v', w')"
    by (simp add: SetProjectQuota_def NewXFSVolumeQuotaProvider_def mem_os_def mem0_def setProjectId_def
        pa_AllocateNext_def ab_AllocateNext_def AllocateBit_def NewAllocator_def NewAllocationMap_def
        scan_loop.simps Let_def)
  have "\<not> pa_Has 1000000 (projectIdAllocator ?v)"
    using prov_inv_ids [OF inv] by (simp add: pa_Has_iff NewXFSVolumeQuotaProvider_def)
  then show ?thesis using SetProjectQuota_error_rollback [OF inv r] inv r by blast
qed

text \<open>
  The documented behaviour of the quota system call on a file system whose blocks are \<open>b\<close> basic blocks
  long: block limits that are in the field mask, are whole blocks of the file system, the soft limit not
  above the hard one, are read back as they were set. (A limit that is not in the mask is not set; one
  that is no whole block is rounded up; and a soft limit above the hard one is ignored.)
\<close>

definition kernel_stores_limits :: "'w os \<Rightarrow> nat \<Rightarrow> bool" where
  "kernel_stores_limits sys b \<longleftrightarrow>
     (\<forall>d q w w'. os_XSETPQLIM sys d q w = (None, w') \<longrightarrow>
        d_fieldmask q AND FS_DQ_BHARD \<noteq> 0 \<longrightarrow> d_fieldmask q AND FS_DQ_BSOFT \<noteq> 0 \<longrightarrow>
        d_blk_softlimit q \<le> d_blk_hardlimit q \<longrightarrow>
        b dvd unat (d_blk_hardlimit q) \<longrightarrow> b dvd unat (d_blk_softlimit q) \<longrightarrow>
        (\<exists>q'. os_XGETPQUOTA sys w' d (d_id q) = Inr q' \<and>
          d_blk_hardlimit q' = d_blk_hardlimit q \<and> d_blk_softlimit q' = d_blk_softlimit q))"

lemma limits_read_back:
  assumes "kernel_stores_limits sys b" "setProjectQuota sys d i h s w = (None, w')" "s \<le> h"
    and "b dvd unat h div 512" "b dvd unat s div 512"
  shows "\<exists>q'. os_XGETPQUOTA sys w' d i = Inr q' \<and>
    d_blk_hardlimit q' = h div BASIC_BLOCK_SIZE \<and> d_blk_softlimit q' = s div BASIC_BLOCK_SIZE"
proof -
  let ?q = "\<lparr>d_version = FS_DQUOT_VERSION, d_flags = XFS_PROJ_QUOTA, d_id = i, d_fieldmask = FS_DQ_BHARD OR FS_DQ_BSOFT,
    d_blk_hardlimit = h div BASIC_BLOCK_SIZE, d_blk_softlimit = s div BASIC_BLOCK_SIZE, d_bcount = 0\<rparr>"
  have n: "unat (x div BASIC_BLOCK_SIZE) = unat x div 512" for x by (simp add: BASIC_BLOCK_SIZE_def unat_div)
  have "os_XSETPQLIM sys d ?q w = (None, w')"
    using assms(2) by (auto simp: setProjectQuota_def Let_def split: prod.splits option.splits)
  moreover have "s div BASIC_BLOCK_SIZE \<le> h div BASIC_BLOCK_SIZE"
    using assms(3) by (simp add: word_le_nat_alt n div_le_mono)
  moreover have "d_fieldmask ?q AND FS_DQ_BHARD \<noteq> 0" "d_fieldmask ?q AND FS_DQ_BSOFT \<noteq> 0"
    by (simp_all add: FS_DQ_BHARD_def FS_DQ_BSOFT_def)
  ultimately show ?thesis
    using assms(1) assms(4,5) unfolding kernel_stores_limits_def by (fastforce simp: n)
qed

lemma block_round: "unat (x div BASIC_BLOCK_SIZE * BASIC_BLOCK_SIZE) = unat x div 512 * 512"
proof -
  have "unat x div 512 * 512 < 2 ^ 64" using unsigned_less [of x, where 'a = nat] by simp
  then show ?thesis by (simp add: BASIC_BLOCK_SIZE_def unat_word_ariths unat_div)
qed

text \<open>
  C27. On a kernel that stores quota limits as documented, a successful \<open>SetProjectQuota\<close> on a directory
  that is not cached is read back by \<open>GetProjectQuota\<close>: the limits are the requested ones rounded down to
  whole 512-byte blocks, and reading them changes nothing. This holds for limits that are then whole
  blocks of the file system, the soft one not above the hard one (the plugin sets both to the same
  size).
\<close>

theorem set_get_roundtrip:
  assumes "kernel_stores_limits sys b" "quotaPathAndId v p = None"
    and "SetProjectQuota sys p d h s v w = (None, v', w')"
    and "s \<le> h" "b dvd unat h div 512" "b dvd unat s div 512"
  shows "\<exists>q. GetProjectQuota sys w' p d v' = (Inr q, v') \<and>
           unat (HardQuota q) = unat h div 512 * 512 \<and> unat (SoftQuota q) = unat s div 512 * 512"
proof -
  from assms(2,3) obtain i w1 where i: "quotaPathAndId v' p = Some i"
      and set: "setProjectQuota sys d i h s w1 = (None, w')"
    by (auto simp: SetProjectQuota_def Let_def split: prod.splits sum.splits option.splits)
  then obtain q' where "os_XGETPQUOTA sys w' d i = Inr q'"
      "d_blk_hardlimit q' = h div BASIC_BLOCK_SIZE" "d_blk_softlimit q' = s div BASIC_BLOCK_SIZE"
    using limits_read_back [OF assms(1) _ assms(4-6)] by blast
  then show ?thesis using i by (simp add: GetProjectQuota_def getProjectQuota_def block_round)
qed

theorem set_get_roundtrip_witness:
  "kernel_stores_limits mem_os 1 \<and>
   (\<exists>v w q. GetProjectQuota mem_os w ''/xfs/d1'' ''/dev/sdb'' v = (Inr q, v) \<and> unat (HardQuota q) = 1024)"
proof -
  let ?v = "NewXFSVolumeQuotaProvider 1000000 5000"
  have k: "kernel_stores_limits mem_os 1" by (auto simp: kernel_stores_limits_def mem_os_def mem_limits_def)
  have "quotaPathAndId ?v ''/xfs/d1'' = None" by (simp add: NewXFSVolumeQuotaProvider_def)
  moreover obtain v' w' where "SetProjectQuota mem_os ''/xfs/d1'' ''/dev/sdb'' 1500 1500 ?v mem0 = (None, v', w')"
    by (simp add: SetProjectQuota_def NewXFSVolumeQuotaProvider_def mem_os_def mem0_def setProjectId_def
        pa_AllocateNext_def ab_AllocateNext_def AllocateBit_def NewAllocator_def NewAllocationMap_def
        scan_loop.simps Let_def setProjectQuota_def)
  ultimately obtain q where "GetProjectQuota mem_os w' ''/xfs/d1'' ''/dev/sdb'' v' = (Inr q, v')"
      "unat (HardQuota q) = unat (1500 :: u64) div 512 * 512"
    using set_get_roundtrip [OF k, of ?v "''/xfs/d1''" "''/dev/sdb''" 1500 1500 mem0 v' w'] by auto
  then show ?thesis using k by auto
qed

text \<open>
  \<open>DeleteProjectQuota\<close> gives the project ID back before it removes the directory: when the
  removal fails it reports the error, but the ID is already free while the directory still carries
  it, so the next volume may be given the same ID and share the quota of the directory left behind.
\<close>

lemma delete_error_frees_id:
  assumes "prov_inv v" "quotaPathAndId v p = Some i"
    and "DeleteProjectQuota sys p v w = (Some err, v', w')"
  shows "pa_Has i (projectIdAllocator v) \<and> \<not> pa_Has i (projectIdAllocator v') \<and>
         fst (pa_Allocate i (projectIdAllocator v')) = None"
proof -
  have inv': "prov_inv v'" using prov_inv_Delete [OF assms(1), of sys p w] assms(3) by simp
  have cached: "pa_ids (projectIdAllocator v') = ran ((quotaPathAndId v)(p := None))"
    using prov_inv_ids [OF inv'] Delete_cache [OF assms(3)] by simp
  have alloc: "projectIdAllocator v' = pa_Release i (projectIdAllocator v)"
    using assms(2,3) by (auto simp: DeleteProjectQuota_def Let_def split: if_splits prod.splits)
  have i: "i \<in> pa_ids (projectIdAllocator v)"
    using assms(2) prov_inv_ids [OF assms(1)] by (auto simp: ran_def)
  then have "i \<in> pa_range (projectIdAllocator v')" "i \<notin> pa_ids (projectIdAllocator v')"
    using pa.free_ids [OF prov_inv_ok [OF assms(1)], of i] pa.ids_in_range [OF prov_inv_ok [OF assms(1)]]
    by (auto simp: alloc)
  then show ?thesis
    using i pa.allocate_free [OF prov_inv_ok [OF inv'], of i] by (auto simp: pa_Has_iff)
qed

end
