(* ===== verification/Go_Sort.thy ===== *)
theory Go_Sort
  imports Prelude "HOL-Library.Multiset"
begin

text \<open>
  \<open>sort.Sort\<close> over a \<open>sort.Interface\<close>. Go promises a permutation in which no later element is
  less than an earlier one; up to twelve elements it runs the insertion sort modelled here, which
  moves an element left while it is less than its left neighbour. The clients rely only on the
  promise, stated as the locale \<open>sort_Interface\<close>.
\<close>

text \<open>The sorted prefix is kept in reverse, so the left neighbour is its head.\<close>

fun go_insert :: "('a \<Rightarrow> 'a \<Rightarrow> bool) \<Rightarrow> 'a \<Rightarrow> 'a list \<Rightarrow> 'a list" where
  "go_insert lt x [] = [x]"
| "go_insert lt x (y # ys) = (if lt x y then y # go_insert lt x ys else x # y # ys)"

definition go_sort :: "('a \<Rightarrow> 'a \<Rightarrow> bool) \<Rightarrow> 'a list \<Rightarrow> 'a list" where
  "go_sort lt xs = rev (fold (go_insert lt) xs [])"

lemma mset_go_insert [simp]: "mset (go_insert lt x ys) = add_mset x (mset ys)"
  by (induction lt x ys rule: go_insert.induct) auto

lemma mset_go_sort [simp]: "mset (go_sort lt xs) = mset xs"
proof -
  have "mset (fold (go_insert lt) xs ys) = mset xs + mset ys" for ys
    by (induction xs arbitrary: ys) auto
  then show ?thesis by (simp add: go_sort_def)
qed

lemma set_go_sort [simp]: "set (go_sort lt xs) = set xs"
  by (metis mset_go_sort set_mset_mset)

lemma length_go_sort [simp]: "length (go_sort lt xs) = length xs"
  by (metis mset_go_sort size_mset)

lemma go_sort_empty_iff [simp]: "go_sort lt xs = [] \<longleftrightarrow> xs = []"
  by (metis length_go_sort length_0_conv)

text \<open>What \<open>sort.Interface\<close> asks of \<open>Less\<close>: a strict weak order.\<close>

locale sort_Interface =
  fixes lt :: "'a \<Rightarrow> 'a \<Rightarrow> bool"
  assumes less_asym: "lt x y \<Longrightarrow> \<not> lt y x"
    and less_neg_trans: "\<not> lt x y \<Longrightarrow> \<not> lt y z \<Longrightarrow> \<not> lt x z"
begin

lemma go_insert_sorted:
  "sorted_wrt (\<lambda>a b. \<not> lt a b) ys \<Longrightarrow> sorted_wrt (\<lambda>a b. \<not> lt a b) (go_insert lt x ys)"
proof (induction ys)
  case (Cons y ys)
  have set_ins: "set (go_insert lt x ys) = insert x (set ys)"
    by (metis mset_go_insert set_mset_add_mset_insert set_mset_mset)
  show ?case
  proof (cases "lt x y")
    case True
    then show ?thesis using Cons less_asym [OF True] set_ins by auto
  next
    case False
    then show ?thesis using Cons.prems less_neg_trans [OF False] by auto
  qed
qed simp

lemma go_sort_sorted: "sorted_wrt (\<lambda>a b. \<not> lt b a) (go_sort lt xs)"
proof -
  have "sorted_wrt (\<lambda>a b. \<not> lt a b) (fold (go_insert lt) xs ys)"
    if "sorted_wrt (\<lambda>a b. \<not> lt a b) ys" for ys
    using that by (induction xs arbitrary: ys) (simp_all add: go_insert_sorted)
  from this [of "[]"] show ?thesis by (simp add: go_sort_def sorted_wrt_rev)
qed

text \<open>No element is less than the first one.\<close>

lemma go_sort_hd:
  assumes "xs \<noteq> []"
  shows "hd (go_sort lt xs) \<in> set xs \<and> (\<forall>y\<in>set xs. \<not> lt y (hd (go_sort lt xs)))"
proof -
  obtain h t where s: "go_sort lt xs = h # t" using assms by (metis go_sort_empty_iff neq_Nil_conv)
  have "set xs = insert h (set t)" using set_go_sort [of lt xs] s by simp
  moreover have "\<forall>y\<in>set t. \<not> lt y h" using go_sort_sorted [of xs] s by simp
  ultimately show ?thesis using s less_asym by auto
qed

end

text \<open>Orders by a key, ascending and descending.\<close>

lemma sort_Interface_key: "sort_Interface (\<lambda>x y. key x < (key y :: 'b :: linorder))"
  by unfold_locales auto

lemma sort_Interface_key_desc: "sort_Interface (\<lambda>x y. key x > (key y :: 'b :: linorder))"
  by unfold_locales auto

end
