(* ===== verification/Quota_Manager.thy ===== *)
theory Quota_Manager
  imports Quota_Provider Fs_Util Go_Sort
begin

text \<open>
  The XFS quota manager, pkg/csi-plugin/hostpath/quota-manager/: the data types of quotamanager.go,
  the names and the disable attribute of common.go and the operations of quotamanager\_xfs.go, and the
  stub quotamanager\_fake.go that replaces it when the start-up fails. The manager places a volume's
  directory on a disk and keeps, per disk, how much of the capacity is promised to volumes.

  Every operation holds the manager's mutex for its whole body, so it is one atomic step here. The
  maps \<open>diskQuotaInfos\<close> and \<open>quotas\<close> are ranged over and are association lists in the order of the
  iteration; their pointer values are reachable only through the maps and are updated in place.
\<close>

section \<open>quotamanager.go\<close>

type_synonym DeviceName = string
type_synonym VolumeId = string

record DiskQuotaInfo =
  disk_DeviceName :: DeviceName
  disk_MountPoint :: string
  disk_Capacity :: u64
  disk_Used :: u64
  disk_QuotaSize :: u64
  disk_AllocatableSize :: u64
  disk_Disabled :: bool
  disk_lastSync :: int

record DiskQuotaInfoSortItem =
  item_DeviceName :: DeviceName
  item_MountPoint :: string
  item_AvailableSize :: u64

definition DiskQuotaInfoList_Less :: "DiskQuotaInfoSortItem \<Rightarrow> DiskQuotaInfoSortItem \<Rightarrow> bool" where
  "DiskQuotaInfoList_Less a b = (item_AvailableSize a > item_AvailableSize b)"

record PathQuotaInfo =
  pq_Path :: string
  pq_DeviceName :: DeviceName
  pq_Quota :: Quota
  pq_lastSync :: int
  pq_VolumeId :: VolumeId

text \<open>The errors the operations return; the constructors carry what the messages print.\<close>

datatype qm_error =
    ErrNoDiskMatch u64
  | ErrMkDir string oserr
  | ErrAllocatePath qm_error
  | ErrDiskNotFound string
  | ErrSetQuota string string prov_error
  | ErrVolumeNotFound string
  | ErrReduce string u64 u64
  | ErrNotEnough string
  | ErrProvider prov_error
  | ErrSetDisabled string bool oserr
  | ErrMountPointNotFound string
  | ErrDevice dev_error
  | ErrUnimplemented

section \<open>common.go\<close>

definition ProjectIdStart :: int where "ProjectIdStart = 1000000"

definition ProjectIdNum :: int where "ProjectIdNum = 5000"

definition XfsQuotaDirPrefix :: string where "XfsQuotaDirPrefix = ''k8squota''"

definition DiskQuotaEnableFattr :: string where
  "DiskQuotaEnableFattr = ''user.storage.hostpathpv.xfsquota/disable''"

definition getQuotaPathName :: "VolumeId \<Rightarrow> string" where
  "getQuotaPathName volumeId = XfsQuotaDirPrefix @ ''_'' @ volumeId"

text \<open>
  The name of a directory: the volume ID and the error. On a path without the prefix the variable
  \<open>err\<close> that is returned has never been assigned, so the error is nil there too. The outer \<open>None\<close> is
  the panic of the slice expression.
\<close>

definition parseQuotaPathInfoFromDirName :: "string \<Rightarrow> (VolumeId \<times> oserr option) option" where
  "parseQuotaPathInfoFromDirName filepath =
     (let filepath = path_Clean filepath
      in case Index filepath XfsQuotaDirPrefix of
           None \<Rightarrow> Some ('''', None)
         | Some pos \<Rightarrow>
             if pos \<le> 0 then Some ('''', None)
             else map_option (\<lambda>v. (v, None)) (go_slice filepath (pos + 9) (length filepath)))"

definition setQuotaDiskDisableState :: "'w os \<Rightarrow> string \<Rightarrow> bool \<Rightarrow> 'w \<Rightarrow> oserr option \<times> 'w" where
  "setQuotaDiskDisableState sys mountPoint disabled w =
     SetFilesystemXattr sys mountPoint DiskQuotaEnableFattr (FormatBool disabled) w"

definition getDiskQuotaDisableState :: "'w os \<Rightarrow> string \<Rightarrow> 'w \<Rightarrow> bool \<times> 'w" where
  "getDiskQuotaDisableState sys mountPoint w =
     (case GetFilesystemXattr sys w mountPoint DiskQuotaEnableFattr of
        Inl err \<Rightarrow>
          if err = ENODATA then (False, snd (setQuotaDiskDisableState sys mountPoint False w))
          else (False, w)
      | Inr attrString \<Rightarrow>
          (case ParseBool attrString of
             None \<Rightarrow> (False, w)
           | Some disable \<Rightarrow> (disable, w)))"

section \<open>quotamanager\_xfs.go\<close>

record XFSQuotaManager =
  quotaRootPath :: string
  diskQuotaInfos :: "(DeviceName \<times> DiskQuotaInfo) list"
  quotas :: "(VolumeId \<times> PathQuotaInfo) list"
  maxCacheTime :: int
  quotaProvider :: QuotaVolumeProvider

abbreviation Second :: int where
  "Second \<equiv> 1000000000"

text \<open>The loop of \<open>ListQuotaDiskInfos\<close> over the disks: the result and the refreshed disks.\<close>

fun list_disks_loop ::
    "'w os \<Rightarrow> 'w \<Rightarrow> int \<Rightarrow> (DeviceName \<times> DiskQuotaInfo) list
       \<Rightarrow> (prov_error + DiskQuotaInfo list) \<times> (DeviceName \<times> DiskQuotaInfo) list" where
  "list_disks_loop sys w mx [] = (Inr [], [])"
| "list_disks_loop sys w mx ((dev, disk) # rest) =
     (if os_Now sys w - disk_lastSync disk > mx then
        (case GetQuotaDiskInfo sys w (disk_MountPoint disk) of
           Inl err \<Rightarrow> (Inl err, (dev, disk) # rest)
         | Inr quota \<Rightarrow>
             (let disk = disk\<lparr>disk_Used := Used quota, disk_lastSync := os_Now sys w\<rparr>
              in case list_disks_loop sys w mx rest of
                   (r, rest) \<Rightarrow> (map_sum id ((#) disk) r, (dev, disk) # rest)))
      else
        (case list_disks_loop sys w mx rest of
           (r, rest) \<Rightarrow> (map_sum id ((#) disk) r, (dev, disk) # rest)))"

definition ListQuotaDiskInfos ::
    "'w os \<Rightarrow> 'w \<Rightarrow> XFSQuotaManager \<Rightarrow> (qm_error + DiskQuotaInfo list) \<times> XFSQuotaManager" where
  "ListQuotaDiskInfos sys w m =
     (case list_disks_loop sys w (maxCacheTime m) (diskQuotaInfos m) of
        (r, disks) \<Rightarrow> (map_sum ErrProvider id r, m\<lparr>diskQuotaInfos := disks\<rparr>))"

text \<open>The loop of \<open>ListPathQuotaInfos\<close>, which may fill the provider's cache on the way.\<close>

fun list_paths_loop ::
    "'w os \<Rightarrow> 'w \<Rightarrow> int \<Rightarrow> QuotaVolumeProvider \<Rightarrow> (VolumeId \<times> PathQuotaInfo) list
       \<Rightarrow> (prov_error + PathQuotaInfo list) \<times> (VolumeId \<times> PathQuotaInfo) list \<times> QuotaVolumeProvider" where
  "list_paths_loop sys w mx v [] = (Inr [], [], v)"
| "list_paths_loop sys w mx v ((vol, info) # rest) =
     (if os_Now sys w - pq_lastSync info > mx then
        (case GetProjectQuota sys w (pq_Path info) (pq_DeviceName info) v of
           (Inl err, v) \<Rightarrow> (Inl err, (vol, info) # rest, v)
         | (Inr quota, v) \<Rightarrow>
             (let info = info\<lparr>pq_Quota := (pq_Quota info)\<lparr>Used := Used quota\<rparr>, pq_lastSync := os_Now sys w\<rparr>
              in case list_paths_loop sys w mx v rest of
                   (r, rest, v) \<Rightarrow> (map_sum id ((#) info) r, (vol, info) # rest, v)))
      else
        (case list_paths_loop sys w mx v rest of
           (r, rest, v) \<Rightarrow> (map_sum id ((#) info) r, (vol, info) # rest, v)))"

definition ListPathQuotaInfos ::
    "'w os \<Rightarrow> 'w \<Rightarrow> XFSQuotaManager \<Rightarrow> (qm_error + PathQuotaInfo list) \<times> XFSQuotaManager" where
  "ListPathQuotaInfos sys w m =
     (case list_paths_loop sys w (maxCacheTime m) (quotaProvider m) (quotas m) of
        (r, qs, v) \<Rightarrow> (map_sum ErrProvider id r, m\<lparr>quotas := qs, quotaProvider := v\<rparr>))"

definition SetQuotaDiskDisabledState ::
    "'w os \<Rightarrow> string \<Rightarrow> bool \<Rightarrow> XFSQuotaManager \<Rightarrow> 'w \<Rightarrow> qm_error option \<times> XFSQuotaManager \<times> 'w" where
  "SetQuotaDiskDisabledState sys mountPoint disabled m w =
     (case find (\<lambda>(_, diskInfo). disk_MountPoint diskInfo = mountPoint) (diskQuotaInfos m) of
        None \<Rightarrow> (Some (ErrMountPointNotFound mountPoint), m, w)
      | Some (dev, diskInfo) \<Rightarrow>
          (case setQuotaDiskDisableState sys (disk_MountPoint diskInfo) disabled w of
             (Some err, w) \<Rightarrow> (Some (ErrSetDisabled mountPoint disabled err), m, w)
           | (None, w) \<Rightarrow>
               (None, m\<lparr>diskQuotaInfos := al_put dev (diskInfo\<lparr>disk_Disabled := disabled\<rparr>) (diskQuotaInfos m)\<rparr>, w)))"

text \<open>The disks with room: enabled and with enough allocatable space, as sort items.\<close>

definition available_disks :: "u64 \<Rightarrow> (DeviceName \<times> DiskQuotaInfo) list \<Rightarrow> DiskQuotaInfoSortItem list" where
  "available_disks hardQuota disks =
     map (\<lambda>(_, disk). \<lparr>item_DeviceName = disk_DeviceName disk, item_MountPoint = disk_MountPoint disk,
                       item_AvailableSize = disk_AllocatableSize disk\<rparr>)
       (filter (\<lambda>(_, disk). \<not> disk_Disabled disk \<and> \<not> disk_AllocatableSize disk < hardQuota) disks)"

definition allocateNewQuotaDir ::
    "'w os \<Rightarrow> VolumeId \<Rightarrow> u64 \<Rightarrow> XFSQuotaManager \<Rightarrow> 'w \<Rightarrow> (qm_error + DeviceName \<times> string) \<times> 'w" where
  "allocateNewQuotaDir sys volId hardQuota m w =
     (let dirName = getQuotaPathName volId;
          availableDisk = available_disks hardQuota (diskQuotaInfos m)
      in if availableDisk = [] then (Inl (ErrNoDiskMatch hardQuota), w)
         else
           let first = hd (go_sort DiskQuotaInfoList_Less availableDisk);
               quotaPath = path_Join [item_MountPoint first, dirName]
           in if \<not> IsPathExist sys w quotaPath then
                (case MkDir sys quotaPath w of
                   (Some err, w) \<Rightarrow> (Inl (ErrMkDir quotaPath err), w)
                 | (None, w) \<Rightarrow> (Inr (item_DeviceName first, quotaPath), w))
              else (Inr (item_DeviceName first, quotaPath), w))"

definition GetVolumeQuotaPath ::
    "'w os \<Rightarrow> VolumeId \<Rightarrow> int \<Rightarrow> XFSQuotaManager \<Rightarrow> 'w \<Rightarrow> (qm_error + string) \<times> XFSQuotaManager \<times> 'w" where
  "GetVolumeQuotaPath sys volId capacity m w =
     (case map_of (quotas m) volId of
        Some quotaInfo \<Rightarrow> (Inr (pq_Path quotaInfo), m, w)
      | None \<Rightarrow>
          (let quotaSize = u64_of_i64 capacity
           in case allocateNewQuotaDir sys volId quotaSize m w of
                (Inl err, w) \<Rightarrow> (Inl (ErrAllocatePath err), m, w)
              | (Inr (deviceName, quotaPath), w) \<Rightarrow>
                  (case map_of (diskQuotaInfos m) deviceName of
                     None \<Rightarrow> (Inl (ErrDiskNotFound deviceName), m, w)
                   | Some diskInfo \<Rightarrow>
                       (case SetProjectQuota sys quotaPath deviceName quotaSize quotaSize (quotaProvider m) w of
                          (Some err, v, w) \<Rightarrow>
                            (Inl (ErrSetQuota deviceName quotaPath err), m\<lparr>quotaProvider := v\<rparr>,
                             snd (DeleteFile sys quotaPath w))
                        | (None, v, w) \<Rightarrow>
                            (let info = \<lparr>pq_Path = quotaPath, pq_DeviceName = deviceName,
                                         pq_Quota = \<lparr>HardQuota = quotaSize, SoftQuota = quotaSize, Used = 0\<rparr>,
                                         pq_lastSync = os_Now sys w, pq_VolumeId = volId\<rparr>;
                                 newSize = disk_QuotaSize diskInfo + quotaSize;
                                 diskInfo = diskInfo\<lparr>disk_QuotaSize := newSize,
                                                     disk_AllocatableSize := disk_Capacity diskInfo - newSize\<rparr>
                             in (Inr quotaPath,
                                 m\<lparr>quotaProvider := v,
                                   quotas := al_put volId info (quotas m),
                                   diskQuotaInfos := al_put deviceName diskInfo (diskQuotaInfos m)\<rparr>, w))))))"

definition ExpandVolume ::
    "'w os \<Rightarrow> VolumeId \<Rightarrow> int \<Rightarrow> XFSQuotaManager \<Rightarrow> 'w \<Rightarrow> qm_error option \<times> XFSQuotaManager \<times> 'w" where
  "ExpandVolume sys volID capacity m w =
     (case map_of (quotas m) volID of
        None \<Rightarrow> (Some (ErrVolumeNotFound volID), m, w)
      | Some quotaInfo \<Rightarrow>
          (case map_of (diskQuotaInfos m) (pq_DeviceName quotaInfo) of
             None \<Rightarrow> (Some (ErrDiskNotFound (pq_DeviceName quotaInfo)), m, w)
           | Some diskInfo \<Rightarrow>
               (let oldSize = HardQuota (pq_Quota quotaInfo);
                    quotaSize = u64_of_i64 capacity
                in if oldSize > quotaSize then (Some (ErrReduce (pq_Path quotaInfo) oldSize quotaSize), m, w)
                   else if disk_AllocatableSize diskInfo < quotaSize - oldSize then
                     (Some (ErrNotEnough (pq_DeviceName quotaInfo)), m, w)
                   else
                     (case SetProjectQuota sys (pq_Path quotaInfo) (pq_DeviceName quotaInfo) quotaSize quotaSize
                             (quotaProvider m) w of
                        (Some err, v, w) \<Rightarrow>
                          (Some (ErrSetQuota (pq_DeviceName quotaInfo) (pq_Path quotaInfo) err),
                           m\<lparr>quotaProvider := v\<rparr>, w)
                      | (None, v, w) \<Rightarrow>
                          (let newSize = disk_QuotaSize diskInfo + quotaSize - oldSize;
                               diskInfo = diskInfo\<lparr>disk_QuotaSize := newSize,
                                                   disk_AllocatableSize := disk_Capacity diskInfo - newSize\<rparr>;
                               quotaInfo' = quotaInfo\<lparr>pq_Quota := (pq_Quota quotaInfo)\<lparr>SoftQuota := quotaSize,
                                                                                      HardQuota := quotaSize\<rparr>\<rparr>
                           in (None,
                               m\<lparr>quotaProvider := v,
                                 quotas := al_put volID quotaInfo' (quotas m),
                                 diskQuotaInfos := al_put (pq_DeviceName quotaInfo) diskInfo (diskQuotaInfos m)\<rparr>, w))))))"

definition ReleaseVolumePath ::
    "'w os \<Rightarrow> VolumeId \<Rightarrow> XFSQuotaManager \<Rightarrow> 'w \<Rightarrow> qm_error option \<times> XFSQuotaManager \<times> 'w" where
  "ReleaseVolumePath sys volId m w =
     (case map_of (quotas m) volId of
        None \<Rightarrow> (None, m, w)
      | Some quotaPath \<Rightarrow>
          (case map_of (diskQuotaInfos m) (pq_DeviceName quotaPath) of
             None \<Rightarrow> (Some (ErrDiskNotFound (pq_DeviceName quotaPath)), m, w)
           | Some diskInfo \<Rightarrow>
               (case DeleteProjectQuota sys (pq_Path quotaPath) (quotaProvider m) w of
                  (Some err, v, w) \<Rightarrow> (Some (ErrProvider err), m\<lparr>quotaProvider := v\<rparr>, w)
                | (None, v, w) \<Rightarrow>
                    (let newSize = disk_QuotaSize diskInfo - HardQuota (pq_Quota quotaPath);
                         diskInfo = diskInfo\<lparr>disk_QuotaSize := newSize,
                                             disk_AllocatableSize := disk_Capacity diskInfo - newSize\<rparr>
                     in (None,
                         m\<lparr>quotaProvider := v,
                           quotas := al_del volId (quotas m),
                           diskQuotaInfos := al_put (pq_DeviceName quotaPath) diskInfo (diskQuotaInfos m)\<rparr>, w)))))"

end
