(* ===== verification/Quota_Accounting.thy ===== *)
theory Quota_Accounting
  imports Quota_Manager
begin

text \<open>
  The books of the quota manager: per disk, the recorded quota is the sum of the quotas of the
  volumes on it and never exceeds the capacity, under every sequence of operations and whatever the
  system calls answer. From it follow where a volume is placed, when placing fails, that releasing
  undoes placing, and what expanding does and does not do.
\<close>

section \<open>The load of a disk\<close>

definition vol_load :: "DeviceName \<Rightarrow> PathQuotaInfo \<Rightarrow> nat" where
  "vol_load dev q = (if pq_DeviceName q = dev then unat (HardQuota (pq_Quota q)) else 0)"

definition disk_load :: "DeviceName \<Rightarrow> (VolumeId \<times> PathQuotaInfo) list \<Rightarrow> nat" where
  "disk_load dev qs = sum_list (map (\<lambda>e. vol_load dev (snd e)) qs)"

lemma disk_load_simps [simp]:
  "disk_load dev [] = 0"
  "disk_load dev (e # qs) = vol_load dev (snd e) + disk_load dev qs"
  "disk_load dev (qs @ qs') = disk_load dev qs + disk_load dev qs'"
  by (simp_all add: disk_load_def)

lemma disk_load_put_new:
  "map_of qs vol = None \<Longrightarrow> disk_load dev (al_put vol q qs) = disk_load dev qs + vol_load dev q"
  by (simp add: al_put_absent map_of_None_key)

lemma disk_load_put_old:
  "map_of qs vol = Some q0 \<Longrightarrow>
   disk_load dev (al_put vol q qs) + vol_load dev q0 = disk_load dev qs + vol_load dev q"
  by (induction vol q qs rule: al_put.induct) (auto split: if_splits)

lemma disk_load_del_absent: "vol \<notin> fst ` set qs \<Longrightarrow> disk_load dev (al_del vol qs) = disk_load dev qs"
  by (induction qs) (auto simp: al_del_def)

lemma disk_load_del:
  "al_wf qs \<Longrightarrow> map_of qs vol = Some q0 \<Longrightarrow>
   disk_load dev (al_del vol qs) + vol_load dev q0 = disk_load dev qs"
proof (induction qs)
  case (Cons e qs)
  then show ?case
    using disk_load_del_absent [of vol qs dev]
    by (cases "fst e = vol") (auto simp: al_wf_def al_del_def)
qed simp

lemma vol_load_le: "map_of qs vol = Some q0 \<Longrightarrow> vol_load dev q0 \<le> disk_load dev qs"
  by (induction qs) (auto split: if_splits)

section \<open>The invariant\<close>

text \<open>One disk: what is promised is the load, fits the capacity, and the rest is allocatable.\<close>

definition disk_ok :: "DeviceName \<Rightarrow> DiskQuotaInfo \<Rightarrow> nat \<Rightarrow> bool" where
  "disk_ok dev d load \<longleftrightarrow> disk_DeviceName d = dev \<and> unat (disk_QuotaSize d) = load \<and>
     load \<le> unat (disk_Capacity d) \<and> disk_AllocatableSize d = disk_Capacity d - disk_QuotaSize d"

definition vols_ok :: "(DeviceName \<times> DiskQuotaInfo) list \<Rightarrow> (VolumeId \<times> PathQuotaInfo) list \<Rightarrow> bool" where
  "vols_ok disks qs \<longleftrightarrow> al_wf qs \<and>
     (\<forall>e\<in>set qs. pq_VolumeId (snd e) = fst e \<and> pq_DeviceName (snd e) \<in> fst ` set disks)"

definition books :: "XFSQuotaManager \<Rightarrow> bool" where
  "books m \<longleftrightarrow> al_wf (diskQuotaInfos m) \<and> vols_ok (diskQuotaInfos m) (quotas m) \<and>
     (\<forall>e\<in>set (diskQuotaInfos m). disk_ok (fst e) (snd e) (disk_load (fst e) (quotas m)))"

definition qm_inv :: "XFSQuotaManager \<Rightarrow> bool" where
  "qm_inv m \<longleftrightarrow> books m \<and> prov_inv (quotaProvider m)"

lemma books_disk:
  "books m \<Longrightarrow> map_of (diskQuotaInfos m) dev = Some d \<Longrightarrow> disk_ok dev d (disk_load dev (quotas m))"
  unfolding books_def by (metis fst_conv map_of_in_set snd_conv)

lemma vols_ok_put:
  "vols_ok disks qs \<Longrightarrow> pq_VolumeId q = vol \<Longrightarrow> pq_DeviceName q \<in> fst ` set disks \<Longrightarrow>
   vols_ok disks (al_put vol q qs)"
  by (auto simp: vols_ok_def set_al_put)

lemma vols_ok_del: "vols_ok disks qs \<Longrightarrow> vols_ok disks (al_del vol qs)"
  by (auto simp: vols_ok_def set_al_del)

lemma vols_ok_keys: "fst ` set disks \<subseteq> fst ` set disks' \<Longrightarrow> vols_ok disks qs \<Longrightarrow> vols_ok disks' qs"
  by (auto simp: vols_ok_def)

text \<open>Setting the recorded quota of a disk to its new load keeps the books.\<close>

definition rebook :: "u64 \<Rightarrow> DiskQuotaInfo \<Rightarrow> DiskQuotaInfo" where
  "rebook newSize d = d\<lparr>disk_QuotaSize := newSize, disk_AllocatableSize := disk_Capacity d - newSize\<rparr>"

lemma books_rebook:
  assumes "books m" "map_of (diskQuotaInfos m) dev = Some d" "vols_ok (diskQuotaInfos m) qs"
    and others: "\<And>dev'. dev' \<noteq> dev \<Longrightarrow> disk_load dev' qs = disk_load dev' (quotas m)"
    and new: "unat newSize = disk_load dev qs" "disk_load dev qs \<le> unat (disk_Capacity d)"
  shows "books (m\<lparr>quotaProvider := v, quotas := qs,
                  diskQuotaInfos := al_put dev (rebook newSize d) (diskQuotaInfos m)\<rparr>)"
proof -
  let ?disks = "al_put dev (rebook newSize d) (diskQuotaInfos m)"
  have wf: "al_wf (diskQuotaInfos m)" using assms(1) by (simp add: books_def)
  have "disk_ok (fst e) (snd e) (disk_load (fst e) qs)" if "e \<in> set ?disks" for e
  proof (cases "fst e = dev")
    case True
    then have "e = (dev, rebook newSize d)" using that by (auto simp: set_al_put [OF wf])
    then show ?thesis
      using books_disk [OF assms(1,2)] new by (simp add: disk_ok_def rebook_def)
  next
    case False
    then have "e \<in> set (diskQuotaInfos m)" using that by (auto simp: set_al_put [OF wf])
    then show ?thesis using assms(1) others [OF False] by (simp add: books_def)
  qed
  moreover have "vols_ok ?disks qs"
    using assms(3) by (rule vols_ok_keys [rotated]) auto
  ultimately show ?thesis using wf by (simp add: books_def)
qed

lemma disk_ok_alloc: "disk_ok dev d l \<Longrightarrow> unat (disk_AllocatableSize d) = unat (disk_Capacity d) - l"
  unfolding disk_ok_def by (metis unat_sub word_le_nat_alt)

section \<open>Every operation keeps the books\<close>

interpretation disk_sort: sort_Interface DiskQuotaInfoList_Less
  using sort_Interface_key_desc [of item_AvailableSize] unfolding DiskQuotaInfoList_Less_def [abs_def] .

text \<open>The disk a placement must take: an enabled one with room and the most allocatable space.\<close>

definition best_disk :: "u64 \<Rightarrow> (DeviceName \<times> DiskQuotaInfo) list \<Rightarrow> DiskQuotaInfo \<Rightarrow> bool" where
  "best_disk need disks d \<longleftrightarrow> d \<in> snd ` set disks \<and> \<not> disk_Disabled d \<and> need \<le> disk_AllocatableSize d \<and>
     (\<forall>d'\<in>snd ` set disks. \<not> disk_Disabled d' \<longrightarrow> disk_AllocatableSize d' \<le> disk_AllocatableSize d)"

lemma available_empty_iff:
  "available_disks h disks = [] \<longleftrightarrow>
     (\<forall>d\<in>snd ` set disks. disk_Disabled d \<or> disk_AllocatableSize d < h)"
  by (auto simp: available_disks_def filter_empty_conv)

lemma available_hd:
  assumes "available_disks h disks \<noteq> []"
  shows "\<exists>d. best_disk h disks d \<and>
     hd (go_sort DiskQuotaInfoList_Less (available_disks h disks)) =
       \<lparr>item_DeviceName = disk_DeviceName d, item_MountPoint = disk_MountPoint d,
        item_AvailableSize = disk_AllocatableSize d\<rparr>"
proof -
  let ?first = "hd (go_sort DiskQuotaInfoList_Less (available_disks h disks))"
  note hd = disk_sort.go_sort_hd [OF assms]
  then obtain d where d: "d \<in> snd ` set disks" "\<not> disk_Disabled d" "h \<le> disk_AllocatableSize d"
    and f: "?first = \<lparr>item_DeviceName = disk_DeviceName d, item_MountPoint = disk_MountPoint d,
        item_AvailableSize = disk_AllocatableSize d\<rparr>"
    by (force simp: available_disks_def)
  have "disk_AllocatableSize d' \<le> disk_AllocatableSize d"
    if d': "d' \<in> snd ` set disks" "\<not> disk_Disabled d'" for d'
  proof (cases "h \<le> disk_AllocatableSize d'")
    case True
    then have "\<lparr>item_DeviceName = disk_DeviceName d', item_MountPoint = disk_MountPoint d',
        item_AvailableSize = disk_AllocatableSize d'\<rparr> \<in> set (available_disks h disks)"
      using d' by (force simp: available_disks_def)
    then show ?thesis using hd f by (auto simp: DiskQuotaInfoList_Less_def)
  qed (use d(3) in auto)
  then show ?thesis using d f unfolding best_disk_def by blast
qed

lemma allocate_Inr:
  assumes "allocateNewQuotaDir sys vol h m w = (Inr (dev, p), w')"
  shows "\<exists>d. best_disk h (diskQuotaInfos m) d \<and> disk_DeviceName d = dev \<and>
           p = path_Join [disk_MountPoint d, getQuotaPathName vol]"
proof -
  have ne: "available_disks h (diskQuotaInfos m) \<noteq> []"
    using assms by (auto simp: allocateNewQuotaDir_def split: if_splits)
  from available_hd [OF ne] obtain d where d: "best_disk h (diskQuotaInfos m) d"
    "hd (go_sort DiskQuotaInfoList_Less (available_disks h (diskQuotaInfos m))) =
       \<lparr>item_DeviceName = disk_DeviceName d, item_MountPoint = disk_MountPoint d,
        item_AvailableSize = disk_AllocatableSize d\<rparr>" by blast
  show ?thesis
    using assms ne d by (auto simp: allocateNewQuotaDir_def Let_def split: if_splits prod.splits option.splits)
qed

text \<open>What a successful placement did.\<close>

definition new_info :: "string \<Rightarrow> DeviceName \<Rightarrow> u64 \<Rightarrow> int \<Rightarrow> VolumeId \<Rightarrow> PathQuotaInfo" where
  "new_info p dev amount now vol = \<lparr>pq_Path = p, pq_DeviceName = dev,
     pq_Quota = \<lparr>HardQuota = amount, SoftQuota = amount, Used = 0\<rparr>, pq_lastSync = now, pq_VolumeId = vol\<rparr>"

lemma Get_new:
  assumes "GetVolumeQuotaPath sys vol capacity m w = (Inr p, m', w')" "map_of (quotas m) vol = None"
  obtains dev d v w1 where
    "allocateNewQuotaDir sys vol (u64_of_i64 capacity) m w = (Inr (dev, p), w1)"
    "map_of (diskQuotaInfos m) dev = Some d"
    "SetProjectQuota sys p dev (u64_of_i64 capacity) (u64_of_i64 capacity) (quotaProvider m) w1 = (None, v, w')"
    "m' = m\<lparr>quotaProvider := v,
            quotas := al_put vol (new_info p dev (u64_of_i64 capacity) (os_Now sys w') vol) (quotas m),
            diskQuotaInfos := al_put dev (rebook (disk_QuotaSize d + u64_of_i64 capacity) d) (diskQuotaInfos m)\<rparr>"
  using assms
  by (fastforce simp: GetVolumeQuotaPath_def Let_def new_info_def rebook_def
      split: option.splits sum.splits prod.splits)

lemma Get_old:
  "map_of (quotas m) vol = Some q \<Longrightarrow> GetVolumeQuotaPath sys vol capacity m w = (Inr (pq_Path q), m, w)"
  by (simp add: GetVolumeQuotaPath_def)

lemma Get_error:
  assumes "GetVolumeQuotaPath sys vol capacity m w = (Inl e, m', w')"
  shows "m' = m\<lparr>quotaProvider := quotaProvider m'\<rparr> \<and> (prov_inv (quotaProvider m) \<longrightarrow> prov_inv (quotaProvider m'))"
  using assms
  by (auto dest: prov_inv_D simp: GetVolumeQuotaPath_def Let_def split: option.splits sum.splits prod.splits)

text \<open>What a successful expansion and a successful release did.\<close>

lemma Expand_ok:
  assumes "ExpandVolume sys vol capacity m w = (None, m', w')"
  obtains q d v where
    "map_of (quotas m) vol = Some q" "map_of (diskQuotaInfos m) (pq_DeviceName q) = Some d"
    "HardQuota (pq_Quota q) \<le> u64_of_i64 capacity"
    "u64_of_i64 capacity - HardQuota (pq_Quota q) \<le> disk_AllocatableSize d"
    "SetProjectQuota sys (pq_Path q) (pq_DeviceName q) (u64_of_i64 capacity) (u64_of_i64 capacity)
       (quotaProvider m) w = (None, v, w')"
    "m' = m\<lparr>quotaProvider := v,
            quotas := al_put vol (q\<lparr>pq_Quota := (pq_Quota q)\<lparr>SoftQuota := u64_of_i64 capacity,
              HardQuota := u64_of_i64 capacity\<rparr>\<rparr>) (quotas m),
            diskQuotaInfos := al_put (pq_DeviceName q)
              (rebook (disk_QuotaSize d + u64_of_i64 capacity - HardQuota (pq_Quota q)) d) (diskQuotaInfos m)\<rparr>"
  using assms
  by (fastforce simp: ExpandVolume_def Let_def rebook_def not_less split: option.splits prod.splits if_splits)

lemma Expand_error:
  assumes "ExpandVolume sys vol capacity m w = (Some e, m', w')"
  shows "m' = m\<lparr>quotaProvider := quotaProvider m'\<rparr> \<and> (prov_inv (quotaProvider m) \<longrightarrow> prov_inv (quotaProvider m'))"
  using assms
  by (auto dest: prov_inv_D simp: ExpandVolume_def Let_def split: option.splits prod.splits if_splits)

lemma Release_ok:
  assumes "ReleaseVolumePath sys vol m w = (None, m', w')" "map_of (quotas m) vol = Some q"
  obtains d v where
    "map_of (diskQuotaInfos m) (pq_DeviceName q) = Some d"
    "DeleteProjectQuota sys (pq_Path q) (quotaProvider m) w = (None, v, w')"
    "m' = m\<lparr>quotaProvider := v, quotas := al_del vol (quotas m),
            diskQuotaInfos := al_put (pq_DeviceName q)
              (rebook (disk_QuotaSize d - HardQuota (pq_Quota q)) d) (diskQuotaInfos m)\<rparr>"
  using assms
  by (fastforce simp: ReleaseVolumePath_def Let_def rebook_def split: option.splits prod.splits)

lemma Release_error:
  assumes "ReleaseVolumePath sys vol m w = (Some e, m', w')"
  shows "m' = m\<lparr>quotaProvider := quotaProvider m'\<rparr> \<and> (prov_inv (quotaProvider m) \<longrightarrow> prov_inv (quotaProvider m'))"
  using assms
  by (auto dest: prov_inv_D simp: ReleaseVolumePath_def Let_def split: option.splits prod.splits)

lemma books_provider [simp]: "books (m\<lparr>quotaProvider := v\<rparr>) = books m"
  by (simp add: books_def)

lemma qm_inv_error:
  "m' = m\<lparr>quotaProvider := quotaProvider m'\<rparr> \<and> (prov_inv (quotaProvider m) \<longrightarrow> prov_inv (quotaProvider m')) \<Longrightarrow>
   qm_inv m \<Longrightarrow> qm_inv m'"
  unfolding qm_inv_def by (metis books_provider)

lemma vol_disk_known:
  "books m \<Longrightarrow> map_of (quotas m) vol = Some q \<Longrightarrow>
   pq_VolumeId q = vol \<and> pq_DeviceName q \<in> fst ` set (diskQuotaInfos m)"
  unfolding books_def vols_ok_def by (metis fst_conv map_of_in_set snd_conv)

text \<open>Under the books, the map entry of the chosen device is the chosen disk.\<close>

lemma best_disk_entry:
  assumes "books m" "best_disk h (diskQuotaInfos m) d"
  shows "map_of (diskQuotaInfos m) (disk_DeviceName d) = Some d"
proof -
  obtain k where k: "(k, d) \<in> set (diskQuotaInfos m)" using assms(2) by (auto simp: best_disk_def)
  then have "disk_DeviceName d = k" using assms(1) by (auto simp: books_def disk_ok_def)
  then show ?thesis using k assms(1) by (simp add: books_def al_wf_map_of_iff)
qed

lemma Get_new_disk:
  assumes "books m" "GetVolumeQuotaPath sys vol capacity m w = (Inr p, m', w')" "map_of (quotas m) vol = None"
  obtains d v w1 where
    "best_disk (u64_of_i64 capacity) (diskQuotaInfos m) d"
    "map_of (diskQuotaInfos m) (disk_DeviceName d) = Some d"
    "p = path_Join [disk_MountPoint d, getQuotaPathName vol]"
    "SetProjectQuota sys p (disk_DeviceName d) (u64_of_i64 capacity) (u64_of_i64 capacity)
       (quotaProvider m) w1 = (None, v, w')"
    "m' = m\<lparr>quotaProvider := v,
            quotas := al_put vol (new_info p (disk_DeviceName d) (u64_of_i64 capacity) (os_Now sys w') vol) (quotas m),
            diskQuotaInfos := al_put (disk_DeviceName d)
              (rebook (disk_QuotaSize d + u64_of_i64 capacity) d) (diskQuotaInfos m)\<rparr>"
proof (rule Get_new [OF assms(2,3)])
  fix dev d v w1
  assume a: "allocateNewQuotaDir sys vol (u64_of_i64 capacity) m w = (Inr (dev, p), w1)"
    and d: "map_of (diskQuotaInfos m) dev = Some d"
  from allocate_Inr [OF a] obtain d' where d': "best_disk (u64_of_i64 capacity) (diskQuotaInfos m) d'"
    "disk_DeviceName d' = dev" "p = path_Join [disk_MountPoint d', getQuotaPathName vol]" by blast
  then have "d' = d" using best_disk_entry [OF assms(1) d'(1)] d by simp
  then show "SetProjectQuota sys p dev (u64_of_i64 capacity) (u64_of_i64 capacity) (quotaProvider m) w1 = (None, v, w') \<Longrightarrow>
    m' = m\<lparr>quotaProvider := v, quotas := al_put vol (new_info p dev (u64_of_i64 capacity) (os_Now sys w') vol) (quotas m),
      diskQuotaInfos := al_put dev (rebook (disk_QuotaSize d + u64_of_i64 capacity) d) (diskQuotaInfos m)\<rparr> \<Longrightarrow> thesis"
    using d d' that [of d w1 v] by simp
qed

lemma vol_load_new_info [simp]:
  "vol_load dev' (new_info p dev x t vol) = (if dev = dev' then unat x else 0)"
  by (simp add: vol_load_def new_info_def)

lemma Get_inv:
  assumes "qm_inv m" "GetVolumeQuotaPath sys vol capacity m w = (r, m', w')"
  shows "qm_inv m'"
proof (cases r)
  case (Inl e)
  show ?thesis by (rule qm_inv_error [OF Get_error assms(1)]) (use assms(2) Inl in simp)
next
  case (Inr p)
  note get = assms(2) [unfolded Inr]
  have b: "books m" "prov_inv (quotaProvider m)" using assms(1) by (simp_all add: qm_inv_def)
  show ?thesis
  proof (cases "map_of (quotas m) vol")
    case (Some q)
    from Get_old [OF Some, of sys capacity w] get have "m' = m" by simp
    then show ?thesis using assms(1) by simp
  next
    case None
    obtain d v w1 where
      d: "best_disk (u64_of_i64 capacity) (diskQuotaInfos m) d"
         "map_of (diskQuotaInfos m) (disk_DeviceName d) = Some d"
      and set: "SetProjectQuota sys p (disk_DeviceName d) (u64_of_i64 capacity) (u64_of_i64 capacity)
          (quotaProvider m) w1 = (None, v, w')"
      and m': "m' = m\<lparr>quotaProvider := v,
            quotas := al_put vol (new_info p (disk_DeviceName d) (u64_of_i64 capacity) (os_Now sys w') vol) (quotas m),
            diskQuotaInfos := al_put (disk_DeviceName d)
              (rebook (disk_QuotaSize d + u64_of_i64 capacity) d) (diskQuotaInfos m)\<rparr>"
      by (rule Get_new_disk [OF b(1) get None]) (rule that)
    let ?dev = "disk_DeviceName d" and ?s = "u64_of_i64 capacity"
    have row: "disk_ok ?dev d (disk_load ?dev (quotas m))" using books_disk [OF b(1) d(2)] .
    then have fits: "disk_load ?dev (quotas m) + unat ?s \<le> unat (disk_Capacity d)"
      using d(1) disk_ok_alloc [OF row] by (auto simp: best_disk_def word_le_nat_alt disk_ok_def)
    then have "unat (disk_QuotaSize d + ?s) = disk_load ?dev (quotas m) + unat ?s"
      using row unsigned_less [of "disk_Capacity d", where 'a = nat]
      by (subst unat_add_lem [THEN iffD1]) (auto simp: disk_ok_def)
    moreover have "vols_ok (diskQuotaInfos m) (al_put vol (new_info p ?dev ?s (os_Now sys w') vol) (quotas m))"
      using b(1) map_of_in_set [OF d(2)] by (intro vols_ok_put) (force simp: books_def new_info_def)+
    ultimately have "books m'"
      unfolding m' using fits None by (intro books_rebook b(1) d(2)) (simp_all add: disk_load_put_new)
    then show ?thesis using prov_inv_SetD [OF set b(2)] by (simp add: qm_inv_def m')
  qed
qed

lemma Expand_inv:
  assumes "qm_inv m" "ExpandVolume sys vol capacity m w = (r, m', w')"
  shows "qm_inv m'"
proof (cases r)
  case (Some e)
  show ?thesis by (rule qm_inv_error [OF Expand_error assms(1)]) (use assms(2) Some in simp)
next
  case None
  have b: "books m" "prov_inv (quotaProvider m)" using assms(1) by (simp_all add: qm_inv_def)
  obtain q d v where
    q: "map_of (quotas m) vol = Some q" "map_of (diskQuotaInfos m) (pq_DeviceName q) = Some d"
    and le: "HardQuota (pq_Quota q) \<le> u64_of_i64 capacity"
      "u64_of_i64 capacity - HardQuota (pq_Quota q) \<le> disk_AllocatableSize d"
    and set: "SetProjectQuota sys (pq_Path q) (pq_DeviceName q) (u64_of_i64 capacity) (u64_of_i64 capacity)
       (quotaProvider m) w = (None, v, w')"
    and m': "m' = m\<lparr>quotaProvider := v,
            quotas := al_put vol (q\<lparr>pq_Quota := (pq_Quota q)\<lparr>SoftQuota := u64_of_i64 capacity,
              HardQuota := u64_of_i64 capacity\<rparr>\<rparr>) (quotas m),
            diskQuotaInfos := al_put (pq_DeviceName q)
              (rebook (disk_QuotaSize d + u64_of_i64 capacity - HardQuota (pq_Quota q)) d) (diskQuotaInfos m)\<rparr>"
    by (rule Expand_ok [OF assms(2) [unfolded None]]) (rule that)
  let ?dev = "pq_DeviceName q" and ?s = "u64_of_i64 capacity" and ?o = "HardQuota (pq_Quota q)"
  let ?q = "q\<lparr>pq_Quota := (pq_Quota q)\<lparr>SoftQuota := ?s, HardQuota := ?s\<rparr>\<rparr>"
  have row: "disk_ok ?dev d (disk_load ?dev (quotas m))" using books_disk [OF b(1) q(2)] .
  have l: "disk_load dev' (al_put vol ?q (quotas m)) + vol_load dev' q = disk_load dev' (quotas m) + vol_load dev' ?q" for dev'
    by (rule disk_load_put_old [OF q(1)])
  have o: "unat ?o \<le> disk_load ?dev (quotas m)" "unat ?o \<le> unat ?s"
    using vol_load_le [OF q(1), of ?dev] le(1) by (simp_all add: vol_load_def word_le_nat_alt)
  have new: "disk_load ?dev (al_put vol ?q (quotas m)) = disk_load ?dev (quotas m) + (unat ?s - unat ?o)"
    using l [of ?dev] o by (simp add: vol_load_def)
  have fits: "disk_load ?dev (quotas m) + (unat ?s - unat ?o) \<le> unat (disk_Capacity d)"
    using le disk_ok_alloc [OF row] row by (auto simp: word_le_nat_alt unat_sub disk_ok_def)
  have "disk_QuotaSize d + ?s - ?o = disk_QuotaSize d + (?s - ?o)" by simp
  also have "unat \<dots> = disk_load ?dev (quotas m) + (unat ?s - unat ?o)"
    using row fits le(1) unsigned_less [of "disk_Capacity d", where 'a = nat]
    by (subst unat_add_lem [THEN iffD1]) (auto simp: disk_ok_def unat_sub)
  finally have "unat (disk_QuotaSize d + ?s - ?o) = disk_load ?dev (al_put vol ?q (quotas m))" using new by simp
  moreover have "vols_ok (diskQuotaInfos m) (al_put vol ?q (quotas m))"
    using b(1) vol_disk_known [OF b(1) q(1)] by (intro vols_ok_put) (auto simp: books_def)
  moreover have "disk_load dev' (al_put vol ?q (quotas m)) = disk_load dev' (quotas m)" if "dev' \<noteq> ?dev" for dev'
    using l [of dev'] that by (simp add: vol_load_def)
  ultimately have "books m'"
    unfolding m' using fits by (intro books_rebook b(1) q(2)) (simp_all add: new)
  then show ?thesis using prov_inv_SetD [OF set b(2)] by (simp add: qm_inv_def m')
qed

lemma Release_inv:
  assumes "qm_inv m" "ReleaseVolumePath sys vol m w = (r, m', w')"
  shows "qm_inv m'"
proof (cases r)
  case (Some e)
  show ?thesis by (rule qm_inv_error [OF Release_error assms(1)]) (use assms(2) Some in simp)
next
  case None
  have b: "books m" "prov_inv (quotaProvider m)" using assms(1) by (simp_all add: qm_inv_def)
  show ?thesis
  proof (cases "map_of (quotas m) vol")
    case None
    then show ?thesis using assms by (simp add: ReleaseVolumePath_def)
  next
    case (Some q)
    obtain d v where
      d: "map_of (diskQuotaInfos m) (pq_DeviceName q) = Some d"
      and del: "DeleteProjectQuota sys (pq_Path q) (quotaProvider m) w = (None, v, w')"
      and m': "m' = m\<lparr>quotaProvider := v, quotas := al_del vol (quotas m),
            diskQuotaInfos := al_put (pq_DeviceName q)
              (rebook (disk_QuotaSize d - HardQuota (pq_Quota q)) d) (diskQuotaInfos m)\<rparr>"
      by (rule Release_ok [OF assms(2) [unfolded None] Some]) (rule that)
    let ?dev = "pq_DeviceName q" and ?o = "HardQuota (pq_Quota q)"
    have row: "disk_ok ?dev d (disk_load ?dev (quotas m))" using books_disk [OF b(1) d] .
    have l: "disk_load dev' (al_del vol (quotas m)) + vol_load dev' q = disk_load dev' (quotas m)" for dev'
      using b(1) disk_load_del [OF _ Some] by (simp add: books_def vols_ok_def)
    have "unat ?o \<le> unat (disk_QuotaSize d)"
      using vol_load_le [OF Some, of ?dev] row by (simp add: vol_load_def disk_ok_def)
    then have "unat (disk_QuotaSize d - ?o) = disk_load ?dev (al_del vol (quotas m))"
      using l [of ?dev] row by (simp add: unat_sub word_le_nat_alt disk_ok_def vol_load_def)
    moreover have "disk_load ?dev (al_del vol (quotas m)) \<le> unat (disk_Capacity d)"
      using l [of ?dev] row by (simp add: disk_ok_def)
    moreover have "disk_load dev' (al_del vol (quotas m)) = disk_load dev' (quotas m)" if "dev' \<noteq> ?dev" for dev'
      using l [of dev'] that by (simp add: vol_load_def)
    moreover have "vols_ok (diskQuotaInfos m) (al_del vol (quotas m))"
      using b(1) by (intro vols_ok_del) (simp add: books_def)
    ultimately have "books m'" unfolding m' by (intro books_rebook b(1) d) simp_all
    then show ?thesis using prov_inv_DeleteD [OF del b(2)] by (simp add: qm_inv_def m')
  qed
qed

text \<open>The listings refresh only the usage and the time of the last refresh.\<close>

definition same_disk :: "DeviceName \<times> DiskQuotaInfo \<Rightarrow> DeviceName \<times> DiskQuotaInfo \<Rightarrow> bool" where
  "same_disk e e' \<longleftrightarrow> fst e' = fst e \<and>
     (\<exists>u s. snd e' = (snd e)\<lparr>disk_Used := u, disk_lastSync := s\<rparr>)"

definition same_vol :: "VolumeId \<times> PathQuotaInfo \<Rightarrow> VolumeId \<times> PathQuotaInfo \<Rightarrow> bool" where
  "same_vol e e' \<longleftrightarrow> fst e' = fst e \<and>
     (\<exists>u s. snd e' = (snd e)\<lparr>pq_Quota := (pq_Quota (snd e))\<lparr>Used := u\<rparr>, pq_lastSync := s\<rparr>)"

lemma same_disk_refl [simp]: "same_disk e e"
  unfolding same_disk_def by (metis DiskQuotaInfo.surjective DiskQuotaInfo.update_convs(4,8))

lemma same_vol_refl [simp]: "same_vol e e"
proof -
  have "snd e = (snd e)\<lparr>pq_Quota := (pq_Quota (snd e))\<lparr>Used := Used (pq_Quota (snd e))\<rparr>,
      pq_lastSync := pq_lastSync (snd e)\<rparr>" by simp
  then show ?thesis unfolding same_vol_def by blast
qed

lemma list_all2_refl: "(\<And>x. P x x) \<Longrightarrow> list_all2 P xs xs"
  by (simp add: list_all2_conv_all_nth)

lemma list_disks_same: "list_all2 same_disk ds (snd (list_disks_loop sys w mx ds))"
proof (induction ds)
  case (Cons e ds)
  obtain dev disk where e: "e = (dev, disk)" by (cases e)
  have "same_disk e (dev, disk\<lparr>disk_Used := u, disk_lastSync := s\<rparr>)" for u s
    by (auto simp: e same_disk_def)
  then show ?case
    using Cons by (auto simp: e list_all2_refl Let_def split: sum.split prod.split)
qed simp

lemma list_paths_same:
  "list_paths_loop sys w mx v qs = (r, qs', v') \<Longrightarrow>
   list_all2 same_vol qs qs' \<and> (prov_inv v \<longrightarrow> prov_inv v')"
proof (induction qs arbitrary: v r qs' v')
  case (Cons e qs)
  obtain vol info where e: "e = (vol, info)" by (cases e)
  have s: "same_vol e (vol, info\<lparr>pq_Quota := (pq_Quota info)\<lparr>Used := u\<rparr>, pq_lastSync := t\<rparr>)" for u t
    by (auto simp: e same_vol_def)
  show ?case
  proof (cases "os_Now sys w - pq_lastSync info > mx")
    case True
    obtain res v1 where g: "GetProjectQuota sys w (pq_Path info) (pq_DeviceName info) v = (res, v1)"
      by fastforce
    show ?thesis
      using Cons.IH [of v1] Cons.prems True g s prov_inv_GetD [OF g]
      by (cases res) (auto simp: e list_all2_refl Let_def split: prod.splits)
  next
    case False
    then show ?thesis using Cons.IH [of v] Cons.prems by (auto simp: e split: prod.splits)
  qed
qed simp

lemma same_disk_keys: "list_all2 same_disk ds ds' \<Longrightarrow> map fst ds' = map fst ds"
  by (induction ds ds' rule: list_all2_induct) (auto simp: same_disk_def)

lemma same_disk_set:
  "list_all2 same_disk ds ds' \<Longrightarrow> e' \<in> set ds' \<Longrightarrow> \<exists>e\<in>set ds. same_disk e e'"
  by (induction ds ds' rule: list_all2_induct) auto

lemma same_disk_ok: "same_disk e e' \<Longrightarrow> disk_ok dev (snd e') l = disk_ok dev (snd e) l"
  by (auto simp: same_disk_def disk_ok_def)

lemma ListDisks_inv:
  assumes "qm_inv m" "ListQuotaDiskInfos sys w m = (r, m')"
  shows "qm_inv m'"
proof -
  obtain ds' where m': "m' = m\<lparr>diskQuotaInfos := ds'\<rparr>" and s: "list_all2 same_disk (diskQuotaInfos m) ds'"
    using assms(2) list_disks_same [of "diskQuotaInfos m" sys w "maxCacheTime m"]
    by (auto simp: ListQuotaDiskInfos_def split: prod.splits)
  have keys: "map fst ds' = map fst (diskQuotaInfos m)" using same_disk_keys [OF s] .
  then have k2: "fst ` set ds' = fst ` set (diskQuotaInfos m)" by (metis set_map)
  have b: "books m" using assms(1) by (simp add: qm_inv_def)
  have "disk_ok (fst e') (snd e') (disk_load (fst e') (quotas m))" if e': "e' \<in> set ds'" for e'
  proof -
    from same_disk_set [OF s e'] obtain e where e: "e \<in> set (diskQuotaInfos m)" "same_disk e e'" by blast
    then show ?thesis using b same_disk_ok [OF e(2)] by (simp add: books_def same_disk_def)
  qed
  then have "books m'" using b keys k2 by (simp add: m' books_def al_wf_def vols_ok_def)
  then show ?thesis using assms(1) by (simp add: qm_inv_def m')
qed

lemma same_vol_keys: "list_all2 same_vol qs qs' \<Longrightarrow> map fst qs' = map fst qs"
  by (induction qs qs' rule: list_all2_induct) (auto simp: same_vol_def)

lemma same_vol_fields:
  "same_vol e e' \<Longrightarrow> pq_VolumeId (snd e') = pq_VolumeId (snd e) \<and> pq_DeviceName (snd e') = pq_DeviceName (snd e) \<and>
     pq_Path (snd e') = pq_Path (snd e) \<and> HardQuota (pq_Quota (snd e')) = HardQuota (pq_Quota (snd e))"
  by (auto simp: same_vol_def)

lemma same_vol_load: "list_all2 same_vol qs qs' \<Longrightarrow> disk_load dev qs' = disk_load dev qs"
proof (induction qs qs' rule: list_all2_induct)
  case (Cons x xs y ys)
  then show ?case using same_vol_fields [OF Cons(1)] by (simp add: vol_load_def)
qed simp

lemma same_vol_set:
  "list_all2 same_vol qs qs' \<Longrightarrow> e' \<in> set qs' \<Longrightarrow> \<exists>e\<in>set qs. same_vol e e'"
  by (induction qs qs' rule: list_all2_induct) auto

lemma ListPaths_inv:
  assumes "qm_inv m" "ListPathQuotaInfos sys w m = (r, m')"
  shows "qm_inv m'"
proof -
  obtain qs' v' where m': "m' = m\<lparr>quotas := qs', quotaProvider := v'\<rparr>"
    and s: "list_all2 same_vol (quotas m) qs'" "prov_inv (quotaProvider m) \<longrightarrow> prov_inv v'"
    using assms(2) by (auto simp: ListPathQuotaInfos_def dest: list_paths_same split: prod.splits)
  have b: "books m" "prov_inv (quotaProvider m)" using assms(1) by (simp_all add: qm_inv_def)
  have "pq_VolumeId (snd e') = fst e' \<and> pq_DeviceName (snd e') \<in> fst ` set (diskQuotaInfos m)"
    if e': "e' \<in> set qs'" for e'
  proof -
    from same_vol_set [OF s(1) e'] obtain e where e: "e \<in> set (quotas m)" "same_vol e e'" by blast
    then show ?thesis
      using b(1) same_vol_fields [OF e(2)] by (auto simp: books_def vols_ok_def same_vol_def)
  qed
  then have "books m'"
    using b(1) same_vol_keys [OF s(1)] by (simp add: m' books_def vols_ok_def al_wf_def same_vol_load [OF s(1)])
  then show ?thesis using s(2) b(2) by (simp add: qm_inv_def m')
qed

lemma SetDisabled_inv:
  assumes "qm_inv m" "SetQuotaDiskDisabledState sys mp b m w = (r, m', w')"
  shows "qm_inv m'"
proof (cases "m' = m")
  case False
  then obtain dev d where f: "find (\<lambda>(_, diskInfo). disk_MountPoint diskInfo = mp) (diskQuotaInfos m) = Some (dev, d)"
    and m': "m' = m\<lparr>diskQuotaInfos := al_put dev (d\<lparr>disk_Disabled := b\<rparr>) (diskQuotaInfos m)\<rparr>"
    using assms(2) by (auto simp: SetQuotaDiskDisabledState_def split: option.splits prod.splits)
  have d: "(dev, d) \<in> set (diskQuotaInfos m)" using f by (metis find_Some_iff nth_mem)
  have bk: "books m" using assms(1) by (simp add: qm_inv_def)
  have wf: "al_wf (diskQuotaInfos m)" using bk by (simp add: books_def)
  have "disk_ok (fst e) (snd e) (disk_load (fst e) (quotas m))"
    if "e \<in> set (al_put dev (d\<lparr>disk_Disabled := b\<rparr>) (diskQuotaInfos m))" for e
    using that bk d by (auto simp: set_al_put [OF wf] books_def disk_ok_def)
  moreover have "vols_ok (al_put dev (d\<lparr>disk_Disabled := b\<rparr>) (diskQuotaInfos m)) (quotas m)"
    by (rule vols_ok_keys [of "diskQuotaInfos m"]) (use bk in \<open>simp_all add: books_def subset_insertI\<close>)
  ultimately have "books m'" using wf by (simp add: m' books_def)
  then show ?thesis using assms(1) by (simp add: qm_inv_def m')
qed (use assms(1) in simp)

section \<open>Runs of the manager\<close>

text \<open>
  Each exported method is one atomic step (it holds the mutex); between two steps the rest of the
  system may change the world in any way.
\<close>

inductive qm_step :: "'w os \<Rightarrow> XFSQuotaManager \<times> 'w \<Rightarrow> XFSQuotaManager \<times> 'w \<Rightarrow> bool"
  for sys :: "'w os" where
  step_get: "GetVolumeQuotaPath sys vol capacity m w = (r, m', w') \<Longrightarrow> qm_step sys (m, w) (m', w')"
| step_expand: "ExpandVolume sys vol capacity m w = (e, m', w') \<Longrightarrow> qm_step sys (m, w) (m', w')"
| step_release: "ReleaseVolumePath sys vol m w = (e, m', w') \<Longrightarrow> qm_step sys (m, w) (m', w')"
| step_list_disks: "ListQuotaDiskInfos sys w m = (ds, m') \<Longrightarrow> qm_step sys (m, w) (m', w)"
| step_list_paths: "ListPathQuotaInfos sys w m = (qs, m') \<Longrightarrow> qm_step sys (m, w) (m', w)"
| step_disable: "SetQuotaDiskDisabledState sys mp b m w = (e, m', w') \<Longrightarrow> qm_step sys (m, w) (m', w')"
| step_world: "qm_step sys (m, w) (m, w')"

lemma qm_step_inv: "qm_step sys s s' \<Longrightarrow> qm_inv (fst s) \<Longrightarrow> qm_inv (fst s')"
  by (induction rule: qm_step.induct)
    (auto intro: Get_inv Expand_inv Release_inv ListDisks_inv ListPaths_inv SetDisabled_inv)

lemma qm_run_inv: "(qm_step sys)\<^sup>*\<^sup>* s s' \<Longrightarrow> qm_inv (fst s) \<Longrightarrow> qm_inv (fst s')"
  by (induction rule: rtranclp_induct) (auto dest: qm_step_inv)

section \<open>Properties of the manager\<close>

text \<open>
  C1. No disk is promised beyond its capacity: in every run of the manager from a state with
  consistent books, under every interleaving of its methods and every behaviour of the system calls,
  the recorded quota of each disk is exactly the sum of the quotas of the volumes placed on it, it
  does not exceed the capacity, and the allocatable size is the rest of the capacity.
\<close>

theorem disks_never_overcommitted:
  assumes "qm_inv m" "(qm_step sys)\<^sup>*\<^sup>* (m, w) (m', w')" "(dev, d) \<in> set (diskQuotaInfos m')"
  shows "unat (disk_QuotaSize d) = disk_load dev (quotas m') \<and>
         disk_load dev (quotas m') \<le> unat (disk_Capacity d) \<and>
         unat (disk_AllocatableSize d) = unat (disk_Capacity d) - disk_load dev (quotas m')"
proof -
  have "qm_inv m'" using qm_run_inv [OF assms(2)] assms(1) by simp
  then have row: "disk_ok dev d (disk_load dev (quotas m'))"
    using assms(3) by (auto simp: qm_inv_def books_def)
  then show ?thesis using disk_ok_alloc [OF row] by (simp add: disk_ok_def)
qed

text \<open>A manager with the two empty disks of \<open>mem0\<close>.\<close>

definition disk0 :: "string \<Rightarrow> string \<Rightarrow> u64 \<Rightarrow> DiskQuotaInfo" where
  "disk0 dev mp cap = \<lparr>disk_DeviceName = dev, disk_MountPoint = mp, disk_Capacity = cap, disk_Used = 0,
     disk_QuotaSize = 0, disk_AllocatableSize = cap, disk_Disabled = False, disk_lastSync = 0\<rparr>"

definition manager0 :: XFSQuotaManager where
  "manager0 = \<lparr>quotaRootPath = ''/xfs'',
     diskQuotaInfos = [(''/dev/sdb'', disk0 ''/dev/sdb'' ''/xfs/d1'' 1073741824),
                       (''/dev/sdc'', disk0 ''/dev/sdc'' ''/xfs/d2'' 2147483648)],
     quotas = [], maxCacheTime = 60 * Second,
     quotaProvider = NewXFSVolumeQuotaProvider ProjectIdStart ProjectIdNum\<rparr>"

lemma manager0_inv: "qm_inv manager0"
  using prov_inv_New [of ProjectIdStart ProjectIdNum]
  by (simp add: qm_inv_def books_def vols_ok_def manager0_def disk0_def disk_ok_def al_wf_def
      ProjectIdStart_def ProjectIdNum_def)

lemmas run_defs = GetVolumeQuotaPath_def allocateNewQuotaDir_def available_disks_def manager0_def disk0_def
  go_sort_def DiskQuotaInfoList_Less_def IsPathExist_def MkDir_def mem_os_def mem0_def IsNotExist_def
  SetProjectQuota_def setProjectId_def setProjectQuota_def NewXFSVolumeQuotaProvider_def
  pa_AllocateNext_def ab_AllocateNext_def AllocateBit_def NewAllocator_def NewAllocationMap_def
  scan_loop.simps ProjectIdStart_def ProjectIdNum_def u64_of_i64_def getQuotaPathName_def
  XfsQuotaDirPrefix_def path_Join_def path_Clean_def

lemma manager0_get:
  "\<exists>m' w'. GetVolumeQuotaPath mem_os ''v1'' 1610612736 manager0 mem0 = (Inr ''/xfs/d2/k8squota_v1'', m', w') \<and>
     map fst (diskQuotaInfos m') = [''/dev/sdb'', ''/dev/sdc''] \<and>
     disk_QuotaSize (snd (diskQuotaInfos m' ! 1)) = 1610612736 \<and> map fst (quotas m') = [''v1'']"
  by (simp add: run_defs Let_def)

theorem disks_never_overcommitted_witness:
  "\<exists>m' w' dev d. (qm_step mem_os)\<^sup>*\<^sup>* (manager0, mem0) (m', w') \<and> (dev, d) \<in> set (diskQuotaInfos m') \<and>
     disk_QuotaSize d = 1610612736 \<and> disk_load dev (quotas m') = 1610612736"
proof -
  from manager0_get obtain m' w' where
    g: "GetVolumeQuotaPath mem_os ''v1'' 1610612736 manager0 mem0 = (Inr ''/xfs/d2/k8squota_v1'', m', w')"
    and m': "map fst (diskQuotaInfos m') = [''/dev/sdb'', ''/dev/sdc'']"
      "disk_QuotaSize (snd (diskQuotaInfos m' ! 1)) = 1610612736" by (elim exE conjE) (rule that)
  have run: "(qm_step mem_os)\<^sup>*\<^sup>* (manager0, mem0) (m', w')" using step_get [OF g] by blast
  obtain dev d where d: "diskQuotaInfos m' ! 1 = (dev, d)" by fastforce
  have "1 < length (diskQuotaInfos m')" using arg_cong [OF m'(1), of length] by simp
  then have dd: "(dev, d) \<in> set (diskQuotaInfos m')" using d by (metis nth_mem)
  have "unat (disk_QuotaSize d) = disk_load dev (quotas m')"
    using disks_never_overcommitted [OF manager0_inv run dd] by simp
  then show ?thesis using m'(2) d run dd by (intro exI [of _ m'] exI [of _ w'] exI [of _ dev] exI [of _ d]) simp
qed

text \<open>
  C16. Where a new volume goes. It is refused for want of space exactly when no enabled disk has
  enough allocatable space; and when it is placed, it goes on an enabled disk with enough space and
  the largest allocatable space of all enabled disks, in the directory named after the volume under
  the mount point, and only the record of this volume is added.
\<close>

theorem placement_on_largest_disk:
  assumes "qm_inv m" "map_of (quotas m) vol = None"
  shows "(fst (GetVolumeQuotaPath sys vol capacity m w) =
             Inl (ErrAllocatePath (ErrNoDiskMatch (u64_of_i64 capacity))) \<longleftrightarrow>
           (\<forall>d\<in>snd ` set (diskQuotaInfos m). disk_Disabled d \<or> disk_AllocatableSize d < u64_of_i64 capacity)) \<and>
         (\<forall>p m' w'. GetVolumeQuotaPath sys vol capacity m w = (Inr p, m', w') \<longrightarrow>
           (\<exists>d t. best_disk (u64_of_i64 capacity) (diskQuotaInfos m) d \<and>
              p = path_Join [disk_MountPoint d, getQuotaPathName vol] \<and>
              map_of (quotas m') = (map_of (quotas m))
                (vol \<mapsto> new_info p (disk_DeviceName d) (u64_of_i64 capacity) t vol)))"
proof (intro conjI allI impI)
  let ?h = "u64_of_i64 capacity"
  have "fst (GetVolumeQuotaPath sys vol capacity m w) = Inl (ErrAllocatePath (ErrNoDiskMatch ?h)) \<longleftrightarrow>
      fst (allocateNewQuotaDir sys vol ?h m w) = Inl (ErrNoDiskMatch ?h)"
    using assms(2) by (auto simp: GetVolumeQuotaPath_def Let_def split: prod.splits sum.splits option.splits)
  also have "\<dots> \<longleftrightarrow> available_disks ?h (diskQuotaInfos m) = []"
    by (auto simp: allocateNewQuotaDir_def Let_def split: prod.splits option.splits)
  finally show "fst (GetVolumeQuotaPath sys vol capacity m w) = Inl (ErrAllocatePath (ErrNoDiskMatch ?h)) \<longleftrightarrow>
      (\<forall>d\<in>snd ` set (diskQuotaInfos m). disk_Disabled d \<or> disk_AllocatableSize d < ?h)"
    by (simp only: available_empty_iff)
next
  fix p m' w'
  assume g: "GetVolumeQuotaPath sys vol capacity m w = (Inr p, m', w')"
  have b: "books m" using assms(1) by (simp add: qm_inv_def)
  show "\<exists>d t. best_disk (u64_of_i64 capacity) (diskQuotaInfos m) d \<and>
      p = path_Join [disk_MountPoint d, getQuotaPathName vol] \<and>
      map_of (quotas m') = (map_of (quotas m))(vol \<mapsto> new_info p (disk_DeviceName d) (u64_of_i64 capacity) t vol)"
    by (rule Get_new_disk [OF b g assms(2)]) auto
qed

theorem placement_on_largest_disk_witness:
  "qm_inv manager0 \<and>
   fst (GetVolumeQuotaPath mem_os ''v1'' 1610612736 manager0 mem0) = Inr ''/xfs/d2/k8squota_v1'' \<and>
   fst (GetVolumeQuotaPath mem_os ''v1'' 4294967296 manager0 mem0) =
     Inl (ErrAllocatePath (ErrNoDiskMatch 4294967296))"
proof -
  have "map_of (quotas manager0) ''v1'' = None" by (simp add: manager0_def)
  note p = placement_on_largest_disk [OF manager0_inv this, THEN conjunct1, of mem_os 4294967296 mem0]
  have "fst (GetVolumeQuotaPath mem_os ''v1'' 1610612736 manager0 mem0) = Inr ''/xfs/d2/k8squota_v1''"
    using manager0_get by auto
  moreover have "fst (GetVolumeQuotaPath mem_os ''v1'' 4294967296 manager0 mem0) =
     Inl (ErrAllocatePath (ErrNoDiskMatch (u64_of_i64 4294967296)))"
    unfolding p by (simp add: manager0_def disk0_def u64_of_i64_def)
  ultimately show ?thesis using manager0_inv by (simp add: u64_of_i64_def)
qed



text \<open>
  Expanding a volume never reaches the kernel: \<open>SetProjectQuota\<close> returns at once for a cached
  directory, so after a volume was placed, a successful \<open>ExpandVolume\<close> performs no system call (the
  world is unchanged, and with it the enforced limit) although it records the new size and books
  it on the disk.
\<close>

lemma expand_leaves_kernel_quota:
  assumes "map_of (quotas m) vol = None" "GetVolumeQuotaPath sys vol capacity m w = (Inr p, m1, w1)"
    and "ExpandVolume sys vol newCapacity m1 w2 = (None, m2, w3)"
  shows "w3 = w2 \<and> quotaProvider m2 = quotaProvider m1 \<and>
         map_option (HardQuota \<circ> pq_Quota) (map_of (quotas m2) vol) = Some (u64_of_i64 newCapacity)"
proof -
  obtain dev v w' where set: "SetProjectQuota sys p dev (u64_of_i64 capacity) (u64_of_i64 capacity)
      (quotaProvider m) w' = (None, v, w1)" and v: "quotaProvider m1 = v"
    and q: "map_of (quotas m1) vol = Some (new_info p dev (u64_of_i64 capacity) (os_Now sys w1) vol)"
    by (rule Get_new [OF assms(2,1)]) (rule that, simp_all)
  obtain i where "quotaPathAndId v p = Some i" using Set_cache [OF set] by auto
  note noop = Set_cached [OF this, of sys dev "u64_of_i64 newCapacity" "u64_of_i64 newCapacity" w2]
  show ?thesis
    by (rule Expand_ok [OF assms(3)]) (use noop in \<open>auto simp: q v new_info_def\<close>)
qed

lemma expand_leaves_kernel_quota_example:
  "\<exists>m1 w1 m2. GetVolumeQuotaPath mem_os ''v1'' 1073741824 manager0 mem0 = (Inr ''/xfs/d2/k8squota_v1'', m1, w1) \<and>
     ExpandVolume mem_os ''v1'' 2147483648 m1 w1 = (None, m2, w1)"
proof -
  have n: "map_of (quotas manager0) ''v1'' = None" by (simp add: manager0_def)
  obtain m1 w1 where g: "GetVolumeQuotaPath mem_os ''v1'' 1073741824 manager0 mem0 = (Inr ''/xfs/d2/k8squota_v1'', m1, w1)"
    and e: "fst (ExpandVolume mem_os ''v1'' 2147483648 m1 w1) = None"
    by (simp add: run_defs Let_def ExpandVolume_def)
  obtain m2 w3 where r: "ExpandVolume mem_os ''v1'' 2147483648 m1 w1 = (None, m2, w3)"
    using e by (cases "ExpandVolume mem_os ''v1'' 2147483648 m1 w1") auto
  show ?thesis using expand_leaves_kernel_quota [OF n g r] g r by blast
qed

end
