(* ===== verification/Quota_Restore.thy ===== *)
theory Quota_Restore
  imports Quota_Accounting
begin

text \<open>
  The start of the quota manager: \<open>restoreQuotaInfo\<close> and \<open>NewXfsQuotaManager\<close> of
  quotamanager\_xfs.go, the stub of quotamanager\_fake.go, and the interface
  \<open>QuotaManagerInterface\<close> of quotamanager.go, which the node server and the sync worker call.
\<close>

section \<open>restoreQuotaInfo\<close>

definition zero_time :: int where
  "zero_time = - 62135596800 * Second"

text \<open>The first loop, over the sub-directories of the root: one disk per mount point.\<close>

fun restore_disks ::
    "'w os \<Rightarrow> string list \<Rightarrow> XFSQuotaManager \<Rightarrow> 'w \<Rightarrow> qm_error option \<times> XFSQuotaManager \<times> 'w" where
  "restore_disks sys [] m w = (None, m, w)"
| "restore_disks sys (mountPoint # rest) m w =
     (if \<not> fst (IsMountPoint sys w mountPoint) then restore_disks sys rest m w
      else case GetDevForPath sys w mountPoint of
             Inl err \<Rightarrow> (Some (ErrDevice err), m, w)
           | Inr device \<Rightarrow>
               (case GetQuotaDiskInfo sys w mountPoint of
                  Inl err \<Rightarrow> (Some (ErrProvider err), m, w)
                | Inr quota \<Rightarrow>
                    (case getDiskQuotaDisableState sys mountPoint w of
                       (disabled, w) \<Rightarrow>
                         restore_disks sys rest
                           (m\<lparr>diskQuotaInfos := al_put device
                              \<lparr>disk_DeviceName = device, disk_MountPoint = mountPoint,
                               disk_Capacity = HardQuota quota, disk_Used = Used quota, disk_QuotaSize = 0,
                               disk_AllocatableSize = HardQuota quota, disk_Disabled = disabled,
                               disk_lastSync = zero_time\<rparr> (diskQuotaInfos m)\<rparr>) w)))"

text \<open>The inner loop over the directories of a disk; the outer \<open>None\<close> is a panic.\<close>

fun restore_paths ::
    "'w os \<Rightarrow> 'w \<Rightarrow> DeviceName \<Rightarrow> string list \<Rightarrow> XFSQuotaManager \<Rightarrow> (qm_error option \<times> XFSQuotaManager) option" where
  "restore_paths sys w deviceName [] m = Some (None, m)"
| "restore_paths sys w deviceName (quotaPath # rest) m =
     (case parseQuotaPathInfoFromDirName quotaPath of
        None \<Rightarrow> None
      | Some (volID, Some err) \<Rightarrow> restore_paths sys w deviceName rest m
      | Some (volID, None) \<Rightarrow>
          (case GetProjectQuota sys w quotaPath deviceName (quotaProvider m) of
             (Inl err, v) \<Rightarrow> Some (Some (ErrProvider err), m\<lparr>quotaProvider := v\<rparr>)
           | (Inr quota, v) \<Rightarrow>
               restore_paths sys w deviceName rest
                 (m\<lparr>quotaProvider := v,
                    diskQuotaInfos :=
                      (case map_of (diskQuotaInfos m) deviceName of
                         None \<Rightarrow> diskQuotaInfos m
                       | Some d \<Rightarrow> al_put deviceName
                           (d\<lparr>disk_QuotaSize := disk_QuotaSize d + HardQuota quota\<rparr>) (diskQuotaInfos m)),
                    quotas := al_put volID
                      \<lparr>pq_Path = quotaPath, pq_DeviceName = deviceName, pq_Quota = quota,
                       pq_lastSync = os_Now sys w, pq_VolumeId = volID\<rparr> (quotas m)\<rparr>)))"

text \<open>The second loop, over the disks.\<close>

fun restore_volumes ::
    "'w os \<Rightarrow> 'w \<Rightarrow> DeviceName list \<Rightarrow> XFSQuotaManager \<Rightarrow> (qm_error option \<times> XFSQuotaManager) option" where
  "restore_volumes sys w [] m = Some (None, m)"
| "restore_volumes sys w (deviceName # rest) m =
     (case map_of (diskQuotaInfos m) deviceName of
        None \<Rightarrow> restore_volumes sys w rest m
      | Some diskInfo \<Rightarrow>
          (case restore_paths sys w deviceName (GetSubDirs sys w (disk_MountPoint diskInfo)) m of
             None \<Rightarrow> None
           | Some (Some err, m) \<Rightarrow> Some (Some err, m)
           | Some (None, m) \<Rightarrow>
               restore_volumes sys w rest
                 (m\<lparr>diskQuotaInfos :=
                      (case map_of (diskQuotaInfos m) deviceName of
                         None \<Rightarrow> diskQuotaInfos m
                       | Some d \<Rightarrow> al_put deviceName (d\<lparr>disk_lastSync := os_Now sys w\<rparr>) (diskQuotaInfos m))\<rparr>)))"

definition restoreQuotaInfo ::
    "'w os \<Rightarrow> XFSQuotaManager \<Rightarrow> 'w \<Rightarrow> (qm_error option \<times> XFSQuotaManager \<times> 'w) option" where
  "restoreQuotaInfo sys m w =
     (case restore_disks sys (GetSubDirs sys w (quotaRootPath m)) m w of
        (Some err, m, w) \<Rightarrow> Some (Some err, m, w)
      | (None, m, w) \<Rightarrow>
          map_option (\<lambda>(err, m). (err, m, w)) (restore_volumes sys w (al_keys (diskQuotaInfos m)) m))"

section \<open>The manager behind the interface\<close>

text \<open>What \<open>NewXfsQuotaManager\<close> returns: the XFS manager, or the stub when the start-up fails.\<close>

datatype QuotaManager = XFS XFSQuotaManager | FakeQuotaManager

definition xfs_manager_init :: "string \<Rightarrow> XFSQuotaManager" where
  "xfs_manager_init root = \<lparr>quotaRootPath = path_Clean root, diskQuotaInfos = [], quotas = [],
     maxCacheTime = 60 * Second, quotaProvider = NewXFSVolumeQuotaProvider ProjectIdStart ProjectIdNum\<rparr>"

definition NewXfsQuotaManager :: "'w os \<Rightarrow> string \<Rightarrow> 'w \<Rightarrow> (QuotaManager \<times> 'w) option" where
  "NewXfsQuotaManager sys root w =
     (if \<not> CheckDirExists sys w root then Some (FakeQuotaManager, w)
      else case restoreQuotaInfo sys (xfs_manager_init root) w of
             None \<Rightarrow> None
           | Some (Some err, m, w) \<Rightarrow> Some (FakeQuotaManager, w)
           | Some (None, m, w) \<Rightarrow> Some (XFS m, w))"

text \<open>The methods of the stub; \<open>GetQuotaInfoByVolumeId\<close> is not in the interface.\<close>

definition fake_ListQuotaDiskInfos :: "qm_error + DiskQuotaInfo list" where
  [simp]: "fake_ListQuotaDiskInfos = Inl ErrUnimplemented"

definition fake_ListPathQuotaInfos :: "qm_error + PathQuotaInfo list" where
  [simp]: "fake_ListPathQuotaInfos = Inl ErrUnimplemented"

definition fake_GetQuotaInfoByVolumeId :: "VolumeId \<Rightarrow> qm_error + PathQuotaInfo" where
  [simp]: "fake_GetQuotaInfoByVolumeId volID = Inl ErrUnimplemented"

definition fake_SetQuotaDiskDisabledState :: "string \<Rightarrow> bool \<Rightarrow> qm_error option" where
  [simp]: "fake_SetQuotaDiskDisabledState diskMountPath disabled = Some ErrUnimplemented"

definition fake_GetVolumeQuotaPath :: "VolumeId \<Rightarrow> int \<Rightarrow> qm_error + string" where
  [simp]: "fake_GetVolumeQuotaPath volId capacity = Inl ErrUnimplemented"

definition fake_ExpandVolume :: "VolumeId \<Rightarrow> int \<Rightarrow> qm_error option" where
  [simp]: "fake_ExpandVolume volID capacity = Some ErrUnimplemented"

definition fake_ReleaseVolumePath :: "VolumeId \<Rightarrow> qm_error option" where
  [simp]: "fake_ReleaseVolumePath volId = Some ErrUnimplemented"

text \<open>The methods of the interface, dispatched on the dynamic type.\<close>

definition qm_GetVolumeQuotaPath ::
    "'w os \<Rightarrow> VolumeId \<Rightarrow> int \<Rightarrow> QuotaManager \<times> 'w \<Rightarrow> (qm_error + string) \<times> QuotaManager \<times> 'w" where
  "qm_GetVolumeQuotaPath sys volId capacity s =
     (case s of
        (FakeQuotaManager, w) \<Rightarrow> (fake_GetVolumeQuotaPath volId capacity, FakeQuotaManager, w)
      | (XFS m, w) \<Rightarrow> (case GetVolumeQuotaPath sys volId capacity m w of (r, m, w) \<Rightarrow> (r, XFS m, w)))"

definition qm_ExpandVolume ::
    "'w os \<Rightarrow> VolumeId \<Rightarrow> int \<Rightarrow> QuotaManager \<times> 'w \<Rightarrow> qm_error option \<times> QuotaManager \<times> 'w" where
  "qm_ExpandVolume sys volID capacity s =
     (case s of
        (FakeQuotaManager, w) \<Rightarrow> (fake_ExpandVolume volID capacity, FakeQuotaManager, w)
      | (XFS m, w) \<Rightarrow> (case ExpandVolume sys volID capacity m w of (r, m, w) \<Rightarrow> (r, XFS m, w)))"

definition qm_ReleaseVolumePath ::
    "'w os \<Rightarrow> VolumeId \<Rightarrow> QuotaManager \<times> 'w \<Rightarrow> qm_error option \<times> QuotaManager \<times> 'w" where
  "qm_ReleaseVolumePath sys volId s =
     (case s of
        (FakeQuotaManager, w) \<Rightarrow> (fake_ReleaseVolumePath volId, FakeQuotaManager, w)
      | (XFS m, w) \<Rightarrow> (case ReleaseVolumePath sys volId m w of (r, m, w) \<Rightarrow> (r, XFS m, w)))"

definition qm_ListQuotaDiskInfos ::
    "'w os \<Rightarrow> QuotaManager \<times> 'w \<Rightarrow> (qm_error + DiskQuotaInfo list) \<times> QuotaManager \<times> 'w" where
  "qm_ListQuotaDiskInfos sys s =
     (case s of
        (FakeQuotaManager, w) \<Rightarrow> (fake_ListQuotaDiskInfos, FakeQuotaManager, w)
      | (XFS m, w) \<Rightarrow> (case ListQuotaDiskInfos sys w m of (r, m) \<Rightarrow> (r, XFS m, w)))"

definition qm_ListPathQuotaInfos ::
    "'w os \<Rightarrow> QuotaManager \<times> 'w \<Rightarrow> (qm_error + PathQuotaInfo list) \<times> QuotaManager \<times> 'w" where
  "qm_ListPathQuotaInfos sys s =
     (case s of
        (FakeQuotaManager, w) \<Rightarrow> (fake_ListPathQuotaInfos, FakeQuotaManager, w)
      | (XFS m, w) \<Rightarrow> (case ListPathQuotaInfos sys w m of (r, m) \<Rightarrow> (r, XFS m, w)))"

definition qm_SetQuotaDiskDisabledState ::
    "'w os \<Rightarrow> string \<Rightarrow> bool \<Rightarrow> QuotaManager \<times> 'w \<Rightarrow> qm_error option \<times> QuotaManager \<times> 'w" where
  "qm_SetQuotaDiskDisabledState sys mountPoint disabled s =
     (case s of
        (FakeQuotaManager, w) \<Rightarrow> (fake_SetQuotaDiskDisabledState mountPoint disabled, FakeQuotaManager, w)
      | (XFS m, w) \<Rightarrow> (case SetQuotaDiskDisabledState sys mountPoint disabled m w of (r, m, w) \<Rightarrow> (r, XFS m, w)))"

section \<open>The interface\<close>

datatype qm_op = OpGet VolumeId int | OpExpand VolumeId int | OpRelease VolumeId

text \<open>
  \<open>QuotaManagerInterface\<close> as its clients use it: which directory a volume has, and how each method
  changes that.
\<close>

locale quota_manager =
  fixes get :: "VolumeId \<Rightarrow> int \<Rightarrow> 's \<Rightarrow> ('e + string) \<times> 's"
    and expand :: "VolumeId \<Rightarrow> int \<Rightarrow> 's \<Rightarrow> 'e option \<times> 's"
    and rel :: "VolumeId \<Rightarrow> 's \<Rightarrow> 'e option \<times> 's"
    and path_of :: "'s \<Rightarrow> VolumeId \<rightharpoonup> string"
  assumes get_found: "path_of s v = Some p \<Longrightarrow> get v c s = (Inr p, s)"
    and get_records: "get v c s = (Inr p, s') \<Longrightarrow> path_of s' = (path_of s)(v \<mapsto> p)"
    and get_fails: "get v c s = (Inl e, s') \<Longrightarrow> path_of s' = path_of s"
    and expand_keeps: "path_of (snd (expand v c s)) = path_of s"
    and rel_forgets: "rel v s = (None, s') \<Longrightarrow> path_of s' = (path_of s)(v := None)"
    and rel_fails: "rel v s = (Some e, s') \<Longrightarrow> path_of s' = path_of s"
begin

fun exec :: "qm_op \<Rightarrow> 's \<Rightarrow> 's" where
  "exec (OpGet v c) s = snd (get v c s)"
| "exec (OpExpand v c) s = snd (expand v c s)"
| "exec (OpRelease v) s = snd (rel v s)"

lemma exec_keeps:
  assumes "path_of s v = Some p" "op \<noteq> OpRelease v"
  shows "path_of (exec op s) v = Some p"
proof (cases op)
  case (OpGet u c)
  obtain r s' where g: "get u c s = (r, s')" by fastforce
  show ?thesis
  proof (cases r)
    case (Inl e)
    then show ?thesis using get_fails [of u c s e s'] g assms(1) OpGet by simp
  next
    case (Inr q)
    then show ?thesis
      using get_records [of u c s q s'] get_found [OF assms(1), of c] g assms(1) OpGet by (cases "u = v") auto
  qed
next
  case (OpRelease u)
  obtain r s' where "rel u s = (r, s')" by fastforce
  then show ?thesis
    using rel_forgets [of u s s'] rel_fails [of u s _ s'] assms OpRelease by (cases r) auto
qed (simp add: expand_keeps assms(1))

text \<open>A volume keeps its directory through every run that does not release it.\<close>

lemma path_stable:
  assumes "get v c s = (Inr p, s')" "OpRelease v \<notin> set ops"
  shows "get v c' (fold exec ops s') = (Inr p, fold exec ops s')"
proof -
  have "path_of s' v = Some p" using get_records [OF assms(1)] by simp
  then have "path_of (fold exec ops s') v = Some p"
    using assms(2) by (induction ops arbitrary: s') (auto simp: exec_keeps)
  then show ?thesis by (rule get_found)
qed

end

definition xq_path :: "XFSQuotaManager \<times> 'w \<Rightarrow> VolumeId \<rightharpoonup> string" where
  "xq_path s v = map_option pq_Path (map_of (quotas (fst s)) v)"

definition qm_path :: "QuotaManager \<times> 'w \<Rightarrow> VolumeId \<rightharpoonup> string" where
  "qm_path s v = (case fst s of FakeQuotaManager \<Rightarrow> None | XFS m \<Rightarrow> xq_path (m, snd s) v)"

lemma provider_only: "m' = m\<lparr>quotaProvider := v\<rparr> \<Longrightarrow> quotas m' = quotas m \<and> diskQuotaInfos m' = diskQuotaInfos m"
  by simp

lemma Get_path:
  "GetVolumeQuotaPath sys v c m w = (Inr p, m', w') \<Longrightarrow> xq_path (m', w') = (xq_path (m, w))(v \<mapsto> p)"
proof (cases "map_of (quotas m) v")
  case (Some q)
  assume "GetVolumeQuotaPath sys v c m w = (Inr p, m', w')"
  then show ?thesis using Get_old [OF Some, of sys c w] Some by (auto simp: xq_path_def fun_eq_iff)
next
  case None
  assume g: "GetVolumeQuotaPath sys v c m w = (Inr p, m', w')"
  show ?thesis by (rule Get_new [OF g None]) (auto simp: xq_path_def new_info_def fun_eq_iff)
qed

lemma Expand_path: "xq_path (snd (ExpandVolume sys v c m w)) = xq_path (m, w)"
proof (cases "ExpandVolume sys v c m w")
  case (fields r m' w')
  show ?thesis
  proof (cases r)
    case None
    show ?thesis
      by (rule Expand_ok [OF fields [unfolded None]]) (simp add: fields xq_path_def fun_eq_iff)
  next
    case (Some e)
    have "quotas m' = quotas m" using Expand_error [OF fields [unfolded Some]] provider_only by blast
    then show ?thesis by (simp add: fields xq_path_def fun_eq_iff)
  qed
qed

lemma Release_path:
  assumes "ReleaseVolumePath sys v m w = (None, m', w')"
  shows "xq_path (m', w') = (xq_path (m, w))(v := None)"
proof (cases "map_of (quotas m) v")
  case None
  then show ?thesis using assms by (auto simp: ReleaseVolumePath_def xq_path_def fun_eq_iff)
next
  case (Some q)
  show ?thesis by (rule Release_ok [OF assms Some]) (simp add: xq_path_def fun_eq_iff)
qed

lemma xq_path_quotas: "quotas m' = quotas m \<Longrightarrow> xq_path (m', w') = xq_path (m, w)"
  by (simp add: xq_path_def fun_eq_iff)

interpretation xq: quota_manager
  "\<lambda>v c (m, w). GetVolumeQuotaPath sys v c m w" "\<lambda>v c (m, w). ExpandVolume sys v c m w"
  "\<lambda>v (m, w). ReleaseVolumePath sys v m w" xq_path for sys
proof (unfold_locales, goal_cases)
  case (1 s v p c)
  then show ?case by (auto simp: xq_path_def GetVolumeQuotaPath_def split: prod.splits)
next
  case (2 v c s p s')
  then show ?case by (cases s; cases s') (auto dest: Get_path)
next
  case (3 v c s e s')
  then show ?case by (cases s; cases s') (auto dest!: Get_error provider_only intro: xq_path_quotas)
next
  case (4 v c s)
  then show ?case by (cases s) (simp add: Expand_path)
next
  case (5 v s s')
  then show ?case by (cases s; cases s') (auto dest: Release_path)
next
  case (6 v s e s')
  then show ?case by (cases s; cases s') (auto dest!: Release_error provider_only intro: xq_path_quotas)
qed

lemma qm_path_simps [simp]:
  "qm_path (FakeQuotaManager, w) = (\<lambda>_. None)"
  "qm_path (XFS m, w) = xq_path (m, w)"
  by (simp_all add: qm_path_def fun_eq_iff)

interpretation qm: quota_manager
  "qm_GetVolumeQuotaPath sys" "qm_ExpandVolume sys" "qm_ReleaseVolumePath sys" qm_path for sys
proof (unfold_locales, goal_cases)
  case (1 s v p c)
  then show ?case using xq.get_found [where sys = sys and v = v and p = p and c = c]
    by (cases s; cases "fst s") (force simp: qm_GetVolumeQuotaPath_def)+
next
  case (2 v c s p s')
  then show ?case
    by (cases s; cases "fst s") (auto simp: qm_GetVolumeQuotaPath_def split: prod.splits dest: Get_path)
next
  case (3 v c s e s')
  then show ?case using xq.get_fails [where sys = sys and v = v and e = e and c = c]
    by (cases s; cases "fst s") (fastforce simp: qm_GetVolumeQuotaPath_def split: prod.splits)+
next
  case (4 v c s)
  obtain q w where s: "s = (q, w)" by fastforce
  show ?case
  proof (cases q)
    case (XFS m)
    then show ?thesis using Expand_path [of sys v c m w]
      by (cases "ExpandVolume sys v c m w") (simp add: s qm_ExpandVolume_def)
  qed (simp add: s qm_ExpandVolume_def)
next
  case (5 v s s')
  then show ?case
    by (cases s; cases "fst s") (auto simp: qm_ReleaseVolumePath_def split: prod.splits dest: Release_path)
next
  case (6 v s e s')
  then show ?case using xq.rel_fails [where sys = sys and v = v and e = e]
    by (cases s; cases "fst s") (fastforce simp: qm_ReleaseVolumePath_def split: prod.splits)+
qed

section \<open>Properties\<close>

text \<open>
  Directory names can be read back: under a cleaned absolute mount point that does not itself
  contain the prefix, the directory of a volume whose ID has no slash parses to exactly this ID.
\<close>

lemma parse_quota_dir:
  assumes "\<forall>c\<in>set cs. proper c" "cs \<noteq> []" "Index (abs_path cs) XfsQuotaDirPrefix = None"
    and "CHR ''/'' \<notin> set vol"
  shows "parseQuotaPathInfoFromDirName (path_Join [abs_path cs, getQuotaPathName vol]) = Some (vol, None)"
proof -
  let ?d = "getQuotaPathName vol"
  have d: "proper ?d" using assms(4) by (auto simp: proper_def getQuotaPathName_def XfsQuotaDirPrefix_def)
  have p: "path_Join [abs_path cs, ?d] = abs_path (cs @ [?d])" by (rule path_Join_abs [OF assms(1,2) d])
  have c: "path_Clean (abs_path (cs @ [?d])) = abs_path (cs @ [?d])"
    using assms(1) d by (intro path_Clean_abs) auto
  have e: "abs_path (cs @ [?d]) = abs_path cs @ CHR ''/'' # ?d" by (rule abs_path_snoc)
  have "Index ?d XfsQuotaDirPrefix = Some 0"
    by (rule Index_prefix) (auto simp: HasPrefix_append getQuotaPathName_def)
  then have i: "Index (abs_path (cs @ [?d])) XfsQuotaDirPrefix = Some (Suc (length (abs_path cs)))"
    unfolding e by (subst Index_barrier [OF _ _ assms(3)]) (simp_all add: XfsQuotaDirPrefix_def)
  show ?thesis
    unfolding p by (simp add: parseQuotaPathInfoFromDirName_def c i Let_def)
      (simp add: abs_path_snoc go_slice_def getQuotaPathName_def XfsQuotaDirPrefix_def)
qed

section \<open>What a restart restores\<close>

definition full_disks :: "(DeviceName \<times> DiskQuotaInfo) list \<Rightarrow> bool" where
  "full_disks ds \<longleftrightarrow> (\<forall>e\<in>set ds. disk_AllocatableSize (snd e) = disk_Capacity (snd e))"

lemma full_disks_put [simp]:
  "full_disks ds \<Longrightarrow> disk_AllocatableSize d = disk_Capacity d \<Longrightarrow> full_disks (al_put dev d ds)"
  by (auto simp: full_disks_def dest!: set_al_put_subset)

lemma full_disks_entry:
  "full_disks ds \<Longrightarrow> map_of ds dev = Some d \<Longrightarrow> disk_AllocatableSize d = disk_Capacity d"
  unfolding full_disks_def by (metis map_of_in_set snd_conv)

lemma full_disks_upd [simp]:
  "full_disks ds \<Longrightarrow> map_of ds dev = Some d \<Longrightarrow> full_disks (al_put dev (d\<lparr>disk_QuotaSize := x\<rparr>) ds)"
  "full_disks ds \<Longrightarrow> map_of ds dev = Some d \<Longrightarrow> full_disks (al_put dev (d\<lparr>disk_lastSync := t\<rparr>) ds)"
  using full_disks_entry [of ds dev d] by simp_all

lemma restore_disks_full:
  "restore_disks sys mps m w = (r, m', w') \<Longrightarrow> full_disks (diskQuotaInfos m) \<Longrightarrow> full_disks (diskQuotaInfos m')"
proof (induction mps arbitrary: m w)
  case (Cons mp mps)
  then show ?case
    by (auto split: if_splits sum.splits prod.splits dest: Cons.IH)
qed simp

lemma restore_paths_full:
  "restore_paths sys w dev ps m = Some (r, m') \<Longrightarrow> full_disks (diskQuotaInfos m) \<Longrightarrow> full_disks (diskQuotaInfos m')"
proof (induction ps arbitrary: m)
  case (Cons p ps)
  then show ?case
    by (auto split: option.splits sum.splits prod.splits dest: Cons.IH)
qed simp

lemma restore_volumes_full:
  "restore_volumes sys w devs m = Some (r, m') \<Longrightarrow> full_disks (diskQuotaInfos m) \<Longrightarrow> full_disks (diskQuotaInfos m')"
proof (induction devs arbitrary: m)
  case (Cons dev devs)
  show ?case
  proof (cases "map_of (diskQuotaInfos m) dev")
    case None
    then show ?thesis using Cons by simp
  next
    case (Some d)
    obtain e m1 where p: "restore_paths sys w dev (GetSubDirs sys w (disk_MountPoint d)) m = Some (e, m1)"
      using Cons.prems(1) Some by (auto split: option.splits)
    have full: "full_disks (diskQuotaInfos m1)" by (rule restore_paths_full [OF p Cons.prems(2)])
    then have "full_disks (case map_of (diskQuotaInfos m1) dev of None \<Rightarrow> diskQuotaInfos m1
        | Some d \<Rightarrow> al_put dev (d\<lparr>disk_lastSync := os_Now sys w\<rparr>) (diskQuotaInfos m1))"
      by (auto split: option.splits)
    then show ?thesis
      using Cons.prems(1) Some p full Cons.IH by (cases e) auto
  qed
qed simp

text \<open>
  After a restart every disk is offered at its full capacity: \<open>restoreQuotaInfo\<close> adds the quotas
  it finds to the recorded quota of the disk but leaves the allocatable size at the capacity, for
  every content of the disks. The witness continues such a run: on a 2 GiB disk with a volume of
  1.5 GiB, a new volume of 2 GiB is placed after the restart, 3.5 GiB are promised, and the
  allocatable size wraps around to almost 2 to the power 64.
\<close>

lemma restart_offers_full_capacity:
  assumes "NewXfsQuotaManager sys root w = Some (XFS m, w')" "(dev, d) \<in> set (diskQuotaInfos m)"
  shows "disk_AllocatableSize d = disk_Capacity d"
proof -
  have "full_disks (diskQuotaInfos (xfs_manager_init root))" by (simp add: full_disks_def xfs_manager_init_def)
  then have "full_disks (diskQuotaInfos m)"
    using assms(1)
    by (auto simp: NewXfsQuotaManager_def restoreQuotaInfo_def split: if_splits option.splits prod.splits
        dest!: restore_disks_full restore_volumes_full)
  then show ?thesis using assms(2) by (auto simp: full_disks_def)
qed

text \<open>The node of \<open>mem0\<close> after a run that placed one volume of 1.5 GiB on the second disk.\<close>

definition mem1 :: mem where
  "mem1 = \<lparr>m_dirs = [''/xfs'', ''/xfs/d1'', ''/xfs/d2'', ''/xfs/d2/k8squota_v1''],
           m_mounts = [(''/xfs/d1'', (''/dev/sdb'', 2097152)), (''/xfs/d2'', (''/dev/sdc'', 4194304))],
           m_projid = [(''/xfs/d2/k8squota_v1'', 1000000)],
           m_limits = [((''/dev/sdc'', 1000000), (3145728, 3145728))],
           m_xattr = [((''/xfs/d1'', DiskQuotaEnableFattr), ''false''), ((''/xfs/d2'', DiskQuotaEnableFattr), ''false'')],
           m_clock = 0\<rparr>"

lemma mem1_dirs [simp]:
  "GetSubDirs mem_os mem1 ''/xfs'' = [''/xfs/d1'', ''/xfs/d2'']"
  "GetSubDirs mem_os mem1 ''/xfs/d1'' = []"
  "GetSubDirs mem_os mem1 ''/xfs/d2'' = [''/xfs/d2/k8squota_v1'']"
  "path_Clean ''/xfs'' = ''/xfs''"
  "parseQuotaPathInfoFromDirName ''/xfs/d2/k8squota_v1'' = Some (''v1'', None)"
  by code_simp+

lemma mem1_devs [simp]:
  "GetDevForPath mem_os mem1 ''/xfs/d1'' = Inr ''/dev/sdb''"
  "GetDevForPath mem_os mem1 ''/xfs/d2'' = Inr ''/dev/sdc''"
  by code_simp+

lemma mem1_calls [simp]:
  "IsMountPoint mem_os mem1 ''/xfs/d1'' = (True, None)" "IsMountPoint mem_os mem1 ''/xfs/d2'' = (True, None)"
  "GetQuotaDiskInfo mem_os mem1 ''/xfs/d1'' = Inr \<lparr>HardQuota = 1073741824, SoftQuota = 1073741824, Used = 0\<rparr>"
  "GetQuotaDiskInfo mem_os mem1 ''/xfs/d2'' = Inr \<lparr>HardQuota = 2147483648, SoftQuota = 2147483648, Used = 0\<rparr>"
  "getDiskQuotaDisableState mem_os ''/xfs/d1'' mem1 = (False, mem1)"
  "getDiskQuotaDisableState mem_os ''/xfs/d2'' mem1 = (False, mem1)"
  "CheckDirExists mem_os mem1 ''/xfs''"
  by (simp_all add: IsMountPoint_def GetQuotaDiskInfo_def getDiskQuotaDisableState_def CheckDirExists_def
      IsNotExist_def mem_os_def mem1_def GetFilesystemXattr_def ParseBool_def)

definition prov1 :: QuotaVolumeProvider where
  "prov1 = snd (GetProjectQuota mem_os mem1 ''/xfs/d2/k8squota_v1'' ''/dev/sdc''
     (NewXFSVolumeQuotaProvider ProjectIdStart ProjectIdNum))"

lemmas provider_run_defs = GetProjectQuota_def getProjectId_def getProjectQuota_def BASIC_BLOCK_SIZE_def
  NewXFSVolumeQuotaProvider_def NewAllocator_def pa_Allocate_def pa_contains_def ab_Allocate_def
  NewAllocationMap_def ProjectIdStart_def ProjectIdNum_def

lemma mem1_quota [simp]:
  "GetProjectQuota mem_os mem1 ''/xfs/d2/k8squota_v1'' ''/dev/sdc''
     (NewXFSVolumeQuotaProvider ProjectIdStart ProjectIdNum) =
   (Inr \<lparr>HardQuota = 1610612736, SoftQuota = 1610612736, Used = 0\<rparr>, prov1)"
  unfolding prov1_def by (simp add: provider_run_defs mem_os_def mem1_def Let_def)

definition restored1 :: XFSQuotaManager where
  "restored1 = \<lparr>quotaRootPath = ''/xfs'',
     diskQuotaInfos = [(''/dev/sdb'', disk0 ''/dev/sdb'' ''/xfs/d1'' 1073741824),
                       (''/dev/sdc'', (disk0 ''/dev/sdc'' ''/xfs/d2'' 2147483648)\<lparr>disk_QuotaSize := 1610612736\<rparr>)],
     quotas = [(''v1'', \<lparr>pq_Path = ''/xfs/d2/k8squota_v1'', pq_DeviceName = ''/dev/sdc'',
        pq_Quota = \<lparr>HardQuota = 1610612736, SoftQuota = 1610612736, Used = 0\<rparr>,
        pq_lastSync = 0, pq_VolumeId = ''v1''\<rparr>)],
     maxCacheTime = 60 * Second, quotaProvider = prov1\<rparr>"

lemma mem1_now [simp]: "os_Now mem_os mem1 = 0"
  by (simp add: mem_os_def mem1_def)

lemma mem1_restart: "NewXfsQuotaManager mem_os ''/xfs'' mem1 = Some (XFS restored1, mem1)"
  by (simp add: NewXfsQuotaManager_def restoreQuotaInfo_def xfs_manager_init_def restored1_def disk0_def)

section \<open>What a restart needs and what it recovers\<close>

text \<open>The cache agrees with the project IDs of the directories, and the ID range is the fixed one.\<close>

definition cache_agrees :: "'w os \<Rightarrow> 'w \<Rightarrow> QuotaVolumeProvider \<Rightarrow> bool" where
  "cache_agrees sys w v \<longleftrightarrow> prov_inv v \<and>
     pa_range (projectIdAllocator v) = {i. 1000000 \<le> uint i \<and> uint i < 1005000} \<and>
     (\<forall>p i. quotaPathAndId v p = Some i \<longrightarrow> getProjectId sys w p = Inr i)"

lemma cache_agrees_id:
  "cache_agrees sys w v \<Longrightarrow> quotaPathAndId v p = Some i \<Longrightarrow>
   getProjectId sys w p = Inr i \<and> 1000000 \<le> uint i \<and> uint i < 1005000"
  using pa.ids_in_range [OF prov_inv_ok, of v] prov_inv_ids [of v]
  unfolding cache_agrees_def by (auto simp: ran_def)

lemma cache_agrees_Get:
  assumes "cache_agrees sys w v" "GetProjectQuota sys w p d v = (Inr q, v')"
  shows "cache_agrees sys w v' \<and> p \<in> dom (quotaPathAndId v') \<and> dom (quotaPathAndId v) \<subseteq> dom (quotaPathAndId v')"
proof -
  have inv: "prov_inv v" using assms(1) by (simp add: cache_agrees_def)
  have inv': "prov_inv v'" by (rule prov_inv_GetD [OF assms(2) inv])
  show ?thesis
  proof (cases "quotaPathAndId v p")
    case (Some i)
    then have "v' = v" using assms(2) by (simp add: GetProjectQuota_def)
    then show ?thesis using assms(1) Some by auto
  next
    case None
    then obtain i a where i: "getProjectId sys w p = Inr i" "pa_Allocate i (projectIdAllocator v) = (None, a)"
      and v': "v' = v\<lparr>projectIdAllocator := a, quotaPathAndId := (quotaPathAndId v)(p \<mapsto> i)\<rparr>"
      using assms(2) by (auto simp: GetProjectQuota_def split: sum.splits prod.splits option.splits)
    have "pa_range a = pa_range (projectIdAllocator v)"
      using pa.allocate_success [OF prov_inv_ok [OF inv] i(2)] by simp
    then show ?thesis using assms(1) inv' i(1) by (auto simp: cache_agrees_def v')
  qed
qed

definition mounts_of :: "XFSQuotaManager \<Rightarrow> (DeviceName \<times> string) list" where
  "mounts_of m = map (\<lambda>(k, d). (k, disk_MountPoint d)) (diskQuotaInfos m)"

lemma map_al_put_same:
  "map_of ds k = Some d \<Longrightarrow> f (k, d') = f (k, d) \<Longrightarrow> map f (al_put k d' ds) = map f ds"
  by (induction k d' ds rule: al_put.induct) (auto split: if_splits)

text \<open>A directory is recovered when it is cached and recorded under the ID its name parses to.\<close>

definition recovered :: "XFSQuotaManager \<Rightarrow> string \<Rightarrow> bool" where
  "recovered m p \<longleftrightarrow> p \<in> dom (quotaPathAndId (quotaProvider m)) \<and>
     (\<exists>vol. parseQuotaPathInfoFromDirName p = Some (vol, None) \<and> vol \<in> fst ` set (quotas m))"

definition grows :: "XFSQuotaManager \<Rightarrow> XFSQuotaManager \<Rightarrow> bool" where
  "grows m m' \<longleftrightarrow> mounts_of m' = mounts_of m \<and> (\<forall>p. recovered m p \<longrightarrow> recovered m' p)"

lemma grows_refl [simp]: "grows m m" by (simp add: grows_def)

lemma grows_trans: "grows m m' \<Longrightarrow> grows m' m'' \<Longrightarrow> grows m m''" by (simp add: grows_def)

lemma parse_no_error: "parseQuotaPathInfoFromDirName p = Some (vol, e) \<Longrightarrow> e = None"
  by (auto simp: parseQuotaPathInfoFromDirName_def Let_def split: option.splits if_splits)

lemma restore_paths_recover:
  "restore_paths sys w dev ps m = Some (None, m') \<Longrightarrow> cache_agrees sys w (quotaProvider m) \<Longrightarrow>
   cache_agrees sys w (quotaProvider m') \<and> grows m m' \<and> (\<forall>p\<in>set ps. recovered m' p)"
proof (induction ps arbitrary: m)
  case (Cons p ps)
  obtain vol where vol: "parseQuotaPathInfoFromDirName p = Some (vol, None)"
    using Cons.prems(1) parse_no_error [of p] by (auto split: option.splits prod.splits)
  obtain q v where g: "GetProjectQuota sys w p dev (quotaProvider m) = (Inr q, v)"
    using Cons.prems(1) vol by (auto split: sum.splits prod.splits)
  define m1 where "m1 = m\<lparr>quotaProvider := v,
    diskQuotaInfos := (case map_of (diskQuotaInfos m) dev of None \<Rightarrow> diskQuotaInfos m
       | Some d \<Rightarrow> al_put dev (d\<lparr>disk_QuotaSize := disk_QuotaSize d + HardQuota q\<rparr>) (diskQuotaInfos m)),
    quotas := al_put vol \<lparr>pq_Path = p, pq_DeviceName = dev, pq_Quota = q, pq_lastSync = os_Now sys w,
       pq_VolumeId = vol\<rparr> (quotas m)\<rparr>"
  have rest: "restore_paths sys w dev ps m1 = Some (None, m')" using Cons.prems(1) vol g by (simp add: m1_def)
  note c = cache_agrees_Get [OF Cons.prems(2) g]
  have "mounts_of m1 = mounts_of m"
    by (auto simp: m1_def mounts_of_def map_al_put_same split: option.split)
  then have g1: "grows m m1" using c by (auto simp: grows_def recovered_def m1_def)
  have r1: "recovered m1 p" using c vol by (auto simp: recovered_def m1_def)
  have "cache_agrees sys w (quotaProvider m1)" using c by (simp add: m1_def)
  note ih = Cons.IH [OF rest this]
  then have "recovered m' p" using r1 by (simp add: grows_def)
  then show ?case using ih grows_trans [OF g1] by simp
qed simp

lemma restore_volumes_recover:
  "restore_volumes sys w devs m = Some (None, m') \<Longrightarrow> cache_agrees sys w (quotaProvider m) \<Longrightarrow>
   cache_agrees sys w (quotaProvider m') \<and> grows m m' \<and>
   (\<forall>dev\<in>set devs. \<forall>mp. map_of (mounts_of m) dev = Some mp \<longrightarrow> (\<forall>p\<in>set (GetSubDirs sys w mp). recovered m' p))"
proof (induction devs arbitrary: m)
  case (Cons dev devs)
  have mo: "map_of (mounts_of m) k = map_option disk_MountPoint (map_of (diskQuotaInfos m) k)" for m k
    by (simp add: mounts_of_def map_of_map)
  show ?case
  proof (cases "map_of (diskQuotaInfos m) dev")
    case None
    then show ?thesis using Cons by (simp add: mo)
  next
    case (Some d)
    then obtain m1 where p: "restore_paths sys w dev (GetSubDirs sys w (disk_MountPoint d)) m = Some (None, m1)"
      using Cons.prems(1) by (auto split: option.splits)
    note r = restore_paths_recover [OF p Cons.prems(2)]
    define m2 where "m2 = m1\<lparr>diskQuotaInfos := (case map_of (diskQuotaInfos m1) dev of None \<Rightarrow> diskQuotaInfos m1
        | Some d \<Rightarrow> al_put dev (d\<lparr>disk_lastSync := os_Now sys w\<rparr>) (diskQuotaInfos m1))\<rparr>"
    have rest: "restore_volumes sys w devs m2 = Some (None, m')" using Cons.prems(1) Some p by (simp add: m2_def)
    have "mounts_of m2 = mounts_of m1"
      by (auto simp: m2_def mounts_of_def map_al_put_same split: option.split)
    then have g2: "grows m1 m2" "quotaProvider m2 = quotaProvider m1" by (auto simp: grows_def recovered_def m2_def)
    then have "grows m m2" "\<forall>p\<in>set (GetSubDirs sys w (disk_MountPoint d)). recovered m2 p"
      using r grows_trans [of m m1 m2] by (auto simp: grows_def)
    then show ?thesis
      using Cons.IH [OF rest] r g2(2) Some grows_trans [of m m2 m'] by (auto simp: grows_def mo)
  qed
qed simp

lemma restore_disks_provider:
  "restore_disks sys mps m w = (r, m', w') \<Longrightarrow> quotaProvider m' = quotaProvider m"
proof (induction mps arbitrary: m w)
  case (Cons mp mps)
  then show ?case by (auto split: if_splits sum.splits prod.splits dest!: Cons.IH)
qed simp

lemma cache_agrees_init: "cache_agrees sys w (NewXFSVolumeQuotaProvider ProjectIdStart ProjectIdNum)"
  using prov_inv_New [of ProjectIdStart ProjectIdNum]
  by (simp add: cache_agrees_def NewXFSVolumeQuotaProvider_def ProjectIdStart_def ProjectIdNum_def
      pa_range_def NewAllocator_def Let_def)

lemma restart_recovered:
  assumes "NewXfsQuotaManager sys root w = Some (XFS m, w')" "map_of (diskQuotaInfos m) dev = Some d"
    and "p \<in> set (GetSubDirs sys w' (disk_MountPoint d))"
  shows "recovered m p \<and> cache_agrees sys w' (quotaProvider m)"
proof -
  obtain m0 where m0: "restore_disks sys (GetSubDirs sys w (quotaRootPath (xfs_manager_init root)))
      (xfs_manager_init root) w = (None, m0, w')"
    and v: "restore_volumes sys w' (al_keys (diskQuotaInfos m0)) m0 = Some (None, m)"
    using assms(1) by (auto simp: NewXfsQuotaManager_def restoreQuotaInfo_def
        split: if_splits option.splits prod.splits)
  have "cache_agrees sys w' (quotaProvider m0)"
    using restore_disks_provider [OF m0] cache_agrees_init by (simp add: xfs_manager_init_def)
  note r = restore_volumes_recover [OF v this]
  have "map_of (mounts_of m) dev = Some (disk_MountPoint d)"
    using assms(2) by (simp add: mounts_of_def map_of_map)
  moreover have "mounts_of m = mounts_of m0" using r by (simp add: grows_def)
  ultimately have mo: "map_of (mounts_of m0) dev = Some (disk_MountPoint d)" by simp
  then have "dev \<in> set (al_keys (diskQuotaInfos m0))"
    by (force simp: mounts_of_def dest!: map_of_in_set)
  then show ?thesis using r mo assms(3) by blast
qed

text \<open>
  What is recorded is what was found: a record names a sub-directory of the disk it is booked on, whose
  name parses to the ID of the record.
\<close>

definition found_on :: "'w os \<Rightarrow> 'w \<Rightarrow> (DeviceName \<times> string) list \<Rightarrow> VolumeId \<Rightarrow> PathQuotaInfo \<Rightarrow> bool" where
  "found_on sys w ms vol q \<longleftrightarrow>
     (\<exists>mp. map_of ms (pq_DeviceName q) = Some mp \<and> pq_Path q \<in> set (GetSubDirs sys w mp)) \<and>
     parseQuotaPathInfoFromDirName (pq_Path q) = Some (vol, None) \<and> pq_VolumeId q = vol"

definition records_found :: "'w os \<Rightarrow> 'w \<Rightarrow> (DeviceName \<times> string) list \<Rightarrow> XFSQuotaManager \<Rightarrow> bool" where
  "records_found sys w ms m \<longleftrightarrow> (\<forall>e\<in>set (quotas m). found_on sys w ms (fst e) (snd e))"

lemma records_found_put:
  assumes "records_found sys w ms m" "found_on sys w ms vol q" "quotas m' = al_put vol q (quotas m)"
  shows "records_found sys w ms m'"
  using assms unfolding records_found_def by (auto dest!: set_al_put_subset)

lemma restore_paths_found:
  "restore_paths sys w dev ps m = Some (r, m') \<Longrightarrow> map_of ms dev = Some mp \<Longrightarrow> set ps \<subseteq> set (GetSubDirs sys w mp) \<Longrightarrow>
   records_found sys w ms m \<Longrightarrow> records_found sys w ms m' \<and> mounts_of m' = mounts_of m"
proof (induction ps arbitrary: m)
  case (Cons p ps)
  obtain vol where vol: "parseQuotaPathInfoFromDirName p = Some (vol, None)"
    using Cons.prems(1) parse_no_error [of p] by (auto split: option.splits prod.splits)
  obtain res v where g: "GetProjectQuota sys w p dev (quotaProvider m) = (res, v)" by (metis surj_pair)
  show ?case
  proof (cases res)
    case (Inl err)
    then show ?thesis using Cons.prems(1,4) vol g by (auto simp: records_found_def mounts_of_def)
  next
    case (Inr q)
    let ?q = "\<lparr>pq_Path = p, pq_DeviceName = dev, pq_Quota = q, pq_lastSync = os_Now sys w, pq_VolumeId = vol\<rparr>"
    define m1 where "m1 = m\<lparr>quotaProvider := v,
      diskQuotaInfos := (case map_of (diskQuotaInfos m) dev of None \<Rightarrow> diskQuotaInfos m
         | Some d \<Rightarrow> al_put dev (d\<lparr>disk_QuotaSize := disk_QuotaSize d + HardQuota q\<rparr>) (diskQuotaInfos m)),
      quotas := al_put vol ?q (quotas m)\<rparr>"
    have rest: "restore_paths sys w dev ps m1 = Some (r, m')" using Cons.prems(1) vol g Inr by (simp add: m1_def)
    have "found_on sys w ms vol ?q" using Cons.prems(2,3) vol by (simp add: found_on_def)
    then have "records_found sys w ms m1" by (rule records_found_put [OF Cons.prems(4)]) (simp add: m1_def)
    moreover have "mounts_of m1 = mounts_of m"
      by (auto simp: m1_def mounts_of_def map_al_put_same split: option.split)
    ultimately show ?thesis using Cons.IH [OF rest Cons.prems(2)] Cons.prems(3) by simp
  qed
qed simp

lemma restore_volumes_found:
  "restore_volumes sys w devs m = Some (r, m') \<Longrightarrow> records_found sys w (mounts_of m) m \<Longrightarrow>
   records_found sys w (mounts_of m) m' \<and> mounts_of m' = mounts_of m"
proof (induction devs arbitrary: m)
  case (Cons dev devs)
  show ?case
  proof (cases "map_of (diskQuotaInfos m) dev")
    case None
    then show ?thesis using Cons by simp
  next
    case (Some d)
    then obtain e m1 where p: "restore_paths sys w dev (GetSubDirs sys w (disk_MountPoint d)) m = Some (e, m1)"
      using Cons.prems(1) by (auto split: option.splits)
    have "map_of (mounts_of m) dev = Some (disk_MountPoint d)" using Some by (simp add: mounts_of_def map_of_map)
    note f = restore_paths_found [OF p this subset_refl Cons.prems(2)]
    show ?thesis
    proof (cases e)
      case None
      define m2 where "m2 = m1\<lparr>diskQuotaInfos := (case map_of (diskQuotaInfos m1) dev of None \<Rightarrow> diskQuotaInfos m1
          | Some d \<Rightarrow> al_put dev (d\<lparr>disk_lastSync := os_Now sys w\<rparr>) (diskQuotaInfos m1))\<rparr>"
      have rest: "restore_volumes sys w devs m2 = Some (r, m')" using Cons.prems(1) Some p None by (simp add: m2_def)
      have "mounts_of m2 = mounts_of m1"
        by (auto simp: m2_def mounts_of_def map_al_put_same split: option.split)
      moreover have "records_found sys w (mounts_of m) m2" using f by (simp add: records_found_def m2_def)
      ultimately show ?thesis using Cons.IH [OF rest] f by simp
    next
      case (Some err)
      then show ?thesis using Cons.prems(1) \<open>map_of (diskQuotaInfos m) dev = Some d\<close> p f by simp
    qed
  qed
qed simp

lemma restore_disks_quotas: "restore_disks sys mps m w = (r, m', w') \<Longrightarrow> quotas m' = quotas m"
proof (induction mps arbitrary: m w)
  case (Cons mp mps)
  then show ?case by (auto split: if_splits sum.splits prod.splits dest!: Cons.IH)
qed simp

lemma restart_found:
  assumes "NewXfsQuotaManager sys root w = Some (XFS m, w')" "map_of (quotas m) vol = Some q"
  shows "found_on sys w' (mounts_of m) vol q"
proof -
  obtain m0 where m0: "restore_disks sys (GetSubDirs sys w (quotaRootPath (xfs_manager_init root)))
      (xfs_manager_init root) w = (None, m0, w')"
    and v: "restore_volumes sys w' (al_keys (diskQuotaInfos m0)) m0 = Some (None, m)"
    using assms(1) by (auto simp: NewXfsQuotaManager_def restoreQuotaInfo_def
        split: if_splits option.splits prod.splits)
  have "quotas m0 = []" using restore_disks_quotas [OF m0] by (simp add: xfs_manager_init_def)
  then have "records_found sys w' (mounts_of m0) m0" by (simp add: records_found_def)
  from restore_volumes_found [OF v this] show ?thesis
    using map_of_SomeD [OF assms(2)] by (force simp: records_found_def)
qed

text \<open>
  C22. A restart loses no volume and mistakes none for another: when the manager comes up, every
  sub-directory of every disk it loaded stands for a volume ID, under which a directory is recorded, and
  which a later publish of that volume finds. The recorded directory is a sub-directory of the disk the
  record is booked on, and its own name stands for the same ID; so it is the very sub-directory, unless
  another one on the loaded disks has the same name.
\<close>

theorem restart_recovers_volumes:
  assumes "NewXfsQuotaManager sys root w = Some (XFS m, w')" "map_of (diskQuotaInfos m) dev = Some d"
    and "p \<in> set (GetSubDirs sys w' (disk_MountPoint d))"
  shows "\<exists>vol q d'. parseQuotaPathInfoFromDirName p = Some (vol, None) \<and>
    map_of (quotas m) vol = Some q \<and> pq_VolumeId q = vol \<and>
    (\<forall>c. qm_GetVolumeQuotaPath sys vol c (XFS m, w') = (Inr (pq_Path q), XFS m, w')) \<and>
    map_of (diskQuotaInfos m) (pq_DeviceName q) = Some d' \<and> pq_Path q \<in> set (GetSubDirs sys w' (disk_MountPoint d')) \<and>
    parseQuotaPathInfoFromDirName (pq_Path q) = Some (vol, None) \<and>
    (pq_Path q = p \<or> (\<exists>e\<in>set (diskQuotaInfos m). \<exists>p'\<in>set (GetSubDirs sys w' (disk_MountPoint (snd e))).
       p' \<noteq> p \<and> parseQuotaPathInfoFromDirName p' = Some (vol, None)))"
proof -
  from restart_recovered [OF assms] obtain vol where vol: "parseQuotaPathInfoFromDirName p = Some (vol, None)"
    "vol \<in> fst ` set (quotas m)" by (auto simp: recovered_def)
  then obtain q where q: "map_of (quotas m) vol = Some q"
    using map_of_None_key [of "quotas m" vol] by (cases "map_of (quotas m) vol") auto
  note f = restart_found [OF assms(1) q, unfolded found_on_def]
  then obtain d' where d': "map_of (diskQuotaInfos m) (pq_DeviceName q) = Some d'"
    "pq_Path q \<in> set (GetSubDirs sys w' (disk_MountPoint d'))"
    by (auto simp: mounts_of_def map_of_map)
  have "pq_Path q = p \<or> (\<exists>e\<in>set (diskQuotaInfos m). \<exists>p'\<in>set (GetSubDirs sys w' (disk_MountPoint (snd e))).
       p' \<noteq> p \<and> parseQuotaPathInfoFromDirName p' = Some (vol, None))"
    using f d'(2) map_of_SomeD [OF d'(1)] by (metis snd_conv)
  moreover have "qm_GetVolumeQuotaPath sys vol c (XFS m, w') = (Inr (pq_Path q), XFS m, w')" for c
    using q by (intro qm.get_found) (simp add: xq_path_def)
  ultimately show ?thesis using vol(1) q f d' by blast
qed

theorem restart_recovers_volumes_witness:
  "\<exists>m w'. NewXfsQuotaManager mem_os ''/xfs'' mem1 = Some (XFS m, w') \<and>
     qm_GetVolumeQuotaPath mem_os ''v1'' 4096 (XFS m, w') = (Inr ''/xfs/d2/k8squota_v1'', XFS m, w')"
proof -
  have "map_of (diskQuotaInfos restored1) ''/dev/sdc'' =
      Some ((disk0 ''/dev/sdc'' ''/xfs/d2'' 2147483648)\<lparr>disk_QuotaSize := 1610612736\<rparr>)"
    by (simp add: restored1_def)
  from restart_recovers_volumes [OF mem1_restart this, of "''/xfs/d2/k8squota_v1''"]
  have "qm_GetVolumeQuotaPath mem_os ''v1'' 4096 (XFS restored1, mem1) = (Inr ''/xfs/d2/k8squota_v1'', XFS restored1, mem1)"
    by (auto simp: restored1_def disk0_def)
  then show ?thesis using mem1_restart by blast
qed

text \<open>
  A foreign directory keeps the manager from starting: when it comes up, every sub-directory of
  every disk carries a project ID of the plugin's own range 1000000 to 1004999, the ones without the
  name prefix included. So one ordinary directory (project ID 0) on one disk leaves the node with
  the stub that refuses every volume, although the code means to skip such directories.
\<close>

lemma restart_needs_project_ids:
  assumes "NewXfsQuotaManager sys root w = Some (XFS m, w')" "map_of (diskQuotaInfos m) dev = Some d"
    and "p \<in> set (GetSubDirs sys w' (disk_MountPoint d))"
  shows "\<exists>i. getProjectId sys w' p = Inr i \<and> 1000000 \<le> uint i \<and> uint i < 1005000"
proof -
  from restart_recovered [OF assms] obtain i where "quotaPathAndId (quotaProvider m) p = Some i"
    and "cache_agrees sys w' (quotaProvider m)" by (auto simp: recovered_def)
  then show ?thesis using cache_agrees_id [of sys w' "quotaProvider m" p i] by (intro exI [of _ i]) simp
qed

text \<open>
  A directory named exactly like the prefix crashes the plugin at start-up: the slice behind the
  prefix and its underscore starts one past the end of the name.
\<close>

lemma bare_prefix_panics:
  "parseQuotaPathInfoFromDirName (''/xfs/d1/'' @ XfsQuotaDirPrefix) = None \<and>
   restore_paths sys w dev (''/xfs/d1/k8squota'' # ps) m = None"
proof -
  have "parseQuotaPathInfoFromDirName (''/xfs/d1/'' @ XfsQuotaDirPrefix) = None" by code_simp
  then show ?thesis by (simp add: XfsQuotaDirPrefix_def)
qed

end
