(* ===== verification/Go_Encoding.thy ===== *)
theory Go_Encoding
  imports Go_Strings
begin

text \<open>
  The encodings the client uses for annotations: \<open>base64.StdEncoding\<close> of encoding/base64, and the
  replacer of client.go that escapes an annotation key into a JSON pointer (RFC 6901).
\<close>

section \<open>base64\<close>

definition encodeStd :: string where
  "encodeStd = ''ABCDEFGHIJKLMNOPQRSTUVWXYZabcdefghijklmnopqrstuvwxyz0123456789+/''"

text \<open>Bytes as numbers below 256; three bytes are four digits of six bits.\<close>

definition b64_digit :: "nat \<Rightarrow> char" where
  "b64_digit n = encodeStd ! (n mod 64)"

fun b64_encode :: "nat list \<Rightarrow> string" where
  "b64_encode [] = []"
| "b64_encode [a] = [b64_digit (a div 4), b64_digit (a mod 4 * 16), CHR ''='', CHR ''='']"
| "b64_encode [a, b] =
     [b64_digit (a div 4), b64_digit (a mod 4 * 16 + b div 16), b64_digit (b mod 16 * 4), CHR ''='']"
| "b64_encode (a # b # c # rest) =
     b64_digit (a div 4) # b64_digit (a mod 4 * 16 + b div 16) # b64_digit (b mod 16 * 4 + c div 64) #
     b64_digit (c mod 64) # b64_encode rest"

text \<open>\<open>decodeMap\<close>: the value of a digit.\<close>

definition b64_value :: "char \<Rightarrow> nat option" where
  "b64_value c =
     (let n = of_char c :: nat
      in if 65 \<le> n \<and> n \<le> 90 then Some (n - 65)
         else if 97 \<le> n \<and> n \<le> 122 then Some (n - 97 + 26)
         else if 48 \<le> n \<and> n \<le> 57 then Some (n - 48 + 52)
         else if n = 43 then Some 62 else if n = 47 then Some 63 else None)"

text \<open>
  \<open>DecodeString\<close>, after line ends were dropped: the decoded bytes and whether the input was
  correct. On a corrupt input the bytes of the complete groups before it are returned as well.
\<close>

fun b64_decode_loop :: "string \<Rightarrow> nat list \<times> bool" where
  "b64_decode_loop [] = ([], True)"
| "b64_decode_loop (p # q # r # s # rest) =
     (case (b64_value p, b64_value q) of
        (Some a, Some b) \<Rightarrow>
          if r = CHR ''='' then
            (if s = CHR ''='' \<and> rest = [] then ([a * 4 + b div 16], True) else ([], False))
          else (case b64_value r of
                  None \<Rightarrow> ([], False)
                | Some c \<Rightarrow>
                    if s = CHR ''='' then
                      (if rest = [] then ([a * 4 + b div 16, b mod 16 * 16 + c div 4], True) else ([], False))
                    else (case b64_value s of
                            None \<Rightarrow> ([], False)
                          | Some d \<Rightarrow>
                              (case b64_decode_loop rest of
                                 (bs, ok) \<Rightarrow>
                                   ((a * 4 + b div 16) # (b mod 16 * 16 + c div 4) # (c mod 4 * 64 + d) # bs, ok))))
      | _ \<Rightarrow> ([], False))"
| "b64_decode_loop _ = ([], False)"

definition EncodeToString :: "string \<Rightarrow> string" where
  "EncodeToString s = b64_encode (map of_char s)"

definition DecodeString :: "string \<Rightarrow> string \<times> bool" where
  "DecodeString s =
     (case b64_decode_loop (filter (\<lambda>c. c \<noteq> CHR 0x0A \<and> c \<noteq> CHR 0x0D) s) of
        (bs, ok) \<Rightarrow> (map char_of bs, ok))"

section \<open>rfc6901Encoder\<close>

definition rfc6901Encoder :: "string \<Rightarrow> string" where
  "rfc6901Encoder s =
     concat (map (\<lambda>c. if c = CHR ''~'' then ''~0'' else if c = CHR ''/'' then ''~1'' else [c]) s)"

text \<open>How RFC 6901 reads a reference token: first \<open>~1\<close> then \<open>~0\<close>, which is one pass over the escapes.\<close>

fun pointer_unescape :: "string \<Rightarrow> string" where
  "pointer_unescape [] = []"
| "pointer_unescape [c] = [c]"
| "pointer_unescape (c # d # s) =
     (if c = CHR ''~'' \<and> d = CHR ''1'' then CHR ''/'' # pointer_unescape s
      else if c = CHR ''~'' \<and> d = CHR ''0'' then CHR ''~'' # pointer_unescape s
      else c # pointer_unescape (d # s))"

section \<open>Round trips\<close>

lemma b64_value_digit [simp]: "b64_value (b64_digit n) = Some (n mod 64)"
proof -
  have "\<forall>n\<in>set [0..<64]. b64_value (encodeStd ! n) = Some n"
    by (simp add: upt_rec encodeStd_def b64_value_def Let_def)
  moreover have "n mod 64 \<in> set [0..<64]" by simp
  ultimately have "b64_value (encodeStd ! (n mod 64)) = Some (n mod 64)" by (rule bspec)
  then show ?thesis by (simp add: b64_digit_def)
qed

lemma b64_digit_plain: "b64_digit n \<noteq> CHR ''='' \<and> b64_digit n \<noteq> CHR 0x0A \<and> b64_digit n \<noteq> CHR 0x0D"
proof -
  have "\<forall>n\<in>set [0..<64]. encodeStd ! n \<noteq> CHR ''='' \<and> encodeStd ! n \<noteq> CHR 0x0A \<and> encodeStd ! n \<noteq> CHR 0x0D"
    by code_simp
  moreover have "n mod 64 \<in> set [0..<64]" by simp
  ultimately have "encodeStd ! (n mod 64) \<noteq> CHR ''='' \<and> encodeStd ! (n mod 64) \<noteq> CHR 0x0A \<and> encodeStd ! (n mod 64) \<noteq> CHR 0x0D"
    by (rule bspec)
  then show ?thesis by (simp add: b64_digit_def)
qed

lemma six_bits [simp]:
  fixes x y :: nat
  shows "x < 4 \<Longrightarrow> y < 16 \<Longrightarrow> (x * 16 + y) mod 64 = x * 16 + y" "y < 16 \<Longrightarrow> (x * 16 + y) div 16 = x"
    "y < 16 \<Longrightarrow> (x * 16 + y) mod 16 = y" "x < 16 \<Longrightarrow> y < 4 \<Longrightarrow> (x * 4 + y) mod 64 = x * 4 + y"
    "y < 4 \<Longrightarrow> (x * 4 + y) div 4 = x" "y < 4 \<Longrightarrow> (x * 4 + y) mod 4 = y"
  by simp_all

lemma byte_digits [simp]:
  fixes a :: nat
  assumes "a < 256"
  shows "a div 4 mod 64 = a div 4" "a div 16 < 16" "a div 64 < 4" "a div 4 < 64"
  using assms by simp_all

lemma b64_decode_encode: "\<forall>b\<in>set bs. b < 256 \<Longrightarrow> b64_decode_loop (b64_encode bs) = (bs, True)"
proof (induction bs rule: b64_encode.induct)
  case (2 a)
  then show ?case using six_bits(1) [of "a mod 4" 0] by (simp add: b64_digit_plain)
next
  case (3 a b)
  then show ?case using six_bits(4) [of "b mod 16" 0] by (simp add: b64_digit_plain)
next
  case (4 a b c rest)
  then show ?case by (simp add: b64_digit_plain)
qed simp

lemma b64_encode_lines: "c \<in> set (b64_encode bs) \<Longrightarrow> c \<noteq> CHR 0x0A \<and> c \<noteq> CHR 0x0D"
  by (induction bs rule: b64_encode.induct) (auto simp: b64_digit_plain)

lemma DecodeString_EncodeToString [simp]: "DecodeString (EncodeToString s) = (s, True)"
proof -
  have "filter (\<lambda>c. c \<noteq> CHR 0x0A \<and> c \<noteq> CHR 0x0D) (EncodeToString s) = EncodeToString s"
    using b64_encode_lines by (auto simp: EncodeToString_def filter_id_conv)
  moreover have "\<forall>b\<in>set (map of_char s). (b :: nat) < 256" by auto
  ultimately show ?thesis
    by (simp add: DecodeString_def b64_decode_encode EncodeToString_def map_idI comp_def)
qed

lemma EncodeToString_empty [simp]: "EncodeToString s = '''' \<longleftrightarrow> s = ''''"
proof -
  have "b64_encode bs = [] \<longleftrightarrow> bs = []" for bs by (cases bs rule: b64_encode.cases) auto
  then show ?thesis by (simp add: EncodeToString_def)
qed

lemma pointer_unescape_plain: "c \<noteq> CHR ''~'' \<Longrightarrow> pointer_unescape (c # s) = c # pointer_unescape s"
  by (cases s) auto

lemma pointer_roundtrip: "pointer_unescape (rfc6901Encoder s) = s"
  by (induction s) (auto simp: rfc6901Encoder_def pointer_unescape_plain)

end
