(* ===== verification/Host_Path_Client.thy ===== *)
theory Host_Path_Client
  imports Go_Encoding Go_Sort Vol_Id Meta_Store "HOL-Library.List_Lexorder" "HOL-Library.Char_ord"
begin

text \<open>
  The Kubernetes client of the plugin, pkg/hostpathclient/: the published data (types.go, const.go),
  the stripped-down volumes, nodes and pods (persistentVolume.go, node.go, pod.go) and the client
  (client.go). The API server is the parameter \<open>kube\<close> over a type \<open>'k\<close> of cluster states. JSON
  marshalling of the two published structures is the parameter \<open>json\<close>; what the theorems rely on is
  that unmarshalling inverts it.
\<close>

section \<open>types.go\<close>

record PVUsageInfo =
  ui_NodeName :: string
  ui_Path :: string
  ui_Capacity :: int
  ui_Used :: int

record DiskInfo =
  di_MountPoint :: string
  di_Capacity :: int
  di_QuotaSize :: int
  di_Used :: int
  di_Allocatable :: int
  di_Disabled :: bool

record NodeUsageInfo =
  nu_Capacity :: int
  nu_QuotaSize :: int
  nu_Used :: int
  nu_AvailableSize :: int
  nu_Allocatable :: int
  nu_DiskStatus :: "DiskInfo list"

definition DiskInfoList_Less :: "DiskInfo \<Rightarrow> DiskInfo \<Rightarrow> bool" where
  "DiskInfoList_Less a b =
     (if di_Allocatable a \<noteq> di_Allocatable b then di_Allocatable a > di_Allocatable b
      else di_MountPoint a < di_MountPoint b)"

definition zero_PVUsageInfo :: PVUsageInfo where
  "zero_PVUsageInfo = \<lparr>ui_NodeName = '''', ui_Path = '''', ui_Capacity = 0, ui_Used = 0\<rparr>"

definition zero_NodeUsageInfo :: NodeUsageInfo where
  "zero_NodeUsageInfo = \<lparr>nu_Capacity = 0, nu_QuotaSize = 0, nu_Used = 0, nu_AvailableSize = 0,
     nu_Allocatable = 0, nu_DiskStatus = []\<rparr>"

section \<open>const.go\<close>

definition HostPathCsiDriverName :: string where "HostPathCsiDriverName = ''xfsquota.hostpath.csi''"

definition HostPathPvNodeLabelKey :: string where "HostPathPvNodeLabelKey = ''node-role.kubernetes.io/hostpath''"

definition NodeDiskQuotaInfoAnn :: string where
  "NodeDiskQuotaInfoAnn = ''storage.hostpathpv.kubelet/quota-disk-info''"

definition NodeDiskQuotaDisabledDisksAnn :: string where
  "NodeDiskQuotaDisabledDisksAnn = ''storage.hostpathpv.kubelet/disable-disks''"

definition HostPathPVUsageInfoAnn :: string where
  "HostPathPVUsageInfoAnn = ''storage.hostpathpv.volume/allocate''"

definition HostPathPvBindInfoAnn :: string where
  "HostPathPvBindInfoAnn = ''storage.hostpathpv.volume/bind-node''"

section \<open>The API objects, the API and JSON\<close>

text \<open>\<open>cp_ClaimRef\<close> is (name, namespace), \<open>cp_CSI\<close> is (driver, volume handle); \<open>None\<close> is a nil pointer.\<close>

record CorePV =
  cp_Name :: string
  cp_Namespace :: string
  cp_Version :: string
  cp_Phase :: string
  cp_ClaimRef :: "(string \<times> string) option"
  cp_CSI :: "(string \<times> string) option"
  cp_Capacity :: int
  cp_Annotations :: "string \<rightharpoonup> string"

record CoreNode =
  cn_Name :: string
  cn_Namespace :: string
  cn_Version :: string
  cn_Labels :: "string \<rightharpoonup> string"
  cn_Annotations :: "string \<rightharpoonup> string"
  cn_Conditions :: "(string \<times> string) list"

text \<open>\<open>pod_Volumes\<close>: per volume of the pod, the claim it uses, if it is a claim.\<close>

record CorePod =
  pod_UID :: string
  pod_Name :: string
  pod_Namespace :: string
  pod_Version :: string
  pod_Volumes :: "string option list"

record 'k kube =
  pv_Get :: "'k \<Rightarrow> string \<Rightarrow> apierr + CorePV"
  node_Get :: "'k \<Rightarrow> string \<Rightarrow> apierr + CoreNode"
  pv_Patch :: "string \<Rightarrow> string \<Rightarrow> 'k \<Rightarrow> apierr option \<times> 'k"
  node_Patch :: "string \<Rightarrow> string \<Rightarrow> 'k \<Rightarrow> apierr option \<times> 'k"
  pod_Bind :: "string \<times> string \<times> string \<Rightarrow> string \<Rightarrow> 'k \<Rightarrow> apierr option \<times> 'k"

record json =
  Marshal_pv :: "PVUsageInfo \<Rightarrow> string"
  Unmarshal_pv :: "string \<Rightarrow> PVUsageInfo option"
  Marshal_node :: "NodeUsageInfo \<Rightarrow> string"
  Unmarshal_node :: "string \<Rightarrow> NodeUsageInfo option"

text \<open>Unmarshalling inverts marshalling, and no document is empty.\<close>

definition json_node_ok :: "json \<Rightarrow> NodeUsageInfo \<Rightarrow> bool" where
  "json_node_ok js x \<longleftrightarrow> Unmarshal_node js (Marshal_node js x) = Some x \<and> Marshal_node js x \<noteq> ''''"

text \<open>Reading a missing annotation gives the empty string.\<close>

definition annotation :: "(string \<rightharpoonup> string) \<Rightarrow> string \<Rightarrow> string" where
  "annotation m k = (case m k of None \<Rightarrow> '''' | Some v \<Rightarrow> v)"

text \<open>
  The JSON patch each of the four builders writes: one operation that adds an annotation. The
  double quote is written as its code.
\<close>

definition annotation_patch :: "string \<Rightarrow> string \<Rightarrow> string" where
  "annotation_patch key val =
     (let q = [CHR 0x22]
      in ''[{'' @ q @ ''op'' @ q @ '':'' @ q @ ''add'' @ q @ '','' @ q @ ''path'' @ q @ '':'' @ q @
         ''/metadata/annotations/'' @ rfc6901Encoder key @ q @ '','' @ q @ ''value'' @ q @ '': '' @ q @ val @ q @ ''}]'')"

section \<open>persistentVolume.go\<close>

record PersistentVolume =
  hpv_version :: string
  hpv_name :: string
  hpv_namespace :: string
  hpv_index :: string
  hpv_volId :: string
  hpv_isHostPathPv :: bool
  hpv_bindNode :: string
  hpv_ephemeral :: bool
  hpv_capacity :: int
  hpv_volumePath :: string
  hpv_usage :: int

definition PersistentVolumeKey :: "string \<Rightarrow> string \<Rightarrow> string" where
  "PersistentVolumeKey claimName claimNamespace = claimNamespace @ ''/'' @ claimName"

definition isHostPathPV :: "CorePV \<Rightarrow> bool" where
  "isHostPathPV pv = (case cp_CSI pv of Some (driver, _) \<Rightarrow> driver = HostPathCsiDriverName | None \<Rightarrow> False)"

text \<open>The outer \<open>None\<close> is a nil dereference or the panic of the decoder.\<close>

definition isEphemeral :: "CorePV \<Rightarrow> bool option" where
  "isEphemeral pv =
     (case cp_CSI pv of
        None \<Rightarrow> None
      | Some (_, handle) \<Rightarrow>
          (case DecomposeCSIID zero_CSIIdentifier handle of
             None \<Rightarrow> None
           | Some (vi, None) \<Rightarrow> Some (Ephemeral vi)
           | Some (vi, Some _) \<Rightarrow> Some False))"

definition getHostPathPVCapacity :: "CorePV \<Rightarrow> int" where
  "getHostPathPVCapacity pv = cp_Capacity pv"

definition getHostPathPVBindNode :: "CorePV \<Rightarrow> string" where
  "getHostPathPVBindNode pv = annotation (cp_Annotations pv) HostPathPvBindInfoAnn"

definition getHostPathPVBindNodePatchBytes :: "string \<Rightarrow> string" where
  "getHostPathPVBindNodePatchBytes nodeName = annotation_patch HostPathPvBindInfoAnn nodeName"

text \<open>\<open>None\<close> is an error of the decoders.\<close>

definition getHostPathPVUsageInfo :: "json \<Rightarrow> CorePV \<Rightarrow> PVUsageInfo option" where
  "getHostPathPVUsageInfo js pv =
     (let ann = annotation (cp_Annotations pv) HostPathPVUsageInfoAnn
      in if length ann > 0 then
           (case DecodeString ann of
              (_, False) \<Rightarrow> None
            | (decoded, True) \<Rightarrow> Unmarshal_pv js decoded)
         else Some zero_PVUsageInfo)"

text \<open>The conversion, which has no check of the phase; \<open>None\<close> is a nil dereference.\<close>

definition ToHostPathVolume :: "json \<Rightarrow> CorePV \<Rightarrow> PersistentVolume option" where
  "ToHostPathVolume js pv =
     (case (cp_ClaimRef pv, cp_CSI pv) of
        (Some (claim, ns), Some (driver, handle)) \<Rightarrow>
          (let hpv = \<lparr>hpv_version = cp_Version pv, hpv_name = cp_Name pv, hpv_namespace = cp_Namespace pv,
                      hpv_index = PersistentVolumeKey claim ns, hpv_volId = handle,
                      hpv_isHostPathPv = isHostPathPV pv, hpv_bindNode = '''', hpv_ephemeral = False,
                      hpv_capacity = 0, hpv_volumePath = '''', hpv_usage = 0\<rparr>
           in if \<not> hpv_isHostPathPv hpv then Some hpv
              else case isEphemeral pv of
                     None \<Rightarrow> None
                   | Some eph \<Rightarrow>
                       (let hpv = hpv\<lparr>hpv_bindNode := getHostPathPVBindNode pv, hpv_ephemeral := eph,
                                      hpv_capacity := getHostPathPVCapacity pv\<rparr>
                        in case getHostPathPVUsageInfo js pv of
                             None \<Rightarrow> Some hpv
                           | Some usageInfo \<Rightarrow>
                               Some (hpv\<lparr>hpv_volumePath := ui_Path usageInfo, hpv_usage := ui_Used usageInfo\<rparr>)))
      | _ \<Rightarrow> None)"

text \<open>
  The conversions for the cache also clear the object of the API server, in place: they return it next to
  the converted one.
\<close>

definition zero_CorePV :: CorePV where
  "zero_CorePV = \<lparr>cp_Name = [], cp_Namespace = [], cp_Version = [], cp_Phase = [], cp_ClaimRef = None,
     cp_CSI = None, cp_Capacity = 0, cp_Annotations = Map.empty\<rparr>"

definition toPersistentVolume :: "json \<Rightarrow> CorePV \<Rightarrow> (PersistentVolume \<times> CorePV) option" where
  "toPersistentVolume js pv = map_option (\<lambda>hpv. (hpv, zero_CorePV)) (ToHostPathVolume js pv)"

text \<open>The conversion of the informer: an unbound volume is an error (\<open>Inl\<close>), a panic is \<open>None\<close>.\<close>

definition ToPersistentVolume :: "json \<Rightarrow> CorePV \<Rightarrow> (string + PersistentVolume) option" where
  "ToPersistentVolume js pv =
     (if cp_Phase pv \<noteq> ''Bound'' then Some (Inl (cp_Name pv))
      else map_option (\<lambda>c. Inr (fst c)) (toPersistentVolume js pv))"

definition getHostPathPVUsageInfoPatchBytes :: "json \<Rightarrow> PersistentVolume \<Rightarrow> string" where
  "getHostPathPVUsageInfoPatchBytes js hpv =
     (let usageInfo = \<lparr>ui_NodeName = hpv_bindNode hpv, ui_Path = hpv_volumePath hpv,
                       ui_Capacity = hpv_capacity hpv, ui_Used = hpv_usage hpv\<rparr>
      in annotation_patch HostPathPVUsageInfoAnn (EncodeToString (Marshal_pv js usageInfo)))"

definition pv_DeepCopyObject :: "PersistentVolume \<Rightarrow> PersistentVolume" where
  "pv_DeepCopyObject p = p\<lparr>hpv_isHostPathPv := False\<rparr>"

text \<open>\<open>SetUsage\<close> and \<open>GetUsage\<close> convert between \<open>uint64\<close> and \<open>int64\<close>.\<close>

definition hpv_SetUsage :: "u64 \<Rightarrow> PersistentVolume \<Rightarrow> PersistentVolume" where
  "hpv_SetUsage usage p = p\<lparr>hpv_usage := i64_of_u64 usage\<rparr>"

definition hpv_GetUsage :: "PersistentVolume \<Rightarrow> u64" where
  "hpv_GetUsage p = u64_of_i64 (hpv_usage p)"

section \<open>node.go\<close>

record Node =
  hn_version :: string
  hn_name :: string
  hn_namespace :: string
  hn_hostPathNode :: bool
  hn_diskUsage :: NodeUsageInfo
  hn_disabledDisk :: "string list"
  hn_ready :: string

definition IsHostPathNode :: "CoreNode \<Rightarrow> bool" where
  "IsHostPathNode node = (cn_Labels node HostPathPvNodeLabelKey \<noteq> None)"

definition getNodeHostPathUsageInfo :: "json \<Rightarrow> CoreNode \<Rightarrow> NodeUsageInfo option" where
  "getNodeHostPathUsageInfo js node =
     (let ann = annotation (cn_Annotations node) NodeDiskQuotaInfoAnn
      in if length ann > 0 then
           (case DecodeString ann of
              (_, False) \<Rightarrow> None
            | (decoded, True) \<Rightarrow> Unmarshal_node js decoded)
         else Some zero_NodeUsageInfo)"

definition getNodeHostPathUsageInfoPatchBytes :: "json \<Rightarrow> NodeUsageInfo \<Rightarrow> string" where
  "getNodeHostPathUsageInfoPatchBytes js nodeUsage =
     annotation_patch NodeDiskQuotaInfoAnn (EncodeToString (Marshal_node js nodeUsage))"

definition getNodeReadyStatus :: "(string \<times> string) list \<Rightarrow> string" where
  "getNodeReadyStatus conditions =
     (case find (\<lambda>(ty, _). ty = ''Ready'') conditions of
        Some (_, st) \<Rightarrow> if st = ''True'' then ''Ready'' else ''unReady''
      | None \<Rightarrow> ''unReady'')"

text \<open>
  The set of disabled disks, a Go map that is ranged over later: a list without duplicates, in the
  order of the iteration. What could be decoded is used even when the decoder reports an error.
\<close>

definition getNodeHostPathDisabledDisks :: "CoreNode \<Rightarrow> string list" where
  "getNodeHostPathDisabledDisks node =
     (let ann = annotation (cn_Annotations node) NodeDiskQuotaDisabledDisksAnn
      in if length ann > 0 then remdups (split_on CHR '','' (fst (DecodeString ann))) else [])"

definition getNodeHostPathDisabledDisksPatchBytes :: "CoreNode \<Rightarrow> string \<Rightarrow> bool \<Rightarrow> string" where
  "getNodeHostPathDisabledDisksPatchBytes node diskPath enable =
     (let disks = getNodeHostPathDisabledDisks node;
          diskSlice = (if enable then filter (\<lambda>k. k \<noteq> diskPath) disks
                       else if diskPath \<in> set disks then disks else disks @ [diskPath])
      in annotation_patch NodeDiskQuotaDisabledDisksAnn (EncodeToString (join_with '','' diskSlice)))"

definition ToHostPathNode :: "json \<Rightarrow> CoreNode \<Rightarrow> Node" where
  "ToHostPathNode js node =
     (let n = \<lparr>hn_version = cn_Version node, hn_name = cn_Name node, hn_namespace = cn_Namespace node,
               hn_hostPathNode = IsHostPathNode node, hn_diskUsage = zero_NodeUsageInfo,
               hn_disabledDisk = [], hn_ready = getNodeReadyStatus (cn_Conditions node)\<rparr>
      in if hn_hostPathNode n then
           (let n = n\<lparr>hn_disabledDisk := getNodeHostPathDisabledDisks node\<rparr>
            in case getNodeHostPathUsageInfo js node of
                 Some nodeUsage \<Rightarrow> n\<lparr>hn_diskUsage := nodeUsage\<rparr>
               | None \<Rightarrow> n)
         else n)"

text \<open>The conversion of the informer leaves the ready state empty.\<close>

definition zero_CoreNode :: CoreNode where
  "zero_CoreNode = \<lparr>cn_Name = [], cn_Namespace = [], cn_Version = [], cn_Labels = Map.empty,
     cn_Annotations = Map.empty, cn_Conditions = []\<rparr>"

definition toHostPathNode :: "json \<Rightarrow> CoreNode \<Rightarrow> Node \<times> CoreNode" where
  "toHostPathNode js node = ((ToHostPathNode js node)\<lparr>hn_ready := ''''\<rparr>, zero_CoreNode)"

definition node_DeepCopyObject :: "Node \<Rightarrow> Node" where
  "node_DeepCopyObject h = h\<lparr>hn_hostPathNode := False, hn_disabledDisk := [], hn_ready := ''''\<rparr>"

section \<open>pod.go\<close>

record Pod =
  hp_UID :: string
  hp_version :: string
  hp_name :: string
  hp_namespace :: string
  hp_pvClaims :: "string list"

definition zero_CorePod :: CorePod where
  "zero_CorePod = \<lparr>pod_UID = [], pod_Name = [], pod_Namespace = [], pod_Version = [], pod_Volumes = []\<rparr>"

definition toPod :: "CorePod \<Rightarrow> Pod \<times> CorePod" where
  "toPod pod = (\<lparr>hp_UID = pod_UID pod, hp_version = pod_Version pod, hp_name = pod_Name pod,
     hp_namespace = pod_Namespace pod, hp_pvClaims = List.map_filter id (pod_Volumes pod)\<rparr>, zero_CorePod)"

definition pod_DeepCopyObject :: "Pod \<Rightarrow> Pod" where
  "pod_DeepCopyObject p = p\<lparr>hp_UID := ''''\<rparr>"

section \<open>client.go\<close>

text \<open>A volume that is not found or whose ID does not parse is \<open>Some None\<close>; a panic is \<open>None\<close>.\<close>

definition GetHostPathPVByVolumeId :: "'k kube \<Rightarrow> json \<Rightarrow> 'k \<Rightarrow> string \<Rightarrow> PersistentVolume option option" where
  "GetHostPathPVByVolumeId api js k volumeId =
     (case DecomposeCSIID zero_CSIIdentifier volumeId of
        None \<Rightarrow> None
      | Some (_, Some _) \<Rightarrow> Some None
      | Some (vi, None) \<Rightarrow>
          (case pv_Get api k (VolumeName vi) of
             Inl _ \<Rightarrow> Some None
           | Inr pv \<Rightarrow> map_option (\<lambda>c. Some (fst c)) (toPersistentVolume js pv)))"

definition GetNodeByName :: "'k kube \<Rightarrow> json \<Rightarrow> 'k \<Rightarrow> string \<Rightarrow> apierr + Node" where
  "GetNodeByName api js k name = map_sum id (ToHostPathNode js) (node_Get api k name)"

definition UpdateHostPathPVUsageInfo ::
    "'k kube \<Rightarrow> json \<Rightarrow> string \<Rightarrow> PersistentVolume \<Rightarrow> 'k \<Rightarrow> apierr option \<times> 'k" where
  "UpdateHostPathPVUsageInfo api js pvName hpv k = pv_Patch api pvName (getHostPathPVUsageInfoPatchBytes js hpv) k"

definition UpdateNodeHostPathPVUsageInfo ::
    "'k kube \<Rightarrow> json \<Rightarrow> string \<Rightarrow> NodeUsageInfo \<Rightarrow> 'k \<Rightarrow> apierr option \<times> 'k" where
  "UpdateNodeHostPathPVUsageInfo api js nodeName nodeQuotaInfo k =
     node_Patch api nodeName (getNodeHostPathUsageInfoPatchBytes js nodeQuotaInfo) k"

definition SetHostPathDiskDisableState ::
    "'k kube \<Rightarrow> string \<Rightarrow> string \<Rightarrow> bool \<Rightarrow> 'k \<Rightarrow> apierr option \<times> 'k" where
  "SetHostPathDiskDisableState api nodeName diskPath state k =
     (case node_Get api k nodeName of
        Inl err \<Rightarrow> (Some err, k)
      | Inr node \<Rightarrow> node_Patch api nodeName (getNodeHostPathDisabledDisksPatchBytes node diskPath state) k)"

section \<open>Facts\<close>

interpretation disk_info_sort: sort_Interface DiskInfoList_Less
  by unfold_locales (auto simp: DiskInfoList_Less_def split: if_splits)

lemma split_join:
  "ws \<noteq> [] \<Longrightarrow> \<forall>w\<in>set ws. d \<notin> set w \<Longrightarrow> split_on d (join_with [d] ws) = ws"
proof (induction "[d]" ws rule: join_with.induct)
  case (2 w)
  then show ?case by (simp add: split_on_no_sep)
next
  case (3 w w' ws)
  then show ?case using split_on_sep [of d w "join_with [d] (w' # ws)"] by simp
qed simp

lemma join_with_empty: "join_with sep ws = '''' \<Longrightarrow> sep \<noteq> '''' \<Longrightarrow> ws = [] \<or> ws = ['''']"
  by (cases ws rule: remdups_adj.cases) auto

text \<open>A volume without a CSI source, bound to a claim, crashes the informer of the scheduler.\<close>

lemma bound_non_csi_volume_panics:
  "cp_Phase pv = ''Bound'' \<Longrightarrow> cp_CSI pv = None \<Longrightarrow> ToPersistentVolume js pv = None"
  by (cases "cp_ClaimRef pv") (auto simp: ToPersistentVolume_def toPersistentVolume_def ToHostPathVolume_def)

text \<open>A string that needs no escaping in JSON.\<close>

definition plain :: "string \<Rightarrow> bool" where
  "plain s \<longleftrightarrow> (\<forall>c\<in>set s. c \<noteq> CHR 0x22 \<and> c \<noteq> CHR 0x5C)"

lemma plain_append [simp]: "plain (s @ t) \<longleftrightarrow> plain s \<and> plain t"
  by (auto simp: plain_def)

lemma plain_base64 [simp]: "plain (EncodeToString s)"
proof -
  have "\<forall>n\<in>set [0..<64]. encodeStd ! n \<noteq> CHR 0x22 \<and> encodeStd ! n \<noteq> CHR 0x5C" by code_simp
  moreover have "n mod 64 \<in> set [0..<64]" for n by simp
  ultimately have d: "b64_digit n \<noteq> CHR 0x22 \<and> b64_digit n \<noteq> CHR 0x5C" for n
    unfolding b64_digit_def by (rule bspec)
  have "c \<noteq> CHR 0x22 \<and> c \<noteq> CHR 0x5C" if "c \<in> set (b64_encode bs)" for bs c
    using that by (induction bs rule: b64_encode.induct) (auto simp: d)
  then show ?thesis by (simp add: plain_def EncodeToString_def)
qed

lemma set_rfc6901: "set (rfc6901Encoder s) \<subseteq> set s \<union> {CHR ''~'', CHR ''0'', CHR ''1''}"
  by (auto simp: rfc6901Encoder_def split: if_splits)

lemma plain_rfc6901: "plain s \<Longrightarrow> plain (rfc6901Encoder s)"
  unfolding plain_def using set_rfc6901 [of s] by fastforce

text \<open>
  What the API server does with such a patch: a patch that adds an annotation, and succeeds, sets
  exactly this annotation of the node, and gives the node a resource version, usually a new one.
\<close>

definition patch_adds :: "'k kube \<Rightarrow> bool" where
  "patch_adds api \<longleftrightarrow>
     (\<forall>name key val k k' n. plain key \<and> plain val \<longrightarrow>
        node_Patch api name (annotation_patch key val) k = (None, k') \<longrightarrow> node_Get api k name = Inr n \<longrightarrow>
        (\<exists>ver. node_Get api k' name = Inr (n\<lparr>cn_Annotations := (cn_Annotations n)(key \<mapsto> val), cn_Version := ver\<rparr>)))"

lemma patch_addsD:
  "patch_adds api \<Longrightarrow> plain key \<Longrightarrow> plain val \<Longrightarrow>
   node_Patch api name (annotation_patch key val) k = (None, k') \<Longrightarrow> node_Get api k name = Inr n \<Longrightarrow>
   \<exists>ver. node_Get api k' name = Inr (n\<lparr>cn_Annotations := (cn_Annotations n)(key \<mapsto> val), cn_Version := ver\<rparr>)"
  unfolding patch_adds_def by blast

section \<open>An in-memory API server for nodes\<close>

text \<open>Reads back the key and the value of a patch \<open>annotation_patch key val\<close>.\<close>

definition parse_patch :: "string \<Rightarrow> string \<times> string" where
  "parse_patch p =
     (let r = drop 43 p; key = takeWhile (\<lambda>c. c \<noteq> CHR 0x22) r;
          v = drop (length key + 12) r
      in (pointer_unescape key, takeWhile (\<lambda>c. c \<noteq> CHR 0x22) v))"

lemma takeWhile_quote: "plain s \<Longrightarrow> takeWhile (\<lambda>c. c \<noteq> CHR 0x22) (s @ CHR 0x22 # t) = s"
  by (induction s) (auto simp: plain_def)

lemma parse_annotation_patch:
  assumes "plain key" "plain val"
  shows "parse_patch (annotation_patch key val) = (key, val)"
  using takeWhile_quote [OF plain_rfc6901 [OF assms(1)]] takeWhile_quote [OF assms(2)]
  by (simp add: parse_patch_def annotation_patch_def Let_def pointer_roundtrip)

definition mem_kube :: "(string \<rightharpoonup> CoreNode) kube" where
  "mem_kube = \<lparr>
     pv_Get = (\<lambda>k name. Inl NotFound),
     node_Get = (\<lambda>k name. case k name of None \<Rightarrow> Inl NotFound | Some n \<Rightarrow> Inr n),
     pv_Patch = (\<lambda>name p k. (Some NotFound, k)),
     node_Patch = (\<lambda>name p k. case k name of
        None \<Rightarrow> (Some NotFound, k)
      | Some n \<Rightarrow> (None, k(name \<mapsto> n\<lparr>cn_Annotations :=
          (cn_Annotations n)(fst (parse_patch p) \<mapsto> snd (parse_patch p)), cn_Version := CHR ''1'' # cn_Version n\<rparr>))),
     pod_Bind = (\<lambda>pod node k. (None, k))\<rparr>"

lemma mem_kube_patch: "patch_adds mem_kube"
  unfolding patch_adds_def by (auto simp: mem_kube_def parse_annotation_patch split: option.splits)

definition node1 :: CoreNode where
  "node1 = \<lparr>cn_Name = ''n1'', cn_Namespace = '''', cn_Version = ''7'',
     cn_Labels = [HostPathPvNodeLabelKey \<mapsto> ''''], cn_Annotations = Map.empty, cn_Conditions = [(''Ready'', ''True'')]\<rparr>"

text \<open>The node after it has published a usage, marshalled to a document of two characters.\<close>

definition node7 :: CoreNode where
  "node7 = node1\<lparr>cn_Annotations := [NodeDiskQuotaInfoAnn \<mapsto> EncodeToString ''{}'']\<rparr>"

lemma node7_reads:
  "Unmarshal_node js ''{}'' = Some u \<Longrightarrow>
   hn_diskUsage (ToHostPathNode js node7) = u \<and> hn_hostPathNode (ToHostPathNode js node7) \<and> IsHostPathNode node7"
proof -
  assume "Unmarshal_node js ''{}'' = Some u"
  moreover have "NodeDiskQuotaInfoAnn \<noteq> NodeDiskQuotaDisabledDisksAnn" by code_simp
  moreover have "EncodeToString ''{}'' \<noteq> ''''" by code_simp
  ultimately show ?thesis
    by (simp add: ToHostPathNode_def node7_def node1_def IsHostPathNode_def getNodeHostPathUsageInfo_def
        annotation_def Let_def)
qed

text \<open>An ephemeral volume of 4 KiB, bound to the claim data of the namespace default.\<close>

definition vol7 :: string where "vol7 = ''0001-0001-0005-pvc-7''"

definition pv7 :: CorePV where
  "pv7 = \<lparr>cp_Name = ''pvc-7'', cp_Namespace = '''', cp_Version = ''1'', cp_Phase = ''Bound'',
     cp_ClaimRef = Some (''data'', ''default''), cp_CSI = Some (HostPathCsiDriverName, vol7),
     cp_Capacity = 4096, cp_Annotations = Map.empty\<rparr>"

lemma vol7_decoded: "DecomposeCSIID ci vol7 = Some (\<lparr>EncodingVersion = 1, Ephemeral = True, VolumeName = ''pvc-7''\<rparr>, None)"
proof -
  have "ComposeCSIID \<lparr>EncodingVersion = 1, Ephemeral = True, VolumeName = ''pvc-7''\<rparr> = Inr vol7" by code_simp
  then show ?thesis by (rule decode_encode)
qed

section \<open>Properties\<close>

lemma ann_plain [simp]: "plain NodeDiskQuotaInfoAnn" "plain NodeDiskQuotaDisabledDisksAnn"
  by code_simp+

text \<open>
  What a node publishes is what the scheduler reads: after a successful
  \<open>UpdateNodeHostPathPVUsageInfo\<close>, converting the node (one with the hostpath label) gives back
  exactly the published usage, through JSON, base64, the patch and the API server.
\<close>

lemma node_usage_published:
  assumes "patch_adds api" "json_node_ok js usage" "node_Get api k name = Inr n" "IsHostPathNode n"
    and "UpdateNodeHostPathPVUsageInfo api js name usage k = (None, k')"
  shows "\<exists>hn. GetNodeByName api js k' name = Inr hn \<and> hn_diskUsage hn = usage \<and>
           hn_disabledDisk hn = getNodeHostPathDisabledDisks n"
proof -
  let ?val = "EncodeToString (Marshal_node js usage)"
  obtain ver where g: "node_Get api k' name =
      Inr (n\<lparr>cn_Annotations := (cn_Annotations n)(NodeDiskQuotaInfoAnn \<mapsto> ?val), cn_Version := ver\<rparr>)"
    using assms(3,5) patch_addsD [OF assms(1) ann_plain(1), of ?val name k k' n]
    by (auto simp: UpdateNodeHostPathPVUsageInfo_def getNodeHostPathUsageInfoPatchBytes_def)
  have "Unmarshal_node js (Marshal_node js usage) = Some usage" "Marshal_node js usage \<noteq> ''''"
    using assms(2) by (simp_all add: json_node_ok_def)
  moreover have "NodeDiskQuotaInfoAnn \<noteq> NodeDiskQuotaDisabledDisksAnn"
    by (simp add: NodeDiskQuotaInfoAnn_def NodeDiskQuotaDisabledDisksAnn_def)
  ultimately show ?thesis
    using assms(4) g
    by (simp add: GetNodeByName_def ToHostPathNode_def IsHostPathNode_def getNodeHostPathUsageInfo_def
        getNodeHostPathDisabledDisks_def annotation_def Let_def)
qed

text \<open>The usage of an empty node and the document it is marshalled to.\<close>

definition json0 :: json where
  "json0 = \<lparr>Marshal_pv = (\<lambda>_. ''{}''), Unmarshal_pv = (\<lambda>_. Some zero_PVUsageInfo),
     Marshal_node = (\<lambda>_. ''{}''), Unmarshal_node = (\<lambda>_. Some zero_NodeUsageInfo)\<rparr>"

text \<open>
  \<open>SetHostPathDiskDisableState\<close> works the wrong way round: it passes the disabled state on as
  the argument \<open>enable\<close>, so setting the disabled state to true takes the disk out of the disabled
  disks the node reads back, and setting it to false puts the disk in.
\<close>

lemma disable_state_inverted:
  assumes "patch_adds api" "node_Get api k name = Inr n" "CHR '','' \<notin> set disk" "disk \<noteq> ''''"
    and "SetHostPathDiskDisableState api name disk state k = (None, k')"
  shows "\<exists>n'. node_Get api k' name = Inr n' \<and> (disk \<in> set (getNodeHostPathDisabledDisks n') \<longleftrightarrow> \<not> state)"
proof -
  let ?disks = "getNodeHostPathDisabledDisks n"
  define ds where "ds = (if state then filter (\<lambda>k. k \<noteq> disk) ?disks
    else if disk \<in> set ?disks then ?disks else ?disks @ [disk])"
  let ?val = "EncodeToString (join_with '','' ds)"
  have "getNodeHostPathDisabledDisksPatchBytes n disk state = annotation_patch NodeDiskQuotaDisabledDisksAnn ?val"
    by (simp only: getNodeHostPathDisabledDisksPatchBytes_def Let_def ds_def)
  then obtain ver where
    "node_Get api k' name = Inr (n\<lparr>cn_Annotations := (cn_Annotations n)(NodeDiskQuotaDisabledDisksAnn \<mapsto> ?val), cn_Version := ver\<rparr>)"
    using assms(2,5) patch_addsD [OF assms(1) ann_plain(2), of ?val name k k' n] by (auto simp: SetHostPathDiskDisableState_def)
  moreover define n' where "n' = n\<lparr>cn_Annotations := (cn_Annotations n)(NodeDiskQuotaDisabledDisksAnn \<mapsto> ?val), cn_Version := ver\<rparr>"
  ultimately have g: "node_Get api k' name = Inr n'" by simp
  have no_comma: "\<forall>w\<in>set ds. CHR '','' \<notin> set w"
  proof -
    have "CHR '','' \<notin> set w" if "w \<in> set (split_on CHR '','' s)" for w s
      using that by (induction s arbitrary: w) (auto split: if_splits list.splits)
    then have "\<forall>w\<in>set ?disks. CHR '','' \<notin> set w"
      by (auto simp: getNodeHostPathDisabledDisks_def Let_def split: if_splits)
    then show ?thesis using assms(3) by (auto simp: ds_def)
  qed
  have mem: "disk \<in> set ds \<longleftrightarrow> \<not> state" by (auto simp: ds_def)
  have "set (getNodeHostPathDisabledDisks n') - {''''} = set ds - {''''}"
  proof (cases "join_with '','' ds = ''''")
    case True
    then have "ds = [] \<or> ds = ['''']" using join_with_empty [OF True] by simp
    then show ?thesis using True by (auto simp: n'_def getNodeHostPathDisabledDisks_def annotation_def Let_def)
  next
    case False
    then have "ds \<noteq> []" by auto
    then show ?thesis
      using False split_join [OF _ no_comma] by (simp add: n'_def getNodeHostPathDisabledDisks_def annotation_def Let_def)
  qed
  then have "disk \<in> set (getNodeHostPathDisabledDisks n') \<longleftrightarrow> \<not> state" using mem assms(4) by blast
  then show ?thesis using g by blast
qed

lemma disable_state_inverted_example:
  "patch_adds mem_kube \<and>
   (\<exists>k' n'. SetHostPathDiskDisableState mem_kube ''n1'' ''/xfs/d1'' True [''n1'' \<mapsto> node1] = (None, k') \<and>
      node_Get mem_kube k' ''n1'' = Inr n' \<and> ''/xfs/d1'' \<notin> set (getNodeHostPathDisabledDisks n'))"
proof -
  have g: "node_Get mem_kube [''n1'' \<mapsto> node1] ''n1'' = Inr node1" by (simp add: mem_kube_def)
  obtain k' where u: "SetHostPathDiskDisableState mem_kube ''n1'' ''/xfs/d1'' True [''n1'' \<mapsto> node1] = (None, k')"
    by (simp add: SetHostPathDiskDisableState_def mem_kube_def split: prod.splits)
  obtain n' where "node_Get mem_kube k' ''n1'' = Inr n'" "''/xfs/d1'' \<in> set (getNodeHostPathDisabledDisks n') \<longleftrightarrow> \<not> True"
    using disable_state_inverted [OF mem_kube_patch g _ _ u] by auto
  then show ?thesis using u mem_kube_patch by blast
qed

end
