(* ===== verification/Node_Server.thy ===== *)
theory Node_Server
  imports Csi_Common Quota_Restore Host_Path_Client Id_Locker
begin

text \<open>
  The node server, pkg/csi-plugin/hostpath/nodeserver.go, with the request checks of
  pkg/util/validate.go and the capabilities of identityserver.go. Publishing a volume asks the quota
  manager for its directory and bind-mounts it; unpublishing unmounts it and, for an ephemeral
  volume, gives the directory back. A handler works on the locks, the quota manager and the world;
  the cluster is only read. A handler that panics (result \<open>None\<close>) has released its lock on the way
  out.
\<close>

section \<open>validate.go\<close>

datatype node_cause = CauseOs oserr | CauseQm qm_error

type_synonym node_status = "node_cause status"

datatype node_error = Grpc node_status | Raw qm_error

definition ValidateNodeStageVolumeRequest :: "'w os \<Rightarrow> 'w \<Rightarrow> NodeStageVolumeRequest \<Rightarrow> node_status option" where
  "ValidateNodeStageVolumeRequest sys w req =
     (if ns_VolumeCapability req = None then
        Some (status_Error InvalidArgument ''volume capability missing in request'')
      else if length (ns_VolumeId req) = 0 then Some (status_Error InvalidArgument ''volume ID missing in request'')
      else if length (ns_StagingTargetPath req) = 0 then
        Some (status_Error InvalidArgument ''staging target path missing in request'')
      else if \<not> CheckDirExists sys w (ns_StagingTargetPath req) then
        Some (status_Error InvalidArgument
          (''staging path '' @ ns_StagingTargetPath req @ '' does not exists on node''))
      else None)"

definition ValidateNodeUnstageVolumeRequest :: "string \<Rightarrow> string \<Rightarrow> node_status option" where
  "ValidateNodeUnstageVolumeRequest volumeId stagingTargetPath =
     (if length volumeId = 0 then Some (status_Error InvalidArgument ''volume ID missing in request'')
      else if length stagingTargetPath = 0 then
        Some (status_Error InvalidArgument ''staging target path missing in request'')
      else None)"

definition ValidateNodePublishVolumeRequest :: "NodePublishVolumeRequest \<Rightarrow> node_status option" where
  "ValidateNodePublishVolumeRequest req =
     (if np_VolumeCapability req = None then
        Some (status_Error InvalidArgument ''volume capability missing in request'')
      else if length (np_VolumeId req) = 0 then Some (status_Error InvalidArgument ''volume ID missing in request'')
      else if length (np_TargetPath req) = 0 then Some (status_Error InvalidArgument ''target path missing in request'')
      else if length (np_StagingTargetPath req) = 0 then
        Some (status_Error InvalidArgument ''staging target path missing in request'')
      else None)"

definition ValidateNodeUnpublishVolumeRequest :: "string \<Rightarrow> string \<Rightarrow> node_status option" where
  "ValidateNodeUnpublishVolumeRequest volumeId targetPath =
     (if length volumeId = 0 then Some (status_Error InvalidArgument ''volume ID missing in request'')
      else if length targetPath = 0 then Some (status_Error InvalidArgument ''target path missing in request'')
      else None)"

section \<open>nodeserver.go and identityserver.go\<close>

definition NodeGetCapabilities :: "node_rpc_type list" where
  "NodeGetCapabilities = [NODE_STAGE_UNSTAGE_VOLUME, NODE_GET_VOLUME_STATS, NODE_EXPAND_VOLUME]"

definition GetPluginCapabilities :: "plugin_capability list" where
  "GetPluginCapabilities = [CONTROLLER_SERVICE, VOLUME_EXPANSION_ONLINE, VOLUME_ACCESSIBILITY_CONSTRAINTS]"

definition NodeStageVolume :: "'w os \<Rightarrow> 'w \<Rightarrow> NodeStageVolumeRequest \<Rightarrow> node_status option" where
  "NodeStageVolume sys w req = ValidateNodeStageVolumeRequest sys w req"

definition NodeUnstageVolume :: "string \<Rightarrow> string \<Rightarrow> node_status option" where
  "NodeUnstageVolume volumeId stagingTargetPath = ValidateNodeUnstageVolumeRequest volumeId stagingTargetPath"

text \<open>The options of the bind mount.\<close>

definition mount_options :: "NodePublishVolumeRequest \<Rightarrow> string list" where
  "mount_options req =
     (let mountOptions = ConstructMountOptions [''bind''] (np_VolumeCapability req)
      in if np_Readonly req then mountOptions @ [''ro''] else mountOptions)"

definition mountVolume ::
    "'w os \<Rightarrow> string \<Rightarrow> NodePublishVolumeRequest \<Rightarrow> 'w \<Rightarrow> node_status option \<times> 'w" where
  "mountVolume sys quotaPath req w =
     (case mnt_Mount sys quotaPath (np_TargetPath req) '''' (mount_options req) w of
        (Some err, w) \<Rightarrow> (Some (status_of Internal (CauseOs err)), w)
      | (None, w) \<Rightarrow> (None, w))"

text \<open>\<open>NodePublishVolume\<close> once the target directory exists and is not mounted.\<close>

definition publish_mount ::
    "'w os \<Rightarrow> 'k kube \<Rightarrow> json \<Rightarrow> 'k \<Rightarrow> NodePublishVolumeRequest \<Rightarrow> QuotaManager \<times> 'w
       \<Rightarrow> node_error option option \<times> QuotaManager \<times> 'w" where
  "publish_mount sys api js k req s =
     (case GetHostPathPVByVolumeId api js k (np_VolumeId req) of
        None \<Rightarrow> (None, s)
      | Some None \<Rightarrow> (Some (Some (Grpc (status_Error Internal (''volume '' @ np_VolumeId req @ '' not found'')))), s)
      | Some (Some volume) \<Rightarrow>
          (case qm_GetVolumeQuotaPath sys (hpv_volId volume) (hpv_capacity volume) s of
             (Inl err, s) \<Rightarrow> (Some (Some (Raw err)), s)
           | (Inr quotaPath, (qm, w)) \<Rightarrow>
               (case mountVolume sys quotaPath req w of
                  (err, w) \<Rightarrow> (Some (map_option Grpc err), qm, w))))"

text \<open>\<open>NodePublishVolume\<close> while it holds the lock.\<close>

definition publish_locked ::
    "'w os \<Rightarrow> 'k kube \<Rightarrow> json \<Rightarrow> 'k \<Rightarrow> NodePublishVolumeRequest \<Rightarrow> QuotaManager \<times> 'w
       \<Rightarrow> node_error option option \<times> QuotaManager \<times> 'w" where
  "publish_locked sys api js k req s =
     (case s of (qm, w) \<Rightarrow>
       (case mnt_IsNotMountPoint sys w (np_TargetPath req) of
          Inl err \<Rightarrow>
            if err = ENOENT then
              (case CreateNewDir sys (np_TargetPath req) w of
                 (Some err, w) \<Rightarrow> (Some (Some (Grpc (status_of Internal (CauseOs err)))), qm, w)
               | (None, w) \<Rightarrow> publish_mount sys api js k req (qm, w))
            else (Some (Some (Grpc (status_of Internal (CauseOs err)))), qm, w)
        | Inr notMnt \<Rightarrow>
            if \<not> notMnt then (Some None, qm, w) else publish_mount sys api js k req (qm, w)))"

definition operation_exists :: "string \<Rightarrow> node_status" where
  "operation_exists volID =
     status_Error Aborted (''an operation with the given Volume ID '' @ volID @ '' already exists'')"

text \<open>A handler's result: \<open>Some None\<close> is success, \<open>Some (Some err)\<close> an error, \<open>None\<close> a panic.\<close>

definition NodePublishVolume ::
    "'w os \<Rightarrow> 'k kube \<Rightarrow> json \<Rightarrow> 'k \<Rightarrow> NodePublishVolumeRequest \<Rightarrow> VolumeLocks \<Rightarrow> QuotaManager \<times> 'w
       \<Rightarrow> node_error option option \<times> VolumeLocks \<times> QuotaManager \<times> 'w" where
  "NodePublishVolume sys api js k req l s =
     (case ValidateNodePublishVolumeRequest req of
        Some err \<Rightarrow> (Some (Some (Grpc err)), l, s)
      | None \<Rightarrow>
          (case TryAcquire (np_VolumeId req) l of
             (False, l) \<Rightarrow> (Some (Some (Grpc (operation_exists (np_VolumeId req)))), l, s)
           | (True, l) \<Rightarrow>
               (case publish_locked sys api js k req s of
                  (r, s) \<Rightarrow> (r, ReleaseLock (np_VolumeId req) l, s))))"

text \<open>\<open>NodeUnpublishVolume\<close> while it holds the lock.\<close>

definition unpublish_locked ::
    "'w os \<Rightarrow> string \<Rightarrow> string \<Rightarrow> bool \<Rightarrow> QuotaManager \<times> 'w \<Rightarrow> node_status option \<times> QuotaManager \<times> 'w" where
  "unpublish_locked sys volID targetPath ephemeral s =
     (case s of (qm, w) \<Rightarrow>
       (case mnt_IsNotMountPoint sys w targetPath of
          Inl err \<Rightarrow> if err = ENOENT then (None, qm, w) else (Some (status_of Internal (CauseOs err)), qm, w)
        | Inr notMnt \<Rightarrow>
            (case (if \<not> notMnt then mnt_Unmount sys targetPath w else (None, w)) of
               (Some err, w) \<Rightarrow> (Some (status_of Internal (CauseOs err)), qm, w)
             | (None, w) \<Rightarrow>
                 (case (if ephemeral then qm_ReleaseVolumePath sys volID (qm, w) else (None, qm, w)) of
                    (Some err, s) \<Rightarrow> (Some (status_of Internal (CauseQm err)), s)
                  | (None, (qm, w)) \<Rightarrow>
                      (case os_RemoveAll sys targetPath w of
                         (Some err, w) \<Rightarrow> (Some (status_of Internal (CauseOs err)), qm, w)
                       | (None, w) \<Rightarrow> (None, qm, w))))))"

definition NodeUnpublishVolume ::
    "'w os \<Rightarrow> string \<Rightarrow> string \<Rightarrow> VolumeLocks \<Rightarrow> QuotaManager \<times> 'w
       \<Rightarrow> node_status option option \<times> VolumeLocks \<times> QuotaManager \<times> 'w" where
  "NodeUnpublishVolume sys volID targetPath l s =
     (case ValidateNodeUnpublishVolumeRequest volID targetPath of
        Some err \<Rightarrow> (Some (Some err), l, s)
      | None \<Rightarrow>
          (case DecomposeCSIID zero_CSIIdentifier volID of
             None \<Rightarrow> (None, l, s)
           | Some (_, Some err) \<Rightarrow>
               (Some (Some (status_Error Internal (''failed decode volId '' @ volID @ '' ''))), l, s)
           | Some (vi, None) \<Rightarrow>
               (case TryAcquire volID l of
                  (False, l) \<Rightarrow> (Some (Some (operation_exists volID)), l, s)
                | (True, l) \<Rightarrow>
                    (case unpublish_locked sys volID targetPath (Ephemeral vi) s of
                       (r, s) \<Rightarrow> (Some r, ReleaseLock volID l, s)))))"

definition NodeExpandVolume ::
    "'w os \<Rightarrow> NodeExpandVolumeRequest \<Rightarrow> VolumeLocks \<Rightarrow> QuotaManager \<times> 'w
       \<Rightarrow> node_status option \<times> VolumeLocks \<times> QuotaManager \<times> 'w" where
  "NodeExpandVolume sys req l s =
     (if length (ne_VolumeId req) = 0 then (Some (status_Error InvalidArgument ''volume ID must be provided''), l, s)
      else if length (ne_VolumePath req) = 0 then
        (Some (status_Error InvalidArgument ''volume path must be provided''), l, s)
      else case TryAcquire (ne_VolumeId req) l of
             (False, l) \<Rightarrow> (Some (operation_exists (ne_VolumeId req)), l, s)
           | (True, l) \<Rightarrow>
               (case ne_RequiredBytes req of
                  None \<Rightarrow>
                    (Some (status_Error InvalidArgument ''capacityRange cannot be empty''),
                     ReleaseLock (ne_VolumeId req) l, s)
                | Some bytes \<Rightarrow>
                    (case qm_ExpandVolume sys (ne_VolumeId req) bytes s of
                       (Some err, s) \<Rightarrow>
                         (Some (Status Internal (''failed expand volume '' @ ne_VolumeId req @ '' ,err '') (Some (CauseQm err))),
                          ReleaseLock (ne_VolumeId req) l, s)
                     | (None, s) \<Rightarrow> (None, ReleaseLock (ne_VolumeId req) l, s))))"

section \<open>Facts\<close>

lemma unlock_after:
  "TryAcquire v l = (True, l') \<Longrightarrow> ReleaseLock v l' = l" "TryAcquire v l = (False, l') \<Longrightarrow> l' = l \<and> v \<in> vl_locks l"
  "TryAcquire v l = (True, l') \<Longrightarrow> v \<notin> vl_locks l"
  by (auto simp: acquire_release_same TryAcquire_def split: if_splits)

lemma mount_options_ok:
  "''bind'' \<in> set (mount_options req) \<and> (np_Readonly req \<longrightarrow> ''ro'' \<in> set (mount_options req))"
  using add_options_props [of "[''bind'']"]
  by (auto simp: mount_options_def ConstructMountOptions_def Let_def split: option.split)

lemma qm_path_world: "qm_path (qm, w1) = qm_path (qm, w2)"
  by (auto simp: qm_path_def xq_path_def fun_eq_iff split: QuotaManager.split)

lemma publish_mount_ok:
  assumes "publish_mount sys api js k req s = (Some None, s')"
  shows "\<exists>volume p w1. GetHostPathPVByVolumeId api js k (np_VolumeId req) = Some (Some volume) \<and>
     qm_path s' (hpv_volId volume) = Some p \<and>
     mnt_Mount sys p (np_TargetPath req) '''' (mount_options req) w1 = (None, snd s')"
proof -
  obtain volume where v: "GetHostPathPVByVolumeId api js k (np_VolumeId req) = Some (Some volume)"
    using assms by (auto simp: publish_mount_def split: option.splits)
  obtain p qm w where g: "qm_GetVolumeQuotaPath sys (hpv_volId volume) (hpv_capacity volume) s = (Inr p, qm, w)"
    using assms v by (auto simp: publish_mount_def split: sum.splits prod.splits)
  have p: "qm_path (qm, w) (hpv_volId volume) = Some p" using qm.get_records [OF g] by simp
  obtain w' where m: "mnt_Mount sys p (np_TargetPath req) '''' (mount_options req) w = (None, w')" "s' = (qm, w')"
    using assms v g by (auto simp: publish_mount_def mountVolume_def split: prod.splits option.splits)
  have "qm_path (qm, w') (hpv_volId volume) = Some p" using p qm_path_world [of qm w' w] by simp
  then show ?thesis using v m by auto
qed

lemma publish_locked_ok:
  assumes "publish_locked sys api js k req s = (Some None, s')"
  shows "mnt_IsNotMountPoint sys (snd s) (np_TargetPath req) = Inr False \<and> s' = s \<or>
    (\<exists>w. publish_mount sys api js k req (fst s, w) = (Some None, s'))"
  using assms
  by (cases s) (auto simp: publish_locked_def split: sum.splits if_splits prod.splits option.splits)

lemma unpublish_locked_ok:
  assumes "unpublish_locked sys vol target eph s = (None, s')" "mnt_IsNotMountPoint sys (snd s) target = Inr b"
  shows "qm_path s' = (if eph then (qm_path s)(vol := None) else qm_path s)"
proof -
  obtain qm w where s: "s = (qm, w)" by fastforce
  obtain w1 where u: "(if \<not> b then mnt_Unmount sys target w else (None, w)) = (None, w1)"
    using assms by (auto simp: s unpublish_locked_def split: prod.splits option.splits if_splits)
  obtain qm2 w2 where r: "(if eph then qm_ReleaseVolumePath sys vol (qm, w1) else (None, qm, w1)) = (None, qm2, w2)"
    using assms u by (auto simp: s unpublish_locked_def split: prod.splits option.splits)
  have "fst s' = qm2" using assms u r by (auto simp: s unpublish_locked_def split: prod.splits option.splits)
  then have "qm_path s' = qm_path (qm2, w2)" using qm_path_world [of qm2] by (cases s') simp
  also have "\<dots> = (if eph then (qm_path (qm, w1))(vol := None) else qm_path (qm, w1))"
    using r qm.rel_forgets [of sys vol "(qm, w1)" "(qm2, w2)"] by (auto split: if_splits)
  finally show ?thesis using qm_path_world [of qm w1 w] by (simp add: s)
qed

section \<open>Properties\<close>

text \<open>
  C8. A successful publish of a volume either finds the target already mounted and changes
  nothing, or leaves the volume of the request recorded in the quota manager with a directory and
  has bind-mounted exactly this directory on the target path, read-only when the request says so. In
  both cases the lock of the volume is given back.
\<close>

theorem publish_mounts_quota_path:
  assumes "NodePublishVolume sys api js k req l s = (Some None, l', s')"
  shows "l' = l \<and>
    (mnt_IsNotMountPoint sys (snd s) (np_TargetPath req) = Inr False \<and> s' = s \<or>
     (\<exists>volume p w opts. GetHostPathPVByVolumeId api js k (np_VolumeId req) = Some (Some volume) \<and>
        qm_path s' (hpv_volId volume) = Some p \<and> ''bind'' \<in> set opts \<and> (''ro'' \<in> set opts \<or> \<not> np_Readonly req) \<and>
        mnt_Mount sys p (np_TargetPath req) '''' opts w = (None, snd s')))"
proof -
  obtain l1 where a: "TryAcquire (np_VolumeId req) l = (True, l1)" "l' = ReleaseLock (np_VolumeId req) l1"
      and p: "publish_locked sys api js k req s = (Some None, s')"
    using assms by (auto simp: NodePublishVolume_def split: option.splits prod.splits bool.splits)
  from publish_locked_ok [OF p] show ?thesis
  proof
    assume "\<exists>w. publish_mount sys api js k req (fst s, w) = (Some None, s')"
    then obtain w where "publish_mount sys api js k req (fst s, w) = (Some None, s')" by blast
    from publish_mount_ok [OF this] show ?thesis using mount_options_ok [of req] a unlock_after(1) by blast
  qed (use a unlock_after(1) in blast)
qed

text \<open>The example: an ephemeral volume that has its directory already, in a cluster with its PV.\<close>

definition pv_kube :: "CorePV list kube" where
  "pv_kube = \<lparr>
     pv_Get = (\<lambda>k name. case find (\<lambda>pv. cp_Name pv = name) k of None \<Rightarrow> Inl NotFound | Some pv \<Rightarrow> Inr pv),
     node_Get = (\<lambda>k name. Inl NotFound), pv_Patch = (\<lambda>name p k. (None, k)),
     node_Patch = (\<lambda>name p k. (Some NotFound, k)), pod_Bind = (\<lambda>pod node k. (None, k))\<rparr>"

definition manager7 :: XFSQuotaManager where
  "manager7 = manager0\<lparr>quotas := [(vol7, new_info ''/xfs/d1/k8squota_7'' ''/dev/sdb'' 4096 0 vol7)]\<rparr>"

definition publish7 :: NodePublishVolumeRequest where
  "publish7 = \<lparr>np_VolumeId = vol7, np_TargetPath = ''/t'', np_StagingTargetPath = ''/s'',
     np_VolumeCapability = Some \<lparr>vc_block = False, vc_mount = Some []\<rparr>, np_Readonly = True\<rparr>"

lemma vol7_found:
  "\<exists>volume. GetHostPathPVByVolumeId pv_kube json0 [pv7] vol7 = Some (Some volume) \<and> hpv_volId volume = vol7"
  by (simp add: GetHostPathPVByVolumeId_def vol7_decoded pv_kube_def toPersistentVolume_def ToHostPathVolume_def pv7_def isHostPathPV_def
      isEphemeral_def getHostPathPVUsageInfo_def annotation_def Let_def)

lemma mem_calls:
  "mnt_IsNotMountPoint mem_os mem0 ''/t'' = Inl ENOENT"
  "fst (os_MkdirAll mem_os p mode w) = None" "os_MkdirAll mem_os p mode w = (None, w\<lparr>m_dirs := m_dirs w @ [p]\<rparr>)"
  "mnt_Mount mem_os src tgt ty opts w = (None, w\<lparr>m_mounts := al_put tgt (src, 0) (m_mounts w)\<rparr>)"
  by (simp_all add: mem_os_def mem0_def)

lemma publish7_runs:
  "\<exists>s'. NodePublishVolume mem_os pv_kube json0 [pv7] publish7 NewVolumeLocks (XFS manager7, mem0) =
     (Some None, NewVolumeLocks, s')"
proof -
  obtain volume where v: "GetHostPathPVByVolumeId pv_kube json0 [pv7] vol7 = Some (Some volume)" "hpv_volId volume = vol7"
    using vol7_found by blast
  have g: "GetVolumeQuotaPath sys vol7 c manager7 w = (Inr ''/xfs/d1/k8squota_7'', manager7, w)" for sys :: "mem os" and c w
    by (subst Get_old [of _ _ "new_info ''/xfs/d1/k8squota_7'' ''/dev/sdb'' 4096 0 vol7"])
      (simp_all add: manager7_def new_info_def)
  have "ReleaseLock vol7 (snd (TryAcquire vol7 NewVolumeLocks)) = NewVolumeLocks" "vol7 \<noteq> ''''"
    by (simp_all add: TryAcquire_def ReleaseLock_def NewVolumeLocks_def vol7_def)
  then show ?thesis
    using v g
    by (simp add: NodePublishVolume_def ValidateNodePublishVolumeRequest_def publish7_def publish_locked_def
        publish_mount_def mountVolume_def CreateNewDir_def mem_calls qm_GetVolumeQuotaPath_def
        TryAcquire_def NewVolumeLocks_def)
qed

theorem publish_mounts_quota_path_witness:
  "\<exists>s' (volume :: PersistentVolume) p w opts. NodePublishVolume mem_os pv_kube json0 [pv7] publish7 NewVolumeLocks (XFS manager7, mem0) =
     (Some None, NewVolumeLocks, s') \<and> qm_path s' (hpv_volId volume) = Some p \<and>
     mnt_Mount mem_os p ''/t'' '''' opts w = (None, snd s') \<and> ''bind'' \<in> set opts \<and> ''ro'' \<in> set opts"
proof -
  obtain s' where r: "NodePublishVolume mem_os pv_kube json0 [pv7] publish7 NewVolumeLocks (XFS manager7, mem0) =
     (Some None, NewVolumeLocks, s')"
    using publish7_runs by blast
  have n: "mnt_IsNotMountPoint mem_os mem0 ''/t'' \<noteq> Inr False" by (simp add: mem_os_def mem0_def)
  have t: "np_TargetPath publish7 = ''/t''" "np_Readonly publish7" by (simp_all add: publish7_def)
  obtain volume :: PersistentVolume and p w opts where "qm_path s' (hpv_volId volume) = Some p" "''bind'' \<in> set opts" "''ro'' \<in> set opts"
      "mnt_Mount mem_os p ''/t'' '''' opts w = (None, snd s')"
    using publish_mounts_quota_path [OF r] n t by auto
  then show ?thesis using r by blast
qed

text \<open>
  C15. What a successful unpublish does, case by case. When the target exists, the directory of an
  ephemeral volume is given back to the quota manager and the directories of all other volumes are left
  alone; for a persistent volume every directory is left alone. When the target does not exist, nothing at
  all happens, so that also an ephemeral volume keeps its directory (until the sync worker cleans it).
  The lock of the volume is given back in either case.
\<close>

theorem unpublish_releases_ephemeral:
  assumes "NodeUnpublishVolume sys vol target l s = (Some None, l', s')"
  shows "l' = l \<and> (\<exists>vi. DecomposeCSIID zero_CSIIdentifier vol = Some (vi, None) \<and>
    (case mnt_IsNotMountPoint sys (snd s) target of
       Inl err \<Rightarrow> err = ENOENT \<and> s' = s
     | Inr _ \<Rightarrow> qm_path s' = (if Ephemeral vi then (qm_path s)(vol := None) else qm_path s)))"
proof -
  obtain vi l1 where vi: "DecomposeCSIID zero_CSIIdentifier vol = Some (vi, None)"
      and a: "TryAcquire vol l = (True, l1)" "l' = ReleaseLock vol l1"
      and u: "unpublish_locked sys vol target (Ephemeral vi) s = (None, s')"
    using assms by (auto simp: NodeUnpublishVolume_def split: option.splits prod.splits bool.splits)
  show ?thesis
  proof (cases "mnt_IsNotMountPoint sys (snd s) target")
    case (Inl err)
    then have "err = ENOENT \<and> s' = s" using u by (cases s) (auto simp: unpublish_locked_def split: if_splits)
    then show ?thesis using vi a unlock_after(1) Inl by simp
  next
    case (Inr b)
    then show ?thesis using vi a unlock_after(1) unpublish_locked_ok [OF u Inr] by simp
  qed
qed

text \<open>The same volume published: its directory and the target exist.\<close>

definition mem7 :: mem where
  "mem7 = mem0\<lparr>m_dirs := [''/xfs'', ''/xfs/d1'', ''/xfs/d2'', ''/xfs/d1/k8squota_7'', ''/t''],
     m_mounts := (''/t'', (''/xfs/d1/k8squota_7'', 0)) # m_mounts mem0\<rparr>"

lemma unpublish7_runs:
  "\<exists>s'. NodeUnpublishVolume mem_os vol7 ''/t'' NewVolumeLocks (XFS manager7, mem7) = (Some None, NewVolumeLocks, s')"
proof -
  have "ReleaseLock vol7 (snd (TryAcquire vol7 NewVolumeLocks)) = NewVolumeLocks" "vol7 \<noteq> ''''"
    by (simp_all add: TryAcquire_def ReleaseLock_def NewVolumeLocks_def vol7_def)
  then show ?thesis
    by (simp add: NodeUnpublishVolume_def ValidateNodeUnpublishVolumeRequest_def vol7_decoded unpublish_locked_def
        mem_os_def mem7_def mem0_def qm_ReleaseVolumePath_def ReleaseVolumePath_def DeleteProjectQuota_def manager7_def
        new_info_def manager0_def disk0_def IsPathExist_def IsNotExist_def NewXFSVolumeQuotaProvider_def
        TryAcquire_def NewVolumeLocks_def Let_def)
qed

theorem unpublish_releases_ephemeral_witness:
  "\<exists>s'. NodeUnpublishVolume mem_os vol7 ''/t'' NewVolumeLocks (XFS manager7, mem7) = (Some None, NewVolumeLocks, s') \<and>
     qm_path (XFS manager7, mem7) vol7 = Some ''/xfs/d1/k8squota_7'' \<and> qm_path s' vol7 = None"
proof -
  obtain s' where r: "NodeUnpublishVolume mem_os vol7 ''/t'' NewVolumeLocks (XFS manager7, mem7) =
      (Some None, NewVolumeLocks, s')"
    using unpublish7_runs by blast
  have n: "mnt_IsNotMountPoint mem_os (snd (XFS manager7, mem7)) ''/t'' = Inr False"
    by (simp add: mem_os_def mem7_def)
  have "qm_path (XFS manager7, mem7) vol7 = Some ''/xfs/d1/k8squota_7''"
    by (simp add: qm_path_def xq_path_def manager7_def new_info_def)
  moreover have "Ephemeral vi" if "DecomposeCSIID zero_CSIIdentifier vol7 = Some (vi, None)" for vi
    using that by (auto simp: vol7_decoded)
  ultimately show ?thesis using unpublish_releases_ephemeral [OF r] r n by auto
qed

text \<open>
  While an operation holds the lock of a volume, publishing, unpublishing and expanding the
  volume all fail without any effect: no lock, no quota record and no system call changes.
\<close>

lemma held_lock_blocks_node:
  assumes "np_VolumeId req \<in> vl_locks l" "ne_VolumeId ereq = np_VolumeId req"
  shows "(\<exists>e. NodePublishVolume sys api js k req l s = (Some (Some e), l, s)) \<and>
    (\<exists>e. NodeUnpublishVolume sys (np_VolumeId req) target l s = (Some (Some e), l, s)) \<and>
    (\<exists>e. NodeExpandVolume sys ereq l s = (Some e, l, s))"
proof -
  have t: "TryAcquire (np_VolumeId req) l = (False, l)" using assms by (simp add: TryAcquire_def)
  have "DecomposeCSIID zero_CSIIdentifier (np_VolumeId req) \<noteq> None" by (rule decompose_total)
  then have "\<exists>e. NodeUnpublishVolume sys (np_VolumeId req) target l s = (Some (Some e), l, s)"
    using t by (auto simp: NodeUnpublishVolume_def split: option.split)
  moreover have "\<exists>e. NodePublishVolume sys api js k req l s = (Some (Some e), l, s)"
    using t by (simp add: NodePublishVolume_def split: option.split)
  moreover have "\<exists>e. NodeExpandVolume sys ereq l s = (Some e, l, s)"
    using t assms(2) by (simp add: NodeExpandVolume_def)
  ultimately show ?thesis by blast
qed

end
