(* ===== verification/Sync_Worker.thy ===== *)
theory Sync_Worker
  imports Quota_Restore Host_Path_Client Size_Util
begin

text \<open>
  The sync worker of a node, pkg/csi-plugin/hostpath/syncworker.go. One round of
  \<open>populatorLoopFunc\<close> lists the volumes, gives the directories of deleted volumes back, publishes the
  usage of the volumes, takes over the disabled disks and publishes the usage of the disks. A round
  works on the worker's own state, the quota manager with the world, and the cluster. The timer loop
  around it (\<open>JitterUntil\<close>, in Timer\_Loop) repeats rounds until a channel is closed that nobody closes.
\<close>

section \<open>State\<close>

record SyncWorker =
  shouldDeleteVolIds :: "VolumeId list"
  nodeName :: string
  lastSyncQuotaInfoCache :: "VolumeId \<rightharpoonup> PathQuotaInfo"
  lastNodeUsageInfo :: NodeUsageInfo

section \<open>Cleaning\<close>

text \<open>Releases the volumes in turn; the result is the volumes that could not be released.\<close>

fun release_each :: "'w os \<Rightarrow> VolumeId list \<Rightarrow> QuotaManager \<times> 'w \<Rightarrow> VolumeId list \<times> QuotaManager \<times> 'w" where
  "release_each sys [] s = ([], s)"
| "release_each sys (volId # rest) s =
     (case qm_ReleaseVolumePath sys volId s of
        (err, s) \<Rightarrow>
          (case release_each sys rest s of
             (failed, s) \<Rightarrow> (if err = None then failed else volId # failed, s)))"

definition cleanOrphanQuotaPath ::
    "'w os \<Rightarrow> 'k cm_api \<Rightarrow> ConfigMapMetaStore \<Rightarrow> 'k \<Rightarrow> PathQuotaInfo list \<Rightarrow> SyncWorker \<Rightarrow> QuotaManager \<times> 'w
       \<Rightarrow> apierr option \<times> SyncWorker \<times> QuotaManager \<times> 'w" where
  "cleanOrphanQuotaPath sys capi store k quotaInfos r s =
     (case release_each sys (shouldDeleteVolIds r) s of
        (next_delete, s) \<Rightarrow>
          (case ListMetaInfos capi store k of
             Inl err \<Rightarrow> (Some err, r, s)
           | Inr metaInfos \<Rightarrow>
               (case release_each sys
                       (map pq_VolumeId (filter (\<lambda>q. metaInfos (pq_VolumeId q) = None) quotaInfos)) s of
                  (failed, s) \<Rightarrow> (None, r\<lparr>shouldDeleteVolIds := next_delete @ failed\<rparr>, s))))"

section \<open>Usage of the volumes\<close>

definition shouldUpdate :: "(VolumeId \<rightharpoonup> PathQuotaInfo) \<Rightarrow> PathQuotaInfo \<Rightarrow> bool" where
  "shouldUpdate cache new =
     (case cache (pq_VolumeId new) of
        Some old \<Rightarrow> pq_Path new \<noteq> pq_Path old \<or> HardQuota (pq_Quota new) \<noteq> HardQuota (pq_Quota old) \<or>
                    Used (pq_Quota new) \<noteq> Used (pq_Quota old)
      | None \<Rightarrow> True)"

text \<open>The loop; the result \<open>None\<close> is a panic of the client.\<close>

fun sync_usage_loop ::
    "'k kube \<Rightarrow> json \<Rightarrow> string \<Rightarrow> PathQuotaInfo list \<Rightarrow> (VolumeId \<rightharpoonup> PathQuotaInfo) \<Rightarrow> 'k
       \<Rightarrow> apierr option option \<times> (VolumeId \<rightharpoonup> PathQuotaInfo) \<times> 'k" where
  "sync_usage_loop api js node [] cache k = (Some None, cache, k)"
| "sync_usage_loop api js node (info # rest) cache k =
     (if shouldUpdate cache info then
        (case GetHostPathPVByVolumeId api js k (pq_VolumeId info) of
           None \<Rightarrow> (None, cache, k)
         | Some None \<Rightarrow> sync_usage_loop api js node rest cache k
         | Some (Some hpv) \<Rightarrow>
             (let hpv = hpv_SetUsage (Used (pq_Quota info))
                          (hpv\<lparr>hpv_bindNode := node, hpv_volumePath := pq_Path info\<rparr>)
              in case UpdateHostPathPVUsageInfo api js (hpv_name hpv) hpv k of
                   (Some err, k) \<Rightarrow> (Some (Some err), cache, k)
                 | (None, k) \<Rightarrow> sync_usage_loop api js node rest (cache(pq_VolumeId info \<mapsto> info)) k))
      else sync_usage_loop api js node rest cache k)"

definition syncQuotaPathUsage ::
    "'k kube \<Rightarrow> json \<Rightarrow> PathQuotaInfo list \<Rightarrow> SyncWorker \<Rightarrow> 'k \<Rightarrow> apierr option option \<times> SyncWorker \<times> 'k" where
  "syncQuotaPathUsage api js quotaInfos r k =
     (case sync_usage_loop api js (nodeName r) quotaInfos (lastSyncQuotaInfoCache r) k of
        (res, cache, k) \<Rightarrow> (res, r\<lparr>lastSyncQuotaInfoCache := cache\<rparr>, k))"

section \<open>Status of the node\<close>

text \<open>The first loop: the disabled state of every disk follows the node's annotation.\<close>

definition sync_disabled ::
    "'w os \<Rightarrow> string list \<Rightarrow> DiskQuotaInfo \<Rightarrow> QuotaManager \<times> 'w \<Rightarrow> QuotaManager \<times> 'w" where
  "sync_disabled sys disableDisks disk s =
     (if disk_MountPoint disk \<in> set disableDisks then
        (if disk_Disabled disk = False then snd (qm_SetQuotaDiskDisabledState sys (disk_MountPoint disk) True s) else s)
      else
        (if disk_Disabled disk = True then snd (qm_SetQuotaDiskDisabledState sys (disk_MountPoint disk) False s) else s))"

text \<open>The second loop: the totals, with the wrap-around of \<open>int64\<close>, and the disks.\<close>

definition add_disk :: "DiskQuotaInfo \<Rightarrow> NodeUsageInfo \<Rightarrow> NodeUsageInfo" where
  "add_disk disk n = n\<lparr>
     nu_Capacity := i64 (nu_Capacity n + i64_of_u64 (disk_Capacity disk)),
     nu_QuotaSize := i64 (nu_QuotaSize n + i64_of_u64 (disk_QuotaSize disk)),
     nu_Used := i64 (nu_Used n + i64_of_u64 (disk_Used disk)),
     nu_Allocatable := i64 (nu_Allocatable n + i64_of_u64 (disk_AllocatableSize disk)),
     nu_DiskStatus := nu_DiskStatus n @
       [\<lparr>di_MountPoint = disk_MountPoint disk, di_Capacity = i64_of_u64 (disk_Capacity disk),
         di_QuotaSize = i64_of_u64 (disk_QuotaSize disk), di_Used = i64_of_u64 (disk_Used disk),
         di_Allocatable = i64_of_u64 (disk_AllocatableSize disk), di_Disabled = disk_Disabled disk\<rparr>]\<rparr>"

definition node_usage :: "DiskQuotaInfo list \<Rightarrow> NodeUsageInfo" where
  "node_usage diskInfo =
     (let n = fold add_disk diskInfo zero_NodeUsageInfo
      in n\<lparr>nu_AvailableSize := i64 (nu_Capacity n - nu_Used n),
           nu_DiskStatus := go_sort DiskInfoList_Less (nu_DiskStatus n)\<rparr>)"

text \<open>
  The loop of \<open>shouldNodeUpdate\<close> over the old disks; \<open>None\<close> is an index out of range. The third
  comparison is of the old allocatable size with itself.
\<close>

fun disks_differ :: "DiskInfo list \<Rightarrow> DiskInfo list \<Rightarrow> bool option" where
  "disks_differ [] new = Some False"
| "disks_differ (disk # old) [] = None"
| "disks_differ (disk # old) (d # new) =
     (if di_MountPoint disk \<noteq> di_MountPoint d \<or> RoundOffBytes (di_Used disk) \<noteq> RoundOffBytes (di_Used d) \<or>
         di_Allocatable disk \<noteq> di_Allocatable disk
      then Some True else disks_differ old new)"

definition shouldNodeUpdate :: "NodeUsageInfo \<Rightarrow> NodeUsageInfo \<Rightarrow> bool option" where
  "shouldNodeUpdate old new =
     (if nu_Capacity old \<noteq> nu_Capacity new \<or> nu_QuotaSize old \<noteq> nu_QuotaSize new \<or>
         RoundOffBytes (nu_Used old) \<noteq> RoundOffBytes (nu_Used new)
      then Some True else disks_differ (nu_DiskStatus old) (nu_DiskStatus new))"

definition syncNodeQuotaStatus ::
    "'w os \<Rightarrow> 'k kube \<Rightarrow> json \<Rightarrow> DiskQuotaInfo list \<Rightarrow> SyncWorker \<Rightarrow> QuotaManager \<times> 'w \<Rightarrow> 'k
       \<Rightarrow> apierr option option \<times> SyncWorker \<times> (QuotaManager \<times> 'w) \<times> 'k" where
  "syncNodeQuotaStatus sys api js diskInfo r s k =
     (case GetNodeByName api js k (nodeName r) of
        Inl err \<Rightarrow> (Some (Some err), r, s, k)
      | Inr node \<Rightarrow>
          (let s = fold (sync_disabled sys (hn_disabledDisk node)) diskInfo s;
               nodeDiskInfo = node_usage diskInfo
           in case shouldNodeUpdate (lastNodeUsageInfo r) nodeDiskInfo of
                None \<Rightarrow> (None, r, s, k)
              | Some False \<Rightarrow> (Some None, r, s, k)
              | Some True \<Rightarrow>
                  (case UpdateNodeHostPathPVUsageInfo api js (nodeName r) nodeDiskInfo k of
                     (Some err, k) \<Rightarrow> (Some (Some err), r, s, k)
                   | (None, k) \<Rightarrow> (Some None, r\<lparr>lastNodeUsageInfo := nodeDiskInfo\<rparr>, s, k))))"

section \<open>One round\<close>

text \<open>
  A list that cannot be read is nil. The errors are logged only; a panic, the result \<open>False\<close>, ends
  the process.
\<close>

definition populatorLoopFunc ::
    "'w os \<Rightarrow> 'k kube \<Rightarrow> 'k cm_api \<Rightarrow> json \<Rightarrow> ConfigMapMetaStore \<Rightarrow> SyncWorker \<Rightarrow> QuotaManager \<times> 'w \<Rightarrow> 'k
       \<Rightarrow> bool \<times> SyncWorker \<times> (QuotaManager \<times> 'w) \<times> 'k" where
  "populatorLoopFunc sys api capi js store r s k =
     (case qm_ListPathQuotaInfos sys s of
        (l, s) \<Rightarrow>
          (let quotaInfo = (case l of Inl _ \<Rightarrow> [] | Inr infos \<Rightarrow> infos)
           in case cleanOrphanQuotaPath sys capi store k quotaInfo r s of
                (_, r, s) \<Rightarrow>
                  (case syncQuotaPathUsage api js quotaInfo r k of
                     (None, r, k) \<Rightarrow> (False, r, s, k)
                   | (Some _, r, k) \<Rightarrow>
                       (case qm_ListQuotaDiskInfos sys s of
                          (l, s) \<Rightarrow>
                            (let diskInfo = (case l of Inl _ \<Rightarrow> [] | Inr infos \<Rightarrow> infos)
                             in case syncNodeQuotaStatus sys api js diskInfo r s k of
                                  (res, r, s, k) \<Rightarrow> (res \<noteq> None, r, s, k))))))"

section \<open>Facts\<close>

text \<open>Releasing volumes in turn forgets exactly the ones that did not fail.\<close>

lemma release_each_paths:
  "release_each sys vols s = (failed, s') \<Longrightarrow>
   set failed \<subseteq> set vols \<and> (\<forall>v. v \<notin> set vols \<longrightarrow> qm_path s' v = qm_path s v) \<and>
   (\<forall>v\<in>set vols. qm_path s' v = None \<or> v \<in> set failed) \<and>
   (\<forall>v. qm_path s v = None \<longrightarrow> qm_path s' v = None)"
proof (induction vols arbitrary: s failed)
  case (Cons u vols)
  obtain err s1 where r: "qm_ReleaseVolumePath sys u s = (err, s1)" by (metis surj_pair)
  obtain f where f: "release_each sys vols s1 = (f, s')" "failed = (if err = None then f else u # f)"
    using Cons.prems r by (auto split: prod.splits)
  have p: "qm_path s1 = (if err = None then (qm_path s)(u := None) else qm_path s)"
    using qm.rel_forgets [of sys u s s1] qm.rel_fails [of sys u s _ s1] r by (cases err) auto
  show ?case
    using Cons.IH [OF f(1)] f(2) p by (auto split: if_splits)
qed simp

lemma clean_ok:
  assumes "cleanOrphanQuotaPath sys capi store k infos r s = (None, r', s')"
  obtains metaInfos n f s1 where "ListMetaInfos capi store k = Inr metaInfos"
    "release_each sys (shouldDeleteVolIds r) s = (n, s1)"
    "release_each sys (map pq_VolumeId (filter (\<lambda>q. metaInfos (pq_VolumeId q) = None) infos)) s1 = (f, s')"
    "r' = r\<lparr>shouldDeleteVolIds := n @ f\<rparr>"
  using assms by (auto simp: cleanOrphanQuotaPath_def split: prod.splits sum.splits)

lemma add_disk_sums:
  "nu_DiskStatus (fold add_disk ds n) = nu_DiskStatus n @ map
     (\<lambda>d. \<lparr>di_MountPoint = disk_MountPoint d, di_Capacity = i64_of_u64 (disk_Capacity d),
         di_QuotaSize = i64_of_u64 (disk_QuotaSize d), di_Used = i64_of_u64 (disk_Used d),
         di_Allocatable = i64_of_u64 (disk_AllocatableSize d), di_Disabled = disk_Disabled d\<rparr>) ds"
  by (induction ds arbitrary: n) (simp_all add: add_disk_def)

lemma add_disk_total:
  assumes "\<forall>d n. sel (add_disk d n) = i64 (sel n + i64_of_u64 (field d))"
  shows "i64 (sel (fold add_disk ds n)) = i64 (sel n + (\<Sum>d\<leftarrow>ds. i64_of_u64 (field d)))"
proof (induction ds arbitrary: n)
  case (Cons d ds)
  have "i64 (sel (fold add_disk (d # ds) n)) = i64 (sel (add_disk d n) + (\<Sum>d\<leftarrow>ds. i64_of_u64 (field d)))"
    using Cons.IH [of "add_disk d n"] by simp
  also have "\<dots> = i64 (sel n + i64_of_u64 (field d) + (\<Sum>d\<leftarrow>ds. i64_of_u64 (field d)))"
    using assms by (simp add: i64_add)
  finally show ?case by (simp add: add.assoc)
qed simp

text \<open>The totals of the published usage are the sums over the disks, modulo the wrap-around.\<close>

lemma node_usage_totals:
  "i64 (nu_Capacity (node_usage ds)) = i64 (\<Sum>d\<leftarrow>ds. i64_of_u64 (disk_Capacity d))"
  "i64 (nu_QuotaSize (node_usage ds)) = i64 (\<Sum>d\<leftarrow>ds. i64_of_u64 (disk_QuotaSize d))"
  "i64 (nu_Used (node_usage ds)) = i64 (\<Sum>d\<leftarrow>ds. i64_of_u64 (disk_Used d))"
  "i64 (nu_Allocatable (node_usage ds)) = i64 (\<Sum>d\<leftarrow>ds. i64_of_u64 (disk_AllocatableSize d))"
  using add_disk_total [of nu_Capacity disk_Capacity ds zero_NodeUsageInfo]
    add_disk_total [of nu_QuotaSize disk_QuotaSize ds zero_NodeUsageInfo]
    add_disk_total [of nu_Used disk_Used ds zero_NodeUsageInfo]
    add_disk_total [of nu_Allocatable disk_AllocatableSize ds zero_NodeUsageInfo]
  by (simp_all add: node_usage_def add_disk_def zero_NodeUsageInfo_def Let_def)

lemma add_disk_range:
  assumes "\<forall>d n. sel (add_disk d n) = i64 (sel n + i64_of_u64 (field d))" "i64 (sel n) = sel n"
  shows "i64 (sel (fold add_disk ds n)) = sel (fold add_disk ds n)"
  using assms(2) by (induction ds arbitrary: n) (simp_all add: assms(1) i64_i64)

lemma node_usage_range:
  "i64 (nu_Capacity (node_usage ds)) = nu_Capacity (node_usage ds)"
  "i64 (nu_QuotaSize (node_usage ds)) = nu_QuotaSize (node_usage ds)"
  "i64 (nu_Used (node_usage ds)) = nu_Used (node_usage ds)"
  "i64 (nu_Allocatable (node_usage ds)) = nu_Allocatable (node_usage ds)"
  using add_disk_range [of nu_Capacity disk_Capacity zero_NodeUsageInfo ds]
    add_disk_range [of nu_QuotaSize disk_QuotaSize zero_NodeUsageInfo ds]
    add_disk_range [of nu_Used disk_Used zero_NodeUsageInfo ds]
    add_disk_range [of nu_Allocatable disk_AllocatableSize zero_NodeUsageInfo ds]
  by (simp_all add: node_usage_def add_disk_def zero_NodeUsageInfo_def Let_def)

lemma node_usage_disks:
  "mset (nu_DiskStatus (node_usage ds)) = mset (map
     (\<lambda>d. \<lparr>di_MountPoint = disk_MountPoint d, di_Capacity = i64_of_u64 (disk_Capacity d),
         di_QuotaSize = i64_of_u64 (disk_QuotaSize d), di_Used = i64_of_u64 (disk_Used d),
         di_Allocatable = i64_of_u64 (disk_AllocatableSize d), di_Disabled = disk_Disabled d\<rparr>) ds)"
  "sorted_wrt (\<lambda>a b. di_Allocatable b \<le> di_Allocatable a) (nu_DiskStatus (node_usage ds))"
proof -
  show "mset (nu_DiskStatus (node_usage ds)) = mset (map
     (\<lambda>d. \<lparr>di_MountPoint = disk_MountPoint d, di_Capacity = i64_of_u64 (disk_Capacity d),
         di_QuotaSize = i64_of_u64 (disk_QuotaSize d), di_Used = i64_of_u64 (disk_Used d),
         di_Allocatable = i64_of_u64 (disk_AllocatableSize d), di_Disabled = disk_Disabled d\<rparr>) ds)"
    by (simp add: node_usage_def add_disk_sums zero_NodeUsageInfo_def Let_def)
  have "sorted_wrt (\<lambda>a b. \<not> DiskInfoList_Less b a) (nu_DiskStatus (node_usage ds))"
    by (simp add: node_usage_def Let_def disk_info_sort.go_sort_sorted)
  then show "sorted_wrt (\<lambda>a b. di_Allocatable b \<le> di_Allocatable a) (nu_DiskStatus (node_usage ds))"
    by (rule sorted_wrt_mono_rel [rotated]) (auto simp: DiskInfoList_Less_def split: if_splits)
qed

lemma disks_differ_safe: "length old \<le> length new \<Longrightarrow> disks_differ old new \<noteq> None"
  by (induction old new rule: disks_differ.induct) auto

lemma disks_differ_same:
  "list_all2 (\<lambda>a b. di_MountPoint a = di_MountPoint b \<and> di_Used a = di_Used b) old new \<Longrightarrow>
   disks_differ old new = Some False"
  by (induction old new rule: list_all2_induct) auto

lemma clean_paths:
  assumes "cleanOrphanQuotaPath sys capi store k infos r s = (None, r', s')"
    and "ListMetaInfos capi store k = Inr metaInfos"
  shows "(\<forall>v. qm_path s' v = qm_path s v \<or> metaInfos v = None \<or> v \<in> set (shouldDeleteVolIds r)) \<and>
    (\<forall>q\<in>set infos. metaInfos (pq_VolumeId q) \<noteq> None \<or> qm_path s' (pq_VolumeId q) = None \<or>
       pq_VolumeId q \<in> set (shouldDeleteVolIds r'))"
proof -
  obtain n f s1 where c: "release_each sys (shouldDeleteVolIds r) s = (n, s1)"
    "release_each sys (map pq_VolumeId (filter (\<lambda>q. metaInfos (pq_VolumeId q) = None) infos)) s1 = (f, s')"
    "r' = r\<lparr>shouldDeleteVolIds := n @ f\<rparr>"
    using clean_ok [OF assms(1)] assms(2) by (metis sum.inject(2))
  note p = release_each_paths [OF c(1)] release_each_paths [OF c(2)]
  have "qm_path s' v = qm_path s v" if "metaInfos v \<noteq> None" "v \<notin> set (shouldDeleteVolIds r)" for v
  proof -
    have "v \<notin> set (map pq_VolumeId (filter (\<lambda>q. metaInfos (pq_VolumeId q) = None) infos))" using that(1) by auto
    then show ?thesis using p that(2) by metis
  qed
  moreover have "qm_path s' (pq_VolumeId q) = None \<or> pq_VolumeId q \<in> set (shouldDeleteVolIds r')"
    if "q \<in> set infos" "metaInfos (pq_VolumeId q) = None" for q
    using p(2) that by (auto simp: c(3))
  ultimately show ?thesis by blast
qed

section \<open>Properties\<close>

text \<open>
  C7. A cleaning round that reads the meta store takes a directory only from a volume the meta
  store does not know, or that an earlier round left for a retry; and it gives the directory of every
  listed volume the meta store does not know back, or keeps the volume for the next round.
\<close>

theorem clean_releases_orphans:
  assumes "cleanOrphanQuotaPath sys capi store k infos r s = (None, r', s')"
    and "ListMetaInfos capi store k = Inr metaInfos"
  shows "(\<forall>v. qm_path s' v = qm_path s v \<or> metaInfos v = None \<or> v \<in> set (shouldDeleteVolIds r)) \<and>
    (\<forall>q\<in>set infos. metaInfos (pq_VolumeId q) \<noteq> None \<or> qm_path s' (pq_VolumeId q) = None \<or>
       pq_VolumeId q \<in> set (shouldDeleteVolIds r'))"
  using assms by (rule clean_paths)

text \<open>One volume on the node; the config map is empty or knows the volume.\<close>

definition path1 :: PathQuotaInfo where
  "path1 = new_info ''/xfs/d1/k8squota_v1'' ''/dev/sdb'' 4096 0 ''v1''"

definition manager1 :: XFSQuotaManager where
  "manager1 = manager0\<lparr>quotas := [(''v1'', path1)]\<rparr>"

definition worker0 :: SyncWorker where
  "worker0 = \<lparr>shouldDeleteVolIds = [], nodeName = ''n1'', lastSyncQuotaInfoCache = Map.empty,
     lastNodeUsageInfo = zero_NodeUsageInfo\<rparr>"

definition cm_of :: "string list \<Rightarrow> mem_api" where
  "cm_of vols = [(''ns'', ''cm'') \<mapsto>
     \<lparr>cm_Name = ''cm'', cm_Data = Some (map_of (map (\<lambda>v. (v, '''')) vols)), cm_Version = 1\<rparr>]"

definition store1 :: ConfigMapMetaStore where "store1 = \<lparr>ms_cmName = ''cm'', ms_cmNamespace = ''ns''\<rparr>"

lemma list_cm_of: "ListMetaInfos mem_cm store1 (cm_of vols) = Inr (map_of (map (\<lambda>v. (v, '''')) vols))"
  by (simp add: ListMetaInfos_def mem_cm_def cm_of_def store1_def go_map_def)

lemma manager1_release: "\<exists>s'. qm_ReleaseVolumePath mem_os ''v1'' (XFS manager1, mem0) = (None, s')"
  by (simp add: qm_ReleaseVolumePath_def ReleaseVolumePath_def manager1_def path1_def new_info_def manager0_def disk0_def
      DeleteProjectQuota_def NewXFSVolumeQuotaProvider_def IsPathExist_def mem_os_def mem0_def IsNotExist_def Let_def)

lemma manager1_path: "qm_path (XFS manager1, mem0) ''v1'' = Some ''/xfs/d1/k8squota_v1''"
  by (simp add: qm_path_def xq_path_def manager1_def path1_def new_info_def)

theorem clean_releases_orphans_witness:
  "\<exists>r' s'. cleanOrphanQuotaPath mem_os mem_cm store1 (cm_of []) [path1] worker0 (XFS manager1, mem0) = (None, r', s') \<and>
     qm_path (XFS manager1, mem0) ''v1'' = Some ''/xfs/d1/k8squota_v1'' \<and>
     (qm_path s' ''v1'' = None \<or> ''v1'' \<in> set (shouldDeleteVolIds r'))"
proof -
  obtain s' where s: "qm_ReleaseVolumePath mem_os ''v1'' (XFS manager1, mem0) = (None, s')"
    using manager1_release by blast
  have m: "ListMetaInfos mem_cm store1 (cm_of []) = Inr Map.empty" by (simp add: list_cm_of)
  have v: "pq_VolumeId path1 = ''v1''" by (simp add: path1_def new_info_def)
  have c: "cleanOrphanQuotaPath mem_os mem_cm store1 (cm_of []) [path1] worker0 (XFS manager1, mem0) = (None, worker0, s')"
    by (simp add: cleanOrphanQuotaPath_def m v worker0_def) (simp add: s)
  from clean_releases_orphans [OF c m] show ?thesis using c v manager1_path by auto
qed

text \<open>
  The retries of a cleaning round do not look at the meta store: the first volume of the retry
  list loses its directory whenever the removal succeeds, also when the volume has been created again
  since, and also when the round then fails to read the meta store.
\<close>

lemma retry_ignores_meta_store:
  assumes "shouldDeleteVolIds r = v # vols" "qm_ReleaseVolumePath sys v s = (None, s1)"
    and "cleanOrphanQuotaPath sys capi store k infos r s = (err, r', s')"
  shows "qm_path s' v = None"
proof -
  obtain n s2 where n: "release_each sys vols s1 = (n, s2)" by (metis surj_pair)
  have "qm_path s1 v = None" using qm.rel_forgets [OF assms(2)] by simp
  then have s2: "qm_path s2 v = None" using release_each_paths [OF n] by blast
  have r: "release_each sys (shouldDeleteVolIds r) s = (n, s2)" using assms(1,2) n by simp
  show ?thesis
  proof (cases "ListMetaInfos capi store k")
    case (Inl e)
    then show ?thesis using assms(3) r s2 by (simp add: cleanOrphanQuotaPath_def)
  next
    case (Inr metaInfos)
    then obtain f where "release_each sys (map pq_VolumeId (filter (\<lambda>q. metaInfos (pq_VolumeId q) = None) infos)) s2 = (f, s')"
      using assms(3) r by (auto simp: cleanOrphanQuotaPath_def split: prod.splits)
    from release_each_paths [OF this] show ?thesis using s2 by blast
  qed
qed


definition json1 :: json where
  "json1 = json0\<lparr>Unmarshal_node := (\<lambda>_. Some (node_usage [disk0 ''/dev/sdb'' ''/xfs/d1'' 1073741824]))\<rparr>"


text \<open>
  A change of the allocatable sizes or of the disabled states alone is not published: when
  the totals and the use of every disk are the ones published last, a round leaves the cluster and the
  worker as they are, because \<open>shouldNodeUpdate\<close> compares the allocatable size of the old disk
  with itself.
\<close>

lemma allocatable_change_not_published:
  assumes "nu_Capacity (node_usage ds) = nu_Capacity (lastNodeUsageInfo r)"
    and "nu_QuotaSize (node_usage ds) = nu_QuotaSize (lastNodeUsageInfo r)"
    and "nu_Used (node_usage ds) = nu_Used (lastNodeUsageInfo r)"
    and "list_all2 (\<lambda>a b. di_MountPoint a = di_MountPoint b \<and> di_Used a = di_Used b)
           (nu_DiskStatus (lastNodeUsageInfo r)) (nu_DiskStatus (node_usage ds))"
    and "syncNodeQuotaStatus sys api js ds r s k = (res, r', s', k')"
  shows "k' = k \<and> r' = r"
proof -
  have "shouldNodeUpdate (lastNodeUsageInfo r) (node_usage ds) = Some False"
    using assms(1-3) disks_differ_same [OF assms(4)] by (simp add: shouldNodeUpdate_def)
  then show ?thesis using assms(5) by (auto simp: syncNodeQuotaStatus_def Let_def split: sum.splits)
qed

end
