(* ===== verification/Driver.thy ===== *)
theory Driver
  imports Controller_Server Node_Server Sync_Worker
begin

text \<open>
  The assembly of the CSI plugin: pkg/csi-plugin/hostpath/driver.go with the configuration of
  pkg/util/config.go, the gRPC server of pkg/csi-plugin/csi-common/server.go and utils.go, and the
  probe of pkg/csi-plugin/liveness/liveness.go. The network, the
  metrics library and the number parsers of the metrics branch, which the plugin never enables, are
  parameters.
\<close>

section \<open>server.go\<close>

text \<open>
  A value of a Go interface type: nil, or a value with a pointer that may itself be nil. Only the
  first compares equal to nil.
\<close>

datatype 'a iface = NilInterface | Holds "'a option"

definition not_nil :: "'a iface \<Rightarrow> bool" where
  "not_nil i \<longleftrightarrow> i \<noteq> NilInterface"

record net =
  net_Remove :: "string \<Rightarrow> oserr option"
  net_Listen :: "string \<Rightarrow> string \<Rightarrow> string option"
  net_ParseFloat :: "string \<Rightarrow> rat option"
  net_Atoi :: "string \<Rightarrow> int option"
  net_Buckets :: "rat \<Rightarrow> rat \<Rightarrow> int \<Rightarrow> bool"

datatype service = IdentityService | ControllerService | NodeService

datatype serve_result =
    InvalidEndpoint string | RemoveFailed string oserr | ListenFailed string
  | InvalidHistogram string | BadStart string | BucketsPanic
  | Serving string string "service list"

definition registered :: "'a iface \<Rightarrow> 'b iface \<Rightarrow> 'c iface \<Rightarrow> service list" where
  "registered ids cs ns =
     (if not_nil ids then [IdentityService] else []) @ (if not_nil cs then [ControllerService] else []) @
     (if not_nil ns then [NodeService] else [])"

text \<open>
  The metrics branch. The errors of the second and third number are compared through the wrong
  variable, which is nil here, so a number that does not parse is used as zero.
\<close>

definition histogram :: "net \<Rightarrow> string \<Rightarrow> serve_result option" where
  "histogram n hstOptions =
     (case split_on CHR '','' hstOptions of
        [h0, h1, h2] \<Rightarrow>
          (case net_ParseFloat n h0 of
             None \<Rightarrow> Some (BadStart h0)
           | Some start \<Rightarrow>
               (let factor = (case net_ParseFloat n h1 of None \<Rightarrow> 0 | Some f \<Rightarrow> f);
                    count = (case net_Atoi n h2 of None \<Rightarrow> 0 | Some c \<Rightarrow> c)
                in if net_Buckets n start factor count then None else Some BucketsPanic))
      | _ \<Rightarrow> Some (InvalidHistogram hstOptions))"

definition serve ::
    "net \<Rightarrow> string \<Rightarrow> string \<Rightarrow> 'a iface \<Rightarrow> 'b iface \<Rightarrow> 'c iface \<Rightarrow> bool \<Rightarrow> serve_result" where
  "serve n endpoint hstOptions ids cs ns metrics =
     (case parseEndpoint endpoint of
        None \<Rightarrow> InvalidEndpoint endpoint
      | Some (proto, addr) \<Rightarrow>
          (let addr = (if proto = ''unix'' then ''/'' @ addr else addr);
               rm = (if proto = ''unix'' then net_Remove n addr else None)
           in if rm \<noteq> None \<and> rm \<noteq> Some ENOENT then RemoveFailed addr (the rm)
              else case net_Listen n proto addr of
                     Some err \<Rightarrow> ListenFailed err
                   | None \<Rightarrow>
                       (case (if metrics then histogram n hstOptions else None) of
                          Some res \<Rightarrow> res
                        | None \<Rightarrow> Serving proto addr (registered ids cs ns))))"

text \<open>The three starters of utils.go, which pass a literal nil for the service they leave out.\<close>

definition RunNodePublishServer :: "net \<Rightarrow> string \<Rightarrow> string \<Rightarrow> CSIDriver \<Rightarrow> 'c iface \<Rightarrow> bool \<Rightarrow> serve_result" where
  "RunNodePublishServer n endpoint hstOption d ns m =
     serve n endpoint hstOption (Holds (Some d)) (NilInterface :: unit iface) ns m"

definition RunControllerPublishServer :: "net \<Rightarrow> string \<Rightarrow> string \<Rightarrow> CSIDriver \<Rightarrow> 'b iface \<Rightarrow> bool \<Rightarrow> serve_result" where
  "RunControllerPublishServer n endpoint hstOption d cs m =
     serve n endpoint hstOption (Holds (Some d)) cs (NilInterface :: unit iface) m"

definition RunControllerandNodePublishServer ::
    "net \<Rightarrow> string \<Rightarrow> string \<Rightarrow> CSIDriver \<Rightarrow> 'b iface \<Rightarrow> 'c iface \<Rightarrow> bool \<Rightarrow> serve_result" where
  "RunControllerandNodePublishServer n endpoint hstOption d cs ns m =
     serve n endpoint hstOption (Holds (Some d)) cs ns m"

section \<open>driver.go\<close>

record Config =
  conf_KubeConfig :: string
  conf_Endpoint :: string
  conf_DriverName :: string
  conf_NodeID :: string
  conf_PluginPath :: string
  conf_MetaConfigMapName :: string
  conf_MetaConfigMapNamespace :: string
  conf_MetricsPath :: string
  conf_HistogramOption :: string
  conf_PollTime :: int
  conf_PoolTimeout :: int
  conf_IsControllerServer :: bool
  conf_IsNodeServer :: bool

record ControllerServer =
  cs_VolumeLocks :: VolumeLocks
  cs_mStore :: ConfigMapMetaStore

record NodeServer =
  ns_VolumeLocks :: VolumeLocks
  ns_quotaMng :: QuotaManager
  ns_nodeName :: string

definition NewControllerServer :: "ConfigMapMetaStore \<Rightarrow> ControllerServer" where
  "NewControllerServer mStore = \<lparr>cs_VolumeLocks = NewVolumeLocks, cs_mStore = mStore\<rparr>"

text \<open>\<open>None\<close> is the panic of the quota manager's start.\<close>

definition NewNodeServer :: "'w os \<Rightarrow> string \<Rightarrow> 'w \<Rightarrow> (NodeServer \<times> 'w) option" where
  "NewNodeServer sys node w =
     map_option (\<lambda>(qm, w). (\<lparr>ns_VolumeLocks = NewVolumeLocks, ns_quotaMng = qm, ns_nodeName = node\<rparr>, w))
       (NewXfsQuotaManager sys ''/xfs'' w)"

definition new_worker :: "string \<Rightarrow> SyncWorker" where
  "new_worker node = \<lparr>shouldDeleteVolIds = [], nodeName = node, lastSyncQuotaInfoCache = Map.empty,
     lastNodeUsageInfo = zero_NodeUsageInfo\<rparr>"

record Driver =
  hp_cd :: CSIDriver
  hp_ns :: "NodeServer option"
  hp_cs :: "ControllerServer option"
  hp_worker :: "SyncWorker option"

datatype start_error = NoDriver | MetaStoreFailed apierr | StartPanic

definition add_capabilities :: "CSIDriver \<Rightarrow> CSIDriver" where
  "add_capabilities d =
     snd (AddVolumeCapabilityAccessModes [SINGLE_NODE_READER_ONLY, SINGLE_NODE_WRITER]
       (AddControllerServiceCapabilities [CREATE_DELETE_VOLUME, EXPAND_VOLUME] d))"

text \<open>What \<open>Run\<close> has built when it starts the gRPC server, or why the process ended before.\<close>

definition Run_setup ::
    "'w os \<Rightarrow> 'k cm_api \<Rightarrow> Config \<Rightarrow> string \<Rightarrow> 'w \<Rightarrow> 'k \<Rightarrow> (start_error + Driver) \<times> 'w \<times> 'k" where
  "Run_setup sys capi conf version w k =
     (case NewCSIDriver HostPathCsiDriverName version (conf_NodeID conf) of
        None \<Rightarrow> (Inl NoDriver, w, k)
      | Some d \<Rightarrow>
          (let d = add_capabilities d
           in case (if conf_IsNodeServer conf \<or> conf_IsControllerServer conf
                    then NewConfigMapMetaStore capi (conf_MetaConfigMapName conf) (conf_MetaConfigMapNamespace conf) k
                    else (Inr \<lparr>ms_cmName = '''', ms_cmNamespace = ''''\<rparr>, k)) of
                (Inl err, k) \<Rightarrow> (Inl (MetaStoreFailed err), w, k)
              | (Inr metaStore, k) \<Rightarrow>
                  (let cs = (if conf_IsControllerServer conf then Some (NewControllerServer metaStore) else None)
                   in if conf_IsNodeServer conf then
                        (case NewNodeServer sys (conf_NodeID conf) w of
                           None \<Rightarrow> (Inl StartPanic, w, k)
                         | Some (ns, w) \<Rightarrow>
                             (Inr \<lparr>hp_cd = d, hp_ns = Some ns, hp_cs = cs,
                                   hp_worker = Some (new_worker (conf_NodeID conf))\<rparr>, w, k))
                      else (Inr \<lparr>hp_cd = d, hp_ns = None, hp_cs = cs, hp_worker = None\<rparr>, w, k))))"

text \<open>The pointers to the two servers are passed on as interface values, nil or not.\<close>

definition Run :: "'w os \<Rightarrow> 'k cm_api \<Rightarrow> net \<Rightarrow> Config \<Rightarrow> string \<Rightarrow> 'w \<Rightarrow> 'k \<Rightarrow> (start_error + serve_result) \<times> 'w \<times> 'k" where
  "Run sys capi n conf version w k =
     (case Run_setup sys capi conf version w k of
        (Inl err, w, k) \<Rightarrow> (Inl err, w, k)
      | (Inr hp, w, k) \<Rightarrow>
          (Inr (serve n (conf_Endpoint conf) (conf_HistogramOption conf) (Holds (Some (hp_cd hp))) (Holds (hp_cs hp))
                  (Holds (hp_ns hp)) False), w, k))"

text \<open>
  A call of the controller service through the interceptor: a nil server panics on its first field
  access.
\<close>

definition controller_CreateVolume ::
    "'k cm_api \<Rightarrow> CSIDriver \<Rightarrow> ControllerServer option \<Rightarrow> CreateVolumeRequest \<Rightarrow> 'k
       \<Rightarrow> (apierr status + CreateVolumeResponse) \<times> ControllerServer option \<times> 'k" where
  "controller_CreateVolume capi d cs req k =
     (case cs of
        None \<Rightarrow> (panicHandler (Panics nil_dereference), None, k)
      | Some cs \<Rightarrow>
          (case CreateVolume capi d (cs_mStore cs) req (cs_VolumeLocks cs) k of
             (r, l, k) \<Rightarrow> (panicHandler (Replies r), Some (cs\<lparr>cs_VolumeLocks := l\<rparr>), k)))"

section \<open>The probe\<close>

definition getLiveness :: "string + bool \<Rightarrow> nat" where
  "getLiveness probe = (case probe of Inl err \<Rightarrow> 0 | Inr ready \<Rightarrow> if \<not> ready then 0 else 1)"

section \<open>Facts\<close>

lemma serve_registers: "serve n endpoint hst ids cs ns m = Serving proto addr services \<Longrightarrow> services = registered ids cs ns"
  by (auto simp: serve_def histogram_def Let_def split: option.splits prod.splits if_splits list.splits)

text \<open>The driver that \<open>Run\<close> sets up offers creation, deletion and expansion.\<close>

lemma setup_capabilities:
  assumes "Run_setup sys capi conf version w k = (Inr hp, w', k')"
  shows "drv_cap (hp_cd hp) = [CREATE_DELETE_VOLUME, EXPAND_VOLUME] \<and>
    (hp_cs hp \<noteq> None \<longleftrightarrow> conf_IsControllerServer conf) \<and> (hp_ns hp \<noteq> None \<longleftrightarrow> conf_IsNodeServer conf)"
  using assms
  by (auto simp: Run_setup_def add_capabilities_def AddControllerServiceCapabilities_def
      AddVolumeCapabilityAccessModes_def Let_def split: option.splits sum.splits prod.splits if_splits)

lemma fail_without_node_id: "conf_NodeID conf = '''' \<Longrightarrow> Run_setup sys capi conf version w k = (Inl NoDriver, w, k)"
  by (simp add: Run_setup_def NewCSIDriver_def HostPathCsiDriverName_def)

section \<open>Properties\<close>

text \<open>
  Every running instance of the plugin serves all three services, whatever it was configured
  for, since a nil server in an interface value does not compare equal to nil. On an instance without
  a controller every request to create a volume then ends in an internal error and changes nothing.
\<close>

lemma services_always_registered:
  assumes "Run sys capi n conf version w k = (Inr (Serving proto addr services), w', k')"
  shows "services = [IdentityService, ControllerService, NodeService] \<and>
    (\<exists>hp. Run_setup sys capi conf version w k = (Inr hp, w', k') \<and>
       (\<not> conf_IsControllerServer conf \<longrightarrow>
          (\<exists>e. controller_CreateVolume capi (hp_cd hp) (hp_cs hp) req k' = (Inl (status_Error Internal e), None, k'))))"
proof -
  obtain hp where hp: "Run_setup sys capi conf version w k = (Inr hp, w', k')"
      "serve n (conf_Endpoint conf) (conf_HistogramOption conf) (Holds (Some (hp_cd hp))) (Holds (hp_cs hp))
         (Holds (hp_ns hp)) False = Serving proto addr services"
    using assms by (auto simp: Run_def split: prod.splits sum.splits)
  have "services = [IdentityService, ControllerService, NodeService]"
    using serve_registers [OF hp(2)] by (simp add: registered_def not_nil_def)
  moreover have "hp_cs hp = None" if "\<not> conf_IsControllerServer conf" using setup_capabilities [OF hp(1)] that by auto
  ultimately show ?thesis using hp(1) by (auto simp: controller_CreateVolume_def panicHandler_def)
qed

definition net0 :: net where
  "net0 = \<lparr>net_Remove = (\<lambda>_. Some ENOENT), net_Listen = (\<lambda>_ _. None), net_ParseFloat = (\<lambda>_. None), net_Atoi = (\<lambda>_. None),
     net_Buckets = (\<lambda>_ _ _. False)\<rparr>"

definition conf0 :: Config where
  "conf0 = \<lparr>conf_KubeConfig = '''', conf_Endpoint = ''unix://tmp/csi.sock'', conf_DriverName = '''', conf_NodeID = ''n1'',
     conf_PluginPath = ''/var/lib/kubelet/plugins/'', conf_MetaConfigMapName = ''cm'', conf_MetaConfigMapNamespace = ''ns'',
     conf_MetricsPath = '''', conf_HistogramOption = '''', conf_PollTime = 0, conf_PoolTimeout = 0,
     conf_IsControllerServer = False, conf_IsNodeServer = False\<rparr>"

lemma conf0_runs:
  "Run mem_os mem_cm net0 conf0 ''v1'' mem0 (cm_of []) =
     (Inr (Serving ''unix'' ''/tmp/csi.sock'' [IdentityService, ControllerService, NodeService]), mem0, cm_of [])"
proof -
  have "parseEndpoint ''unix://tmp/csi.sock'' = Some (''unix'', ''tmp/csi.sock'')" by code_simp
  then show ?thesis
    by (simp add: Run_def Run_setup_def NewCSIDriver_def HostPathCsiDriverName_def conf0_def serve_def net0_def
        registered_def not_nil_def)
qed

end
