(* ===== verification/Indexer.thy ===== *)
theory Indexer
  imports Prelude
begin

text \<open>
  The object cache of client-go that the scheduler's controller reads,
  vendor/k8s.io/client-go/tools/cache/thread_safe_store.go and store.go: objects under their key, and
  for every named index the keys of the objects with a given index value. A missing set of keys is
  the empty list. The locale \<open>object_index\<close> is the contract the controller relies on.
\<close>

section \<open>thread_safe_store.go\<close>

text \<open>\<open>tm_indices name value\<close> is the set of keys, in the order a loop visits it.\<close>

record 'o threadSafeMap =
  tm_items :: "(string \<times> 'o) list"
  tm_indexers :: "(string \<times> ('o \<Rightarrow> string list)) list"
  tm_indices :: "string \<Rightarrow> string \<Rightarrow> string list"

definition NewThreadSafeStore :: "(string \<times> ('o \<Rightarrow> string list)) list \<Rightarrow> 'o threadSafeMap" where
  "NewThreadSafeStore indexers = \<lparr>tm_items = [], tm_indexers = indexers, tm_indices = (\<lambda>_ _. [])\<rparr>"

definition set_Insert :: "string \<Rightarrow> string list \<Rightarrow> string list" where
  "set_Insert key s = (if key \<in> set s then s else s @ [key])"

definition set_Delete :: "string \<Rightarrow> string list \<Rightarrow> string list" where
  "set_Delete key s = filter (\<lambda>k. k \<noteq> key) s"

text \<open>One step of the loops over the indexers: \<open>f\<close> on the sets of all index values of the object.\<close>

definition touch_index ::
    "(string list \<Rightarrow> string list) \<Rightarrow> 'o \<Rightarrow> string \<times> ('o \<Rightarrow> string list)
       \<Rightarrow> (string \<Rightarrow> string \<Rightarrow> string list) \<Rightarrow> string \<Rightarrow> string \<Rightarrow> string list" where
  "touch_index f obj = (\<lambda>(name, indexFunc) indices.
     indices(name := fold (\<lambda>indexValue index. index(indexValue := f (index indexValue))) (indexFunc obj) (indices name)))"

definition deleteFromIndices :: "'o \<Rightarrow> string \<Rightarrow> 'o threadSafeMap \<Rightarrow> 'o threadSafeMap" where
  "deleteFromIndices obj key c =
     c\<lparr>tm_indices := fold (touch_index (set_Delete key) obj) (tm_indexers c) (tm_indices c)\<rparr>"

definition updateIndices :: "'o option \<Rightarrow> 'o \<Rightarrow> string \<Rightarrow> 'o threadSafeMap \<Rightarrow> 'o threadSafeMap" where
  "updateIndices oldObj newObj key c =
     (let c = (case oldObj of None \<Rightarrow> c | Some obj \<Rightarrow> deleteFromIndices obj key c)
      in c\<lparr>tm_indices := fold (touch_index (set_Insert key) newObj) (tm_indexers c) (tm_indices c)\<rparr>)"

definition tm_Add :: "string \<Rightarrow> 'o \<Rightarrow> 'o threadSafeMap \<Rightarrow> 'o threadSafeMap" where
  "tm_Add key obj c =
     (let oldObject = map_of (tm_items c) key
      in updateIndices oldObject obj key (c\<lparr>tm_items := al_put key obj (tm_items c)\<rparr>))"

definition tm_Update :: "string \<Rightarrow> 'o \<Rightarrow> 'o threadSafeMap \<Rightarrow> 'o threadSafeMap" where
  "tm_Update key obj c =
     (let oldObject = map_of (tm_items c) key
      in updateIndices oldObject obj key (c\<lparr>tm_items := al_put key obj (tm_items c)\<rparr>))"

definition tm_Delete :: "string \<Rightarrow> 'o threadSafeMap \<Rightarrow> 'o threadSafeMap" where
  "tm_Delete key c =
     (case map_of (tm_items c) key of
        None \<Rightarrow> c
      | Some obj \<Rightarrow> (deleteFromIndices obj key c)\<lparr>tm_items := al_del key (tm_items c)\<rparr>)"

definition tm_Get :: "string \<Rightarrow> 'o threadSafeMap \<Rightarrow> 'o option" where
  "tm_Get key c = map_of (tm_items c) key"

definition tm_List :: "'o threadSafeMap \<Rightarrow> 'o list" where
  "tm_List c = map snd (tm_items c)"

text \<open>
  An unknown index is an error (\<open>None\<close>). An element of the result is \<open>None\<close> where the key of the
  index has no object (a nil interface).
\<close>

definition tm_ByIndex :: "string \<Rightarrow> string \<Rightarrow> 'o threadSafeMap \<Rightarrow> 'o option list option" where
  "tm_ByIndex indexName indexedValue c =
     (case map_of (tm_indexers c) indexName of
        None \<Rightarrow> None
      | Some indexFunc \<Rightarrow> Some (map (map_of (tm_items c)) (tm_indices c indexName indexedValue)))"

section \<open>store.go\<close>

definition MetaNamespaceKeyFunc :: "string \<Rightarrow> string \<Rightarrow> string" where
  "MetaNamespaceKeyFunc namespace name = (if length namespace > 0 then namespace @ ''/'' @ name else name)"

section \<open>The contract\<close>

text \<open>
  A store of objects with one index: what it holds, and that the index answers with exactly the held
  objects that have the value.
\<close>

locale object_index =
  fixes inv :: "'s \<Rightarrow> bool"
    and held :: "'s \<Rightarrow> string \<rightharpoonup> 'o"
    and put :: "string \<Rightarrow> 'o \<Rightarrow> 's \<Rightarrow> 's"
    and del :: "string \<Rightarrow> 's \<Rightarrow> 's"
    and by_index :: "string \<Rightarrow> 's \<Rightarrow> 'o option list"
    and index_values :: "'o \<Rightarrow> string list"
  assumes put_inv: "inv s \<Longrightarrow> inv (put key obj s)"
    and put_held: "held (put key obj s) = (held s)(key \<mapsto> obj)"
    and del_inv: "inv s \<Longrightarrow> inv (del key s)"
    and del_held: "held (del key s) = (held s)(key := None)"
    and by_index_held: "inv s \<Longrightarrow>
      set (by_index v s) = {Some obj | obj. \<exists>key. held s key = Some obj \<and> v \<in> set (index_values obj)}"
begin

text \<open>An object that was put last under its key is found under its index values.\<close>

lemma put_found: "inv s \<Longrightarrow> v \<in> set (index_values obj) \<Longrightarrow> Some obj \<in> set (by_index v (put key obj s))"
  using by_index_held [OF put_inv] put_held by (auto simp: put_held)

lemma by_index_sound: "inv s \<Longrightarrow> o' \<in> set (by_index v s) \<Longrightarrow> \<exists>obj key. o' = Some obj \<and> held s key = Some obj \<and> v \<in> set (index_values obj)"
  using by_index_held by auto

text \<open>When one held object only has the value, the index answers with it alone.\<close>

lemma by_index_unique:
  assumes "inv s" "held s key = Some obj" "v \<in> set (index_values obj)"
    and "\<forall>key' obj'. held s key' = Some obj' \<and> v \<in> set (index_values obj') \<longrightarrow> obj' = obj"
  shows "set (by_index v s) = {Some obj}"
proof -
  have "{Some o' | o'. \<exists>key. held s key = Some o' \<and> v \<in> set (index_values o')} = {Some obj}"
    using assms(2-4) by blast
  then show ?thesis using by_index_held [OF assms(1), of v] by (rule trans [rotated])
qed

end

section \<open>The store meets it\<close>

lemma fold_touch:
  "fold (\<lambda>v index. index(v := f (index v))) vs index value =
     (if value \<in> set vs then (f ^^ count_list vs value) (index value) else index value)"
proof (induction vs arbitrary: index)
  case (Cons v vs)
  show ?case
  proof (cases "v = value")
    case True
    have "count_list vs value = 0" if "value \<notin> set vs" using that by (simp add: count_list_0_iff)
    then show ?thesis using Cons.IH True by (auto simp: funpow_swap1)
  next
    case False
    then show ?thesis using Cons.IH by auto
  qed
qed simp

lemma set_ops_idem:
  "0 < n \<Longrightarrow> (set_Insert key ^^ n) s = set_Insert key s" "0 < n \<Longrightarrow> (set_Delete key ^^ n) s = set_Delete key s"
proof -
  have i: "set_Insert key (set_Insert key s) = set_Insert key s" for s by (simp add: set_Insert_def)
  have d: "set_Delete key (set_Delete key s) = set_Delete key s" for s by (simp add: set_Delete_def)
  show "0 < n \<Longrightarrow> (set_Insert key ^^ n) s = set_Insert key s"
  proof (induction n)
    case (Suc n)
    then show ?case by (cases n) (simp_all add: i)
  qed simp
  show "0 < n \<Longrightarrow> (set_Delete key ^^ n) s = set_Delete key s"
  proof (induction n)
    case (Suc n)
    then show ?case by (cases n) (simp_all add: d)
  qed simp
qed

lemma count_pos: "x \<in> set xs \<Longrightarrow> 0 < count_list xs x"
  by (metis count_list_0_iff gr0I)

lemma touch_name:
  "touch_index (set_Insert key) obj (name, g) ix = ix(name := (\<lambda>v. if v \<in> set (g obj) then set_Insert key (ix name v) else ix name v))"
  "touch_index (set_Delete key) obj (name, g) ix = ix(name := (\<lambda>v. if v \<in> set (g obj) then set_Delete key (ix name v) else ix name v))"
  by (auto simp: touch_index_def fold_touch fun_eq_iff set_ops_idem count_pos)

lemma fold_touch_index:
  assumes "distinct (map fst ixs)" "(name, g) \<in> set ixs"
  shows "fold (touch_index f obj) ixs indices name = touch_index f obj (name, g) indices name"
  using assms
proof (induction ixs arbitrary: indices)
  case (Cons e ixs)
  obtain n h where e: "e = (n, h)" by fastforce
  have other: "fold (touch_index f obj) ixs ix name = ix name" if "name \<notin> fst ` set ixs" for ix
    using that by (induction ixs arbitrary: ix) (auto simp: touch_index_def split: prod.split)
  show ?case
  proof (cases "n = name")
    case True
    then have "h = g" "name \<notin> fst ` set ixs" using Cons.prems e by (auto simp: rev_image_eqI)
    then show ?thesis using True e other by simp
  next
    case False
    then have "touch_index f obj (name, g) (touch_index f obj (n, h) indices) name = touch_index f obj (name, g) indices name"
      by (simp add: touch_index_def)
    then show ?thesis using Cons False e by auto
  qed
qed simp

definition tm_inv :: "'o threadSafeMap \<Rightarrow> bool" where
  "tm_inv c \<longleftrightarrow> distinct (map fst (tm_indexers c)) \<and>
     (\<forall>(name, g)\<in>set (tm_indexers c). \<forall>v.
        set (tm_indices c name v) = {key. \<exists>obj. map_of (tm_items c) key = Some obj \<and> v \<in> set (g obj)})"

lemma tm_invI:
  assumes "distinct (map fst (tm_indexers c))"
    and "\<And>name g v. (name, g) \<in> set (tm_indexers c) \<Longrightarrow>
      set (tm_indices c name v) = {key. \<exists>obj. map_of (tm_items c) key = Some obj \<and> v \<in> set (g obj)}"
  shows "tm_inv c"
  using assms unfolding tm_inv_def by auto

lemma tm_invD:
  "tm_inv c \<Longrightarrow> distinct (map fst (tm_indexers c))"
  "tm_inv c \<Longrightarrow> (name, g) \<in> set (tm_indexers c) \<Longrightarrow>
   set (tm_indices c name v) = {key. \<exists>obj. map_of (tm_items c) key = Some obj \<and> v \<in> set (g obj)}"
  unfolding tm_inv_def by auto

lemma delete_indices:
  assumes "distinct (map fst (tm_indexers c))" "(name, g) \<in> set (tm_indexers c)"
  shows "set (tm_indices (deleteFromIndices obj key c) name v) =
     set (tm_indices c name v) - (if v \<in> set (g obj) then {key} else {})"
  using fold_touch_index [OF assms, of "set_Delete key" obj "tm_indices c"]
  by (auto simp: deleteFromIndices_def touch_name set_Delete_def)

lemma update_indices:
  assumes "distinct (map fst (tm_indexers c))" "(name, g) \<in> set (tm_indexers c)"
  shows "set (tm_indices (updateIndices old obj key c) name v) =
     (set (tm_indices c name v) - (case old of Some o' \<Rightarrow> if v \<in> set (g o') then {key} else {} | None \<Rightarrow> {})) \<union>
     (if v \<in> set (g obj) then {key} else {})"
proof (cases old)
  case None
  then show ?thesis
    using fold_touch_index [OF assms, of "set_Insert key" obj "tm_indices c"]
    by (auto simp: updateIndices_def touch_name set_Insert_def)
next
  case (Some o')
  let ?c = "deleteFromIndices o' key c"
  have i: "tm_indexers ?c = tm_indexers c" by (simp add: deleteFromIndices_def)
  have "set (tm_indices (updateIndices old obj key c) name v) =
      set (tm_indices ?c name v) \<union> (if v \<in> set (g obj) then {key} else {})"
    using fold_touch_index [OF assms, of "set_Insert key" obj "tm_indices ?c"] i
    by (auto simp: updateIndices_def touch_name set_Insert_def Some Let_def)
  then show ?thesis using delete_indices [OF assms, of o' key v] Some by simp
qed

lemma store_fields [simp]:
  "tm_indexers (updateIndices old obj key c) = tm_indexers c" "tm_items (updateIndices old obj key c) = tm_items c"
  "tm_indexers (deleteFromIndices obj key c) = tm_indexers c" "tm_items (deleteFromIndices obj key c) = tm_items c"
  by (auto simp: updateIndices_def deleteFromIndices_def Let_def split: option.split)

lemma tm_Add_inv: "tm_inv c \<Longrightarrow> tm_inv (tm_Add key obj c)"
proof (rule tm_invI)
  assume inv: "tm_inv c"
  let ?c = "c\<lparr>tm_items := al_put key obj (tm_items c)\<rparr>"
  show "distinct (map fst (tm_indexers (tm_Add key obj c)))" using tm_invD(1) [OF inv] by (simp add: tm_Add_def Let_def)
  fix name g v
  assume "(name, g) \<in> set (tm_indexers (tm_Add key obj c))"
  then have m: "(name, g) \<in> set (tm_indexers ?c)" "distinct (map fst (tm_indexers ?c))"
    using tm_invD(1) [OF inv] by (simp_all add: tm_Add_def Let_def)
  show "set (tm_indices (tm_Add key obj c) name v) =
      {k. \<exists>obj'. map_of (tm_items (tm_Add key obj c)) k = Some obj' \<and> v \<in> set (g obj')}"
    using update_indices [OF m(2,1), of "map_of (tm_items c) key" obj key v] tm_invD(2) [OF inv, of name g v] m(1)
    by (auto simp: tm_Add_def Let_def split: option.splits if_splits)
qed

lemma tm_Update_eq: "tm_Update = tm_Add"
  by (simp add: tm_Update_def tm_Add_def fun_eq_iff)

lemma tm_Delete_inv: "tm_inv c \<Longrightarrow> tm_inv (tm_Delete key c)"
proof (cases "map_of (tm_items c) key")
  case (Some obj)
  assume inv: "tm_inv c"
  show ?thesis
  proof (rule tm_invI)
    show "distinct (map fst (tm_indexers (tm_Delete key c)))" using tm_invD(1) [OF inv] by (simp add: tm_Delete_def Some)
    fix name g v
    assume "(name, g) \<in> set (tm_indexers (tm_Delete key c))"
    then have m: "(name, g) \<in> set (tm_indexers c)" by (simp add: tm_Delete_def Some)
    show "set (tm_indices (tm_Delete key c) name v) =
        {k. \<exists>obj'. map_of (tm_items (tm_Delete key c)) k = Some obj' \<and> v \<in> set (g obj')}"
      using delete_indices [OF tm_invD(1) [OF inv] m, of obj key v] tm_invD(2) [OF inv m, of v] Some
      by (auto simp: tm_Delete_def split: if_splits)
  qed
qed (simp add: tm_Delete_def)

lemma NewThreadSafeStore_inv: "distinct (map fst ixs) \<Longrightarrow> tm_inv (NewThreadSafeStore ixs)"
  by (rule tm_invI) (auto simp: NewThreadSafeStore_def)

text \<open>What a lookup finds, an error counting as nothing found.\<close>

definition tm_found :: "string \<Rightarrow> string \<Rightarrow> 'o threadSafeMap \<Rightarrow> 'o option list" where
  "tm_found name v c = (case tm_ByIndex name v c of None \<Rightarrow> [] | Some found \<Rightarrow> found)"

definition has_index :: "string \<Rightarrow> ('o \<Rightarrow> string list) \<Rightarrow> 'o threadSafeMap \<Rightarrow> bool" where
  "has_index name g c \<longleftrightarrow> tm_inv c \<and> map_of (tm_indexers c) name = Some g"

lemma store_index:
  "object_index (has_index name g) (\<lambda>c key. tm_Get key c) tm_Add tm_Delete (tm_found name) g"
proof
  fix c :: "'a threadSafeMap" and key obj v
  show "has_index name g c \<Longrightarrow> has_index name g (tm_Add key obj c)"
    using tm_Add_inv [of c key obj] by (simp add: has_index_def) (simp add: tm_Add_def Let_def)
  show "(\<lambda>k. tm_Get k (tm_Add key obj c)) = (\<lambda>k. tm_Get k c)(key \<mapsto> obj)"
    by (auto simp: tm_Get_def tm_Add_def Let_def)
  show "has_index name g c \<Longrightarrow> has_index name g (tm_Delete key c)"
    using tm_Delete_inv [of c key] by (simp add: has_index_def) (simp add: tm_Delete_def split: option.split)
  show "(\<lambda>k. tm_Get k (tm_Delete key c)) = (\<lambda>k. tm_Get k c)(key := None)"
    by (auto simp: tm_Get_def tm_Delete_def fun_eq_iff split: option.split)
  assume "has_index name g c"
  then have inv: "tm_inv c" and ix: "map_of (tm_indexers c) name = Some g" by (simp_all add: has_index_def)
  have "set (tm_found name v c) = map_of (tm_items c) ` set (tm_indices c name v)"
    by (simp add: tm_found_def tm_ByIndex_def ix)
  also have "\<dots> = {Some obj | obj. \<exists>key. map_of (tm_items c) key = Some obj \<and> v \<in> set (g obj)}"
    unfolding tm_invD(2) [OF inv map_of_SomeD [OF ix]] image_def by fastforce
  finally show "set (tm_found name v c) = {Some obj | obj. \<exists>key. tm_Get key c = Some obj \<and> v \<in> set (g obj)}"
    by (simp add: tm_Get_def)
qed

end
