(* ===== verification/Host_Path_Control.thy ===== *)
theory Host_Path_Control
  imports Host_Path_Client Indexer
begin

text \<open>
  The controller of the scheduler extender, pkg/hostpathclient/controller.go, and the informer it is
  built on, informer.go: changes of pods, nodes and persistent volumes arrive as deltas, are converted
  to the stripped-down objects and kept in the cache of Indexer.thy; the scheduler reads the cache and
  writes bindings through the API. The queue of deltas and the watches behind it are not modelled: a
  run is any sequence of batches of deltas.
\<close>

section \<open>informer.go\<close>

datatype delta_type = Added | Updated | Deleted | Replaced | Sync

datatype 'c delta_object = Object 'c | DeletedFinalStateUnknown string 'c

type_synonym 'c delta = "delta_type \<times> 'c delta_object"

text \<open>The key functions of the cache: of an object, and of a tombstone.\<close>

fun conversion :: "('c \<Rightarrow> (string + 'o) option) \<Rightarrow> 'c delta_object \<Rightarrow> (string + 'o) option" where
  "conversion convert (Object c) = convert c"
| "conversion convert (DeletedFinalStateUnknown key c) = Some (Inl ''unexpected object'')"

text \<open>The key under which a deleted object is removed; a tombstone carries its key.\<close>

fun deleted_key :: "('o \<Rightarrow> string) \<Rightarrow> ('c \<Rightarrow> (string + 'o) option) \<Rightarrow> 'c delta_object \<Rightarrow> (string + string) option" where
  "deleted_key keyFunc convert (DeletedFinalStateUnknown key c) = Some (Inr key)"
| "deleted_key keyFunc convert (Object c) = map_option (map_sum id keyFunc) (convert c)"

text \<open>
  The processing function: the outer \<open>None\<close> is a panic of the conversion, otherwise the error is
  optional. An error drops the rest of the batch.
\<close>

fun DefaultProcessor ::
    "('o \<Rightarrow> string) \<Rightarrow> ('c \<Rightarrow> (string + 'o) option) \<Rightarrow> 'c delta list \<Rightarrow> 'o threadSafeMap
       \<Rightarrow> string option option \<times> 'o threadSafeMap" where
  "DefaultProcessor keyFunc convert [] indexer = (Some None, indexer)"
| "DefaultProcessor keyFunc convert ((ty, d) # rest) indexer =
     (if ty = Sync \<or> ty = Added \<or> ty = Updated then
        (case conversion convert d of
           None \<Rightarrow> (None, indexer)
         | Some (Inl err) \<Rightarrow> (Some (Some err), indexer)
         | Some (Inr obj) \<Rightarrow>
             (case tm_Get (keyFunc obj) indexer of
                Some old \<Rightarrow> DefaultProcessor keyFunc convert rest (tm_Update (keyFunc obj) obj indexer)
              | None \<Rightarrow> DefaultProcessor keyFunc convert rest (tm_Add (keyFunc obj) obj indexer)))
      else if ty = Deleted then
        (case deleted_key keyFunc convert d of
           None \<Rightarrow> (None, indexer)
         | Some (Inl err) \<Rightarrow> (Some (Some err), indexer)
         | Some (Inr key) \<Rightarrow> DefaultProcessor keyFunc convert rest (tm_Delete key indexer))
      else DefaultProcessor keyFunc convert rest indexer)"

section \<open>controller.go\<close>

definition podNamespaceIndex :: string where "podNamespaceIndex = ''PodNamespace''"

definition pvClaimNameNamespaceIndex :: string where "pvClaimNameNamespaceIndex = ''PvClaimNameNamespace''"

definition podNamespaceIndexFunc :: "Pod \<Rightarrow> string list" where
  "podNamespaceIndexFunc p = [hp_namespace p]"

definition pvClaimNameNamespaceIndexFunc :: "PersistentVolume \<Rightarrow> string list" where
  "pvClaimNameNamespaceIndexFunc p = [hpv_index p]"

record HostPathControl =
  pvLister :: "PersistentVolume threadSafeMap"
  podLister :: "Pod threadSafeMap"
  nodeLister :: "Node threadSafeMap"

definition NewHostPathControl :: HostPathControl where
  "NewHostPathControl = \<lparr>
     pvLister = NewThreadSafeStore [(pvClaimNameNamespaceIndex, pvClaimNameNamespaceIndexFunc)],
     podLister = NewThreadSafeStore [(podNamespaceIndex, podNamespaceIndexFunc)],
     nodeLister = NewThreadSafeStore []\<rparr>"

text \<open>A batch of deltas for one of the three informers.\<close>

definition pv_key :: "PersistentVolume \<Rightarrow> string" where
  "pv_key p = MetaNamespaceKeyFunc (hpv_namespace p) (hpv_name p)"

datatype event = PodEvent "CorePod delta list" | NodeEvent "CoreNode delta list" | PVEvent "CorePV delta list"

fun handle_event :: "json \<Rightarrow> event \<Rightarrow> HostPathControl \<Rightarrow> HostPathControl" where
  "handle_event js (PodEvent ds) hpc = hpc\<lparr>podLister :=
     snd (DefaultProcessor (\<lambda>p. MetaNamespaceKeyFunc (hp_namespace p) (hp_name p)) (\<lambda>pod. Some (Inr (fst (toPod pod)))) ds (podLister hpc))\<rparr>"
| "handle_event js (NodeEvent ds) hpc = hpc\<lparr>nodeLister :=
     snd (DefaultProcessor (\<lambda>n. MetaNamespaceKeyFunc (hn_namespace n) (hn_name n)) (\<lambda>node. Some (Inr (fst (toHostPathNode js node)))) ds (nodeLister hpc))\<rparr>"
| "handle_event js (PVEvent ds) hpc = hpc\<lparr>pvLister :=
     snd (DefaultProcessor pv_key (ToPersistentVolume js) ds (pvLister hpc))\<rparr>"

text \<open>
  Whether the conversion of an object in the batch panics before one of them fails: this ends the
  goroutine of the informer, and with it the process.
\<close>

fun event_panics :: "json \<Rightarrow> event \<Rightarrow> HostPathControl \<Rightarrow> bool" where
  "event_panics js (PodEvent ds) hpc \<longleftrightarrow>
     fst (DefaultProcessor (\<lambda>p. MetaNamespaceKeyFunc (hp_namespace p) (hp_name p)) (\<lambda>pod. Some (Inr (fst (toPod pod)))) ds (podLister hpc)) = None"
| "event_panics js (NodeEvent ds) hpc \<longleftrightarrow>
     fst (DefaultProcessor (\<lambda>n. MetaNamespaceKeyFunc (hn_namespace n) (hn_name n)) (\<lambda>node. Some (Inr (fst (toHostPathNode js node)))) ds (nodeLister hpc)) = None"
| "event_panics js (PVEvent ds) hpc \<longleftrightarrow>
     fst (DefaultProcessor pv_key (ToPersistentVolume js) ds (pvLister hpc)) = None"

definition GetPod :: "HostPathControl \<Rightarrow> string \<Rightarrow> string \<Rightarrow> Pod option" where
  "GetPod hpc name namespace =
     (case tm_ByIndex podNamespaceIndex namespace (podLister hpc) of
        None \<Rightarrow> None
      | Some os \<Rightarrow> find (\<lambda>p. hp_name p = name) (List.map_filter id os))"

definition GetNode :: "HostPathControl \<Rightarrow> string \<Rightarrow> Node option" where
  "GetNode hpc name = find (\<lambda>p. hn_name p = name) (tm_List (nodeLister hpc))"

definition GetPersistentVolumeByClaim :: "HostPathControl \<Rightarrow> string \<Rightarrow> string \<Rightarrow> PersistentVolume option" where
  "GetPersistentVolumeByClaim hpc name namespace =
     (case tm_ByIndex pvClaimNameNamespaceIndex (PersistentVolumeKey name namespace) (pvLister hpc) of
        None \<Rightarrow> None
      | Some os \<Rightarrow> (case List.map_filter id os of [] \<Rightarrow> None | p # _ \<Rightarrow> Some p))"

definition BindHostPathPV :: "'k kube \<Rightarrow> string \<Rightarrow> string \<Rightarrow> 'k \<Rightarrow> apierr option \<times> 'k" where
  "BindHostPathPV api pvName node k = pv_Patch api pvName (getHostPathPVBindNodePatchBytes node) k"

definition BindPod :: "'k kube \<Rightarrow> Pod \<Rightarrow> string \<Rightarrow> 'k \<Rightarrow> apierr option \<times> 'k" where
  "BindPod api pod node k = pod_Bind api (hp_namespace pod, hp_name pod, hp_UID pod) node k"

text \<open>The field selector of the pod informer: pending pods only.\<close>

definition pod_FieldSelector :: "string \<Rightarrow> string" where
  "pod_FieldSelector sel = (if length sel > 0 then sel @ '','' else sel) @ ''status.phase==Pending''"

text \<open>
  Waiting for the caches, over the events of the select: the time-out, or a tick at which each of the
  three controllers has synced or not. In between the goroutines of the three controllers, which \<open>Run\<close>
  has started, process what the API server delivers; the waiting does not see that. \<open>None\<close> is still
  waiting.
\<close>

datatype sync_event = Timeout | Tick bool bool bool | Delivered event

fun waitForResourceSynced :: "sync_event list \<Rightarrow> bool option" where
  "waitForResourceSynced [] = None"
| "waitForResourceSynced (Timeout # _) = Some False"
| "waitForResourceSynced (Tick pods nodes pvs # rest) =
     (if pods \<and> nodes \<and> pvs then Some True else waitForResourceSynced rest)"
| "waitForResourceSynced (Delivered _ # rest) = waitForResourceSynced rest"

section \<open>Facts\<close>

interpretation pv_index: object_index
  "has_index pvClaimNameNamespaceIndex pvClaimNameNamespaceIndexFunc" "\<lambda>c key. tm_Get key c" tm_Add tm_Delete
  "tm_found pvClaimNameNamespaceIndex" pvClaimNameNamespaceIndexFunc
  by (rule store_index)

interpretation pod_index: object_index
  "has_index podNamespaceIndex podNamespaceIndexFunc" "\<lambda>c key. tm_Get key c" tm_Add tm_Delete
  "tm_found podNamespaceIndex" podNamespaceIndexFunc
  by (rule store_index)

text \<open>Whether a batch panics does not depend on what is in the cache.\<close>

lemma processor_panic_uniform: "\<exists>b. \<forall>c. (fst (DefaultProcessor keyFunc convert ds c) = None) = b"
proof (induction ds)
  case (Cons e ds)
  obtain ty d where e: "e = (ty, d)" by (metis surj_pair)
  obtain b where b: "(fst (DefaultProcessor keyFunc convert ds c) = None) = b" for c using Cons by blast
  show ?case
  proof (cases "ty = Sync \<or> ty = Added \<or> ty = Updated")
    case True
    then show ?thesis
      by (cases "conversion convert d"; cases "the (conversion convert d)") (auto simp: e b split: option.split)
  next
    case False
    then show ?thesis
      by (cases "ty = Deleted"; cases "deleted_key keyFunc convert d"; cases "the (deleted_key keyFunc convert d)") (auto simp: e b)
  qed
qed (simp add: exI [of _ False])

lemma processor_panic_cache:
  "fst (DefaultProcessor keyFunc convert ds c) = None \<longleftrightarrow> fst (DefaultProcessor keyFunc convert ds c') = None"
  using processor_panic_uniform [of keyFunc convert ds] by metis

lemma event_panics_cache: "event_panics js ev hpc \<longleftrightarrow> event_panics js ev hpc'"
proof (cases ev)
  case (PodEvent ds)
  show ?thesis unfolding PodEvent event_panics.simps by (rule processor_panic_cache)
next
  case (NodeEvent ds)
  show ?thesis unfolding NodeEvent event_panics.simps by (rule processor_panic_cache)
next
  case (PVEvent ds)
  show ?thesis unfolding PVEvent event_panics.simps by (rule processor_panic_cache)
qed

text \<open>Pods and nodes never panic; a bound volume of another kind does.\<close>

lemma total_conversion_safe: "(\<And>c. convert c \<noteq> None) \<Longrightarrow> fst (DefaultProcessor keyFunc convert ds c) \<noteq> None"
proof (induction keyFunc convert ds c rule: DefaultProcessor.induct)
  case (2 keyFunc convert ty d rest indexer)
  obtain o1 where "conversion convert d = Some o1" using "2.prems" by (cases d) auto
  moreover have "convert c \<noteq> None" for c by (rule "2.prems")
  then have "deleted_key keyFunc convert d \<noteq> None" by (cases d) auto
  then obtain o2 where "deleted_key keyFunc convert d = Some o2" by blast
  ultimately show ?case using 2 by (auto split: option.split sum.split)
qed simp

lemma pod_events_safe: "\<not> event_panics js (PodEvent ds) hpc" "\<not> event_panics js (NodeEvent ds') hpc"
  by (simp_all add: total_conversion_safe)

lemma bound_non_csi_event_panics:
  "cp_Phase pv = ''Bound'' \<Longrightarrow> cp_CSI pv = None \<Longrightarrow> event_panics js (PVEvent ((Added, Object pv) # ds)) hpc"
  by (simp add: bound_non_csi_volume_panics)

lemma processor_index:
  "has_index name g c \<Longrightarrow> has_index name g (snd (DefaultProcessor keyFunc convert ds c))"
  by (induction keyFunc convert ds c rule: DefaultProcessor.induct)
    (auto simp: tm_Update_eq object_index.put_inv [OF store_index] object_index.del_inv [OF store_index]
      split: option.split sum.split)

definition hpc_ok :: "HostPathControl \<Rightarrow> bool" where
  "hpc_ok hpc \<longleftrightarrow> has_index pvClaimNameNamespaceIndex pvClaimNameNamespaceIndexFunc (pvLister hpc) \<and>
     has_index podNamespaceIndex podNamespaceIndexFunc (podLister hpc)"

lemma NewHostPathControl_ok: "hpc_ok NewHostPathControl"
  by (simp add: hpc_ok_def has_index_def NewHostPathControl_def NewThreadSafeStore_inv)
    (simp add: NewThreadSafeStore_def)

lemma handle_event_ok: "hpc_ok hpc \<Longrightarrow> hpc_ok (handle_event js e hpc)"
  by (cases e) (simp_all add: hpc_ok_def processor_index)

lemma events_ok: "hpc_ok hpc \<Longrightarrow> hpc_ok (fold (handle_event js) es hpc)"
  by (induction es arbitrary: hpc) (simp_all add: handle_event_ok)

lemma claim_lookup:
  "hpc_ok hpc \<Longrightarrow> GetPersistentVolumeByClaim hpc name ns =
     (case List.map_filter id (tm_found pvClaimNameNamespaceIndex (PersistentVolumeKey name ns) (pvLister hpc)) of
        [] \<Rightarrow> None | p # _ \<Rightarrow> Some p)"
  by (auto simp: GetPersistentVolumeByClaim_def tm_found_def split: option.split list.split)

lemma map_filter_hd:
  "List.map_filter id xs = p # ps \<Longrightarrow> Some p \<in> set xs" "List.map_filter id xs = [] \<Longrightarrow> Some p \<notin> set xs"
  by (induction xs arbitrary: p ps) (auto simp: map_filter_simps split: option.splits)

lemma claim_lookup_Some:
  assumes "hpc_ok hpc" "GetPersistentVolumeByClaim hpc name ns = Some p"
  shows "\<exists>key. tm_Get key (pvLister hpc) = Some p \<and> hpv_index p = PersistentVolumeKey name ns"
proof -
  let ?v = "PersistentVolumeKey name ns"
  have "Some p \<in> set (tm_found pvClaimNameNamespaceIndex ?v (pvLister hpc))"
    using claim_lookup [OF assms(1), of name ns] assms(2) map_filter_hd(1) by (auto split: list.splits)
  then show ?thesis
    using pv_index.by_index_sound [of "pvLister hpc" "Some p" ?v] assms(1)
    by (auto simp: hpc_ok_def pvClaimNameNamespaceIndexFunc_def)
qed

lemma claim_lookup_None:
  assumes "hpc_ok hpc" "GetPersistentVolumeByClaim hpc name ns = None" "tm_Get key (pvLister hpc) = Some p"
  shows "hpv_index p \<noteq> PersistentVolumeKey name ns"
proof
  let ?v = "PersistentVolumeKey name ns"
  assume i: "hpv_index p = ?v"
  have "List.map_filter id (tm_found pvClaimNameNamespaceIndex ?v (pvLister hpc)) = []"
    using claim_lookup [OF assms(1), of name ns] assms(2) by (auto split: list.splits)
  then have "Some p \<notin> set (tm_found pvClaimNameNamespaceIndex ?v (pvLister hpc))" by (rule map_filter_hd)
  moreover have "has_index pvClaimNameNamespaceIndex pvClaimNameNamespaceIndexFunc (pvLister hpc)"
    using assms(1) by (simp add: hpc_ok_def)
  ultimately show False
    using pv_index.by_index_held [of "pvLister hpc" ?v] assms(3) i
    by (auto simp: pvClaimNameNamespaceIndexFunc_def)
qed

lemma found_after_put:
  assumes "hpc_ok hpc" "hpv_index p = PersistentVolumeKey name ns"
  shows "GetPersistentVolumeByClaim (hpc\<lparr>pvLister := tm_Add (pv_key p) p (pvLister hpc)\<rparr>) name ns \<noteq> None"
proof
  let ?hpc = "hpc\<lparr>pvLister := tm_Add (pv_key p) p (pvLister hpc)\<rparr>"
  assume none: "GetPersistentVolumeByClaim ?hpc name ns = None"
  have ok: "hpc_ok ?hpc" using assms(1) pv_index.put_inv by (simp add: hpc_ok_def)
  have "tm_Get (pv_key p) (pvLister ?hpc) = Some p" using pv_index.put_held [of "pv_key p" p "pvLister hpc"] by (simp add: fun_eq_iff)
  from claim_lookup_None [OF ok none this] show False using assms(2) by simp
qed

text \<open>A batch with a bound volume first puts the volume into the cache.\<close>

lemma process_bound:
  assumes "ToPersistentVolume js pv = Some (Inr p)"
  shows "DefaultProcessor pv_key (ToPersistentVolume js) [(Added, Object pv)] c = (Some None, tm_Add (pv_key p) p c)"
  using assms by (simp add: tm_Update_eq split: option.split)

lemma converted_index:
  "ToPersistentVolume js pv = Some (Inr p) \<Longrightarrow>
   \<exists>claim ns. cp_ClaimRef pv = Some (claim, ns) \<and> hpv_index p = PersistentVolumeKey claim ns"
  by (auto simp: ToPersistentVolume_def toPersistentVolume_def ToHostPathVolume_def Let_def split: option.splits prod.splits if_splits)


section \<open>Properties\<close>

text \<open>
  C17. The index of the cache is exact: after every sequence of events, looking a claim up gives a
  cached volume of exactly this claim, and gives none only when no cached volume has this claim.
\<close>

theorem claim_lookup_exact:
  "let hpc = fold (handle_event js) es NewHostPathControl
   in case GetPersistentVolumeByClaim hpc name ns of
        None \<Rightarrow> (\<nexists>key p. tm_Get key (pvLister hpc) = Some p \<and> hpv_index p = PersistentVolumeKey name ns)
      | Some p \<Rightarrow> (\<exists>key. tm_Get key (pvLister hpc) = Some p \<and> hpv_index p = PersistentVolumeKey name ns)"
proof -
  have ok: "hpc_ok (fold (handle_event js) es NewHostPathControl)" using NewHostPathControl_ok by (rule events_ok)
  show ?thesis
    unfolding Let_def
    using claim_lookup_Some [OF ok, of name ns] claim_lookup_None [OF ok, of name ns] by (auto split: option.split)
qed

text \<open>
  A volume never leaves the cache through its own deletion once it is released: the
  conversion refuses every volume that is not bound, so the update to the phase Released and the
  deletion of the released volume are both dropped, and the claim keeps finding a volume.
\<close>

lemma released_volume_stays_cached:
  assumes "hpc_ok hpc" "ToPersistentVolume js pv = Some (Inr p)" "cp_ClaimRef pv = Some (claim, ns)"
    and "cp_Phase released \<noteq> ''Bound''"
    and "hpc1 = handle_event js (PVEvent [(Added, Object pv)]) hpc"
    and "hpc2 = fold (handle_event js) [PVEvent [(Updated, Object released)], PVEvent [(Deleted, Object released)]] hpc1"
  shows "pvLister hpc2 = pvLister hpc1 \<and> GetPersistentVolumeByClaim hpc2 claim ns \<noteq> None"
proof -
  have same: "hpc2 = hpc1"
    using assms(4,6) by (simp add: ToPersistentVolume_def)
  have i: "hpv_index p = PersistentVolumeKey claim ns" using converted_index [OF assms(2)] assms(3) by auto
  have "hpc1 = hpc\<lparr>pvLister := tm_Add (pv_key p) p (pvLister hpc)\<rparr>"
    unfolding assms(5) handle_event.simps process_bound [OF assms(2)] by simp
  then show ?thesis using same found_after_put [OF assms(1) i] by simp
qed

end
