(* ===== verification/Scheduler_Filter.thy ===== *)
theory Scheduler_Filter
  imports Host_Path_Control
begin

text \<open>
  The filter of the scheduler extender, pkg/extender-scheduler/scheduler/predicate/: which nodes have
  room for the unbound hostpath volumes of a pod (hostpathpv_disk_pressure.go), and the handler that
  runs it over the nodes of a request (predicate.go).
\<close>

section \<open>hostpathpv_disk_pressure.go\<close>

text \<open>
  The loop over the volumes of the pod, with the sizes collected so far and their sum; \<open>None\<close> is the
  early return that refuses the node.
\<close>

fun collect_requests ::
    "HostPathControl \<Rightarrow> string \<Rightarrow> Node \<Rightarrow> string option list \<Rightarrow> int list \<times> int \<Rightarrow> (int list \<times> int) option" where
  "collect_requests hpc namespace hpNode [] acc = Some acc"
| "collect_requests hpc namespace hpNode (None # volumes) acc = collect_requests hpc namespace hpNode volumes acc"
| "collect_requests hpc namespace hpNode (Some claimName # volumes) acc =
     (case GetPersistentVolumeByClaim hpc claimName namespace of
        None \<Rightarrow> None
      | Some pv \<Rightarrow>
          if \<not> hpv_isHostPathPv pv then collect_requests hpc namespace hpNode volumes acc
          else if \<not> hn_hostPathNode hpNode then None
          else if length (hpv_bindNode pv) > 0 then
            (if hpv_bindNode pv \<noteq> hn_name hpNode then None
             else collect_requests hpc namespace hpNode volumes acc)
          else collect_requests hpc namespace hpNode volumes
                 (fst acc @ [hpv_capacity pv], i64 (snd acc + hpv_capacity pv)))"

text \<open>
  The loop of \<open>canNodeMatch\<close> over the requests and the allocatable sizes of the disks: a request is
  taken from the current disk, or the disk is left for good.
\<close>

fun match_loop :: "int list \<Rightarrow> int list \<Rightarrow> bool" where
  "match_loop [] haveNow = True"
| "match_loop (request # rest) [] = False"
| "match_loop (request # rest) (have # haveNow) =
     (if request \<le> have then match_loop rest (i64 (have - request) # haveNow)
      else match_loop (request # rest) haveNow)"

definition canNodeMatch :: "int list \<Rightarrow> DiskInfo list \<Rightarrow> bool" where
  "canNodeMatch requestList haveNow = match_loop (go_sort (>) requestList) (map di_Allocatable haveNow)"

definition FilterNode :: "HostPathControl \<Rightarrow> json \<Rightarrow> CorePod \<Rightarrow> CoreNode \<Rightarrow> bool" where
  "FilterNode hpc js pod node =
     (let hpNode = ToHostPathNode js node
      in case collect_requests hpc (pod_Namespace pod) hpNode (pod_Volumes pod) ([], 0) of
           None \<Rightarrow> False
         | Some (podVolumeRequestList, podVolumeRequestSize) \<Rightarrow>
             if podVolumeRequestSize = 0 \<or> length podVolumeRequestList = 0 then True
             else canNodeMatch podVolumeRequestList (nu_DiskStatus (hn_diskUsage hpNode)))"

section \<open>predicate.go\<close>

text \<open>
  The handler of a registered predicate, over any filter that may fail: the nodes that pass and, by
  name, the errors of the nodes that failed. A node that does not pass is in neither.
\<close>

record ExtenderFilterResult =
  fr_Nodes :: "CoreNode list"
  fr_FailedNodes :: "(string \<times> string) list"
  fr_Error :: string

fun filter_nodes ::
    "(CorePod \<Rightarrow> CoreNode \<Rightarrow> string + bool) \<Rightarrow> CorePod \<Rightarrow> CoreNode list \<Rightarrow> CoreNode list \<times> (string \<times> string) list
       \<Rightarrow> CoreNode list \<times> (string \<times> string) list" where
  "filter_nodes f pod [] acc = acc"
| "filter_nodes f pod (node # nodes) (can, cannot) =
     (case f pod node of
        Inl err \<Rightarrow> filter_nodes f pod nodes (can, al_put (cn_Name node) err cannot)
      | Inr result \<Rightarrow> filter_nodes f pod nodes (if result then can @ [node] else can, cannot))"

definition predicate_Handler ::
    "(CorePod \<Rightarrow> CoreNode \<Rightarrow> string + bool) \<Rightarrow> CorePod \<Rightarrow> CoreNode list \<Rightarrow> ExtenderFilterResult" where
  "predicate_Handler f pod nodes =
     (case filter_nodes f pod nodes ([], []) of
        (canSchedule, canNotSchedule) \<Rightarrow>
          \<lparr>fr_Nodes = canSchedule, fr_FailedNodes = canNotSchedule, fr_Error = ''''\<rparr>)"

section \<open>Facts\<close>

text \<open>
  An assignment of requests to disks: every request is on one disk, and the requests on a disk that
  has any add up to no more than it has.
\<close>

definition placed :: "int list \<Rightarrow> int list \<Rightarrow> bool" where
  "placed requests sizes \<longleftrightarrow>
     (\<exists>parts. mset (concat parts) = mset requests \<and> list_all2 (\<lambda>p h. p = [] \<or> sum_list p \<le> h) parts sizes)"

lemma placed_mset: "mset requests = mset requests' \<Longrightarrow> placed requests sizes = placed requests' sizes"
  by (simp add: placed_def)

lemma placed_skip: "placed requests sizes \<Longrightarrow> placed requests (h # sizes)"
  unfolding placed_def
proof (elim exE conjE)
  fix parts
  assume "mset (concat parts) = mset requests" "list_all2 (\<lambda>p h. p = [] \<or> sum_list p \<le> h) parts sizes"
  then show "\<exists>parts. mset (concat parts) = mset requests \<and> list_all2 (\<lambda>p h. p = [] \<or> sum_list p \<le> h) parts (h # sizes)"
    by (intro exI [of _ "[] # parts"]) simp
qed

lemma placed_take:
  assumes "placed requests ((h - r) # sizes)" "r \<le> h"
  shows "placed (r # requests) (h # sizes)"
proof -
  obtain all where all: "mset (concat all) = mset requests"
      "list_all2 (\<lambda>p h. p = [] \<or> sum_list p \<le> h) all ((h - r) # sizes)"
    using assms(1) by (auto simp: placed_def)
  then obtain p parts where "all = p # parts" by (cases all) auto
  with all have p: "mset (p @ concat parts) = mset requests" "p = [] \<or> sum_list p \<le> h - r"
      "list_all2 (\<lambda>p h. p = [] \<or> sum_list p \<le> h) parts sizes"
    by simp_all
  then show ?thesis
    unfolding placed_def using assms(2) by (intro exI [of _ "(r # p) # parts"]) auto
qed

lemma match_placed:
  "match_loop requests sizes \<Longrightarrow> \<forall>r\<in>set requests. 0 \<le> r \<Longrightarrow> \<forall>h\<in>set sizes. h < 2 ^ 63 \<Longrightarrow> placed requests sizes"
proof (induction requests sizes rule: match_loop.induct)
  case (1 sizes)
  have "list_all2 (\<lambda>p h. p = [] \<or> sum_list p \<le> h) (map (\<lambda>_. []) sizes) sizes"
    by (simp add: list_all2_map1 list_all2_same)
  moreover have "concat (map (\<lambda>_. []) sizes) = ([] :: int list)" by (induction sizes) simp_all
  ultimately show ?case unfolding placed_def by (intro exI [of _ "map (\<lambda>_. []) sizes"]) simp
next
  case (3 r rest h sizes)
  show ?case
  proof (cases "r \<le> h")
    case True
    have e: "i64 (h - r) = h - r" using 3 True by (intro i64_id) auto
    have "placed rest ((h - r) # sizes)" using 3 True e by auto
    then show ?thesis using True by (rule placed_take)
  next
    case False
    then show ?thesis using 3 by (intro placed_skip) auto
  qed
qed simp

lemma single_match: "match_loop [r] sizes \<longleftrightarrow> (\<exists>h\<in>set sizes. r \<le> h)"
  by (induction sizes) auto

lemma single_volume: "canNodeMatch [r] disks \<longleftrightarrow> (\<exists>d\<in>set disks. r \<le> di_Allocatable d)"
  by (simp add: canNodeMatch_def go_sort_def single_match)

interpretation size_order: sort_Interface "(>) :: int \<Rightarrow> int \<Rightarrow> bool"
  by unfold_locales auto

text \<open>What the loop over the volumes establishes when it does not refuse the node.\<close>

lemma collect_sound:
  "collect_requests hpc ns hpNode volumes acc = Some acc' \<Longrightarrow>
   \<exists>new. fst acc' = fst acc @ new \<and>
     new = [hpv_capacity pv. Some pv \<leftarrow> [Option.bind v (\<lambda>c. GetPersistentVolumeByClaim hpc c ns). v \<leftarrow> volumes],
              hpv_isHostPathPv pv \<and> hpv_bindNode pv = ''''] \<and>
     (\<forall>c. Some c \<in> set volumes \<longrightarrow> (\<exists>pv. GetPersistentVolumeByClaim hpc c ns = Some pv \<and>
        (hpv_isHostPathPv pv \<longrightarrow> hn_hostPathNode hpNode \<and> (hpv_bindNode pv = '''' \<or> hpv_bindNode pv = hn_name hpNode))))"
  by (induction hpc ns hpNode volumes acc rule: collect_requests.induct)
    (auto split: option.splits if_splits)

text \<open>The sizes of the unbound hostpath volumes of a pod, in the order of its volumes.\<close>

definition unbound_sizes :: "HostPathControl \<Rightarrow> CorePod \<Rightarrow> int list" where
  "unbound_sizes hpc pod =
     [hpv_capacity pv. Some pv \<leftarrow> [Option.bind v (\<lambda>c. GetPersistentVolumeByClaim hpc c (pod_Namespace pod)). v \<leftarrow> pod_Volumes pod],
        hpv_isHostPathPv pv \<and> hpv_bindNode pv = '''']"

lemma collect_pod:
  assumes "collect_requests hpc (pod_Namespace pod) hpNode (pod_Volumes pod) ([], 0) = Some (reqs, sz)"
  shows "reqs = unbound_sizes hpc pod \<and>
    (\<forall>c. Some c \<in> set (pod_Volumes pod) \<longrightarrow> (\<exists>pv. GetPersistentVolumeByClaim hpc c (pod_Namespace pod) = Some pv \<and>
       (hpv_isHostPathPv pv \<longrightarrow> hn_hostPathNode hpNode \<and> (hpv_bindNode pv = '''' \<or> hpv_bindNode pv = hn_name hpNode))))"
  using collect_sound [OF assms] by (simp add: unbound_sizes_def)

lemma collect_size:
  "collect_requests hpc ns hpNode volumes acc = Some acc' \<Longrightarrow> snd acc = i64 (sum_list (fst acc)) \<Longrightarrow>
   snd acc' = i64 (sum_list (fst acc'))"
proof (induction hpc ns hpNode volumes acc rule: collect_requests.induct)
  case (3 hpc ns hpNode claimName volumes acc)
  then show ?case by (auto simp: i64_add split: option.splits if_splits)
qed auto

lemma filter_nodes_eq:
  "filter_nodes f pod nodes (can, cannot) =
     (can @ filter (\<lambda>n. f pod n = Inr True) nodes, snd (filter_nodes f pod nodes (can, cannot)))"
proof (induction nodes arbitrary: can cannot)
  case (Cons n nodes)
  show ?case
  proof (cases "f pod n")
    case (Inl e)
    then show ?thesis using Cons [of can "al_put (cn_Name n) e cannot"] by simp
  next
    case (Inr b)
    then show ?thesis using Cons [of "can @ [n]" cannot] Cons [of can cannot] by (cases b) simp_all
  qed
qed simp

lemma zero_sum: "\<forall>r\<in>set rs. (0 :: int) \<le> r \<Longrightarrow> sum_list rs = 0 \<Longrightarrow> \<forall>r\<in>set rs. r = 0"
  using sum_list_nonneg_eq_0_iff [of rs] by simp

section \<open>Properties\<close>


text \<open>
  For several volumes the filter is not exact: three volumes of 6, 5 and 4 units are refused
  on disks with 10 and 6 units, in the order the node publishes them, although 6 on the second disk
  and 5 and 4 on the first would do.
\<close>

lemma filter_refuses_possible_placement:
  assumes "0 < unit" "unit < 2 ^ 59" "map di_Allocatable disks = [10 * unit, 6 * unit]"
  shows "\<not> canNodeMatch [6 * unit, 5 * unit, 4 * unit] disks \<and>
         placed [6 * unit, 5 * unit, 4 * unit] (map di_Allocatable disks)"
proof
  have "i64 (10 * unit - 6 * unit) = 4 * unit" "i64 (6 * unit - 5 * unit) = unit" using assms by simp_all
  then show "\<not> canNodeMatch [6 * unit, 5 * unit, 4 * unit] disks"
    using assms by (simp add: canNodeMatch_def go_sort_def)
  have "mset (concat [[5 * unit, 4 * unit], [6 * unit]]) = mset [6 * unit, 5 * unit, 4 * unit]" by simp
  moreover have "list_all2 (\<lambda>p h. p = [] \<or> sum_list p \<le> h) [[5 * unit, 4 * unit], [6 * unit]] (map di_Allocatable disks)"
    using assms by simp
  ultimately show "placed [6 * unit, 5 * unit, 4 * unit] (map di_Allocatable disks)" unfolding placed_def by blast
qed

definition disk_with :: "int \<Rightarrow> DiskInfo" where
  "disk_with n = \<lparr>di_MountPoint = ''/xfs/d'', di_Capacity = n, di_QuotaSize = 0, di_Used = 0, di_Allocatable = n,
     di_Disabled = False\<rparr>"

text \<open>A pod with the example volume, and a node with one disk of 8 KiB.\<close>

definition hpc7 :: HostPathControl where
  "hpc7 = handle_event json0 (PVEvent [(Added, Object pv7)]) NewHostPathControl"

definition pod7 :: CorePod where
  "pod7 = \<lparr>pod_UID = ''u'', pod_Name = ''p'', pod_Namespace = ''default'', pod_Version = ''1'', pod_Volumes = [None, Some ''data'']\<rparr>"


definition json7 :: json where
  "json7 = json0\<lparr>Unmarshal_node := (\<lambda>_. Some (zero_NodeUsageInfo\<lparr>nu_DiskStatus := [disk_with 8192]\<rparr>))\<rparr>"

lemma node7_usage:
  "nu_DiskStatus (hn_diskUsage (ToHostPathNode json7 node7)) = [disk_with 8192]"
  "hn_hostPathNode (ToHostPathNode json7 node7)"
  using node7_reads [of json7] by (simp_all add: json7_def)

lemma pod7_volume:
  "\<exists>p. GetPersistentVolumeByClaim hpc7 ''data'' ''default'' = Some p \<and> hpv_isHostPathPv p \<and> hpv_bindNode p = '''' \<and>
     hpv_capacity p = 4096"
  by (simp add: hpc7_def ToPersistentVolume_def toPersistentVolume_def ToHostPathVolume_def pv7_def isHostPathPV_def isEphemeral_def vol7_decoded
      getHostPathPVUsageInfo_def getHostPathPVBindNode_def getHostPathPVCapacity_def annotation_def Let_def
      GetPersistentVolumeByClaim_def tm_Get_def tm_Add_def tm_ByIndex_def updateIndices_def touch_index_def set_Insert_def
      NewHostPathControl_def NewThreadSafeStore_def pvClaimNameNamespaceIndexFunc_def map_filter_simps)


end
