(* ===== verification/Scheduler_Score.thy ===== *)
theory Scheduler_Score
  imports Host_Path_Client Go_Float
begin

text \<open>
  The scoring of the scheduler extender, pkg/extender-scheduler/scheduler/prioritize/: a node is
  scored by the share of its capacity that is not promised yet, scaled so that the best node gets 10
  (hostpath_diskusage.go). The arithmetic is that of Go, in \<open>float64\<close>. The nodes are scored by one
  goroutine each; every goroutine writes its own slot of the list only, so their order is immaterial
  and the list is a map over the nodes.
\<close>

section \<open>hostpath_diskusage.go\<close>

definition DefaultNodeScore :: int where "DefaultNodeScore = 100"

record HostPriority =
  hp_Host :: string
  hp_Score :: int

text \<open>The score of one node from its capacity and the size promised.\<close>

definition usage_score :: "int \<Rightarrow> int \<Rightarrow> int" where
  "usage_score capacity allocated =
     (if capacity \<le> 0 \<or> capacity \<le> allocated then 0
      else int64_of_float (fdiv (fmul 100 (float64 (i64 (capacity - allocated)))) (float64 capacity)))"

definition mapScoringNode :: "json \<Rightarrow> bool \<Rightarrow> CoreNode \<Rightarrow> HostPriority" where
  "mapScoringNode js hasHostPath node =
     (let count =
            (if \<not> hasHostPath then DefaultNodeScore
             else let hpNode = ToHostPathNode js node
                  in usage_score (nu_Capacity (hn_diskUsage hpNode)) (nu_QuotaSize (hn_diskUsage hpNode)))
      in \<lparr>hp_Host = cn_Name node, hp_Score = count\<rparr>)"

definition maxCount :: "HostPriority list \<Rightarrow> int" where
  "maxCount priorityList = fold (\<lambda>p m. if hp_Score p > m then hp_Score p else m) priorityList 0"

definition reduced_score :: "int \<Rightarrow> int \<Rightarrow> int" where
  "reduced_score mx score =
     int64_of_float (if mx > 0 then fmul 10 (fdiv (float64 score) (float64 mx)) else 0)"

definition reduceScoringNode :: "bool \<Rightarrow> HostPriority list \<Rightarrow> HostPriority list" where
  "reduceScoringNode hasHostPath priorityList =
     (if \<not> hasHostPath then priorityList
      else map (\<lambda>p. p\<lparr>hp_Score := reduced_score (maxCount priorityList) (hp_Score p)\<rparr>) priorityList)"

definition ScoreNodes :: "json \<Rightarrow> CoreNode list \<Rightarrow> HostPriority list" where
  "ScoreNodes js nodes =
     (let hasHostPath = list_all IsHostPathNode nodes
      in reduceScoringNode hasHostPath (map (mapScoringNode js hasHostPath) nodes))"

section \<open>Facts\<close>

lemma fl_small_int: "0 \<le> n \<Longrightarrow> n < 2 ^ 53 \<Longrightarrow> fl (of_int n) = of_int n"
  using fl_representable [of n 0] by simp

text \<open>
  Rounding does not move a number across an integer when the number is a multiple of a fraction with
  a denominator of at most 2 ^ 46 and at most 100.
\<close>

lemma floor_fl:
  assumes "0 \<le> a" "0 < c" "c \<le> 2 ^ 46" "a \<le> 100 * c"
  shows "\<lfloor>fl (of_int a / of_int c)\<rfloor> = a div c"
proof -
  let ?x = "of_int a / of_int c :: rat"
  let ?n = "a div c"
  have fx: "\<lfloor>?x\<rfloor> = ?n" by (simp add: floor_divide_of_int_eq)
  have n: "0 \<le> ?n" "?n \<le> 100"
    using assms zdiv_mono1 [of a "100 * c" c] by (simp_all add: pos_imp_zdiv_nonneg_iff)
  have x0: "0 \<le> ?x" using assms by simp
  have lo: "of_int ?n \<le> fl ?x"
  proof -
    have "of_int ?n \<le> ?x" using fx of_int_floor_le [of ?x] by simp
    from fl_mono [OF _ this] show ?thesis using n fl_small_int [of ?n] by simp
  qed
  have "?x \<le> of_int (?n + 1) - 1 / 2 ^ 46"
  proof -
    have "a mod c < c" using assms(2) by simp
    then have "a + 1 \<le> (?n + 1) * c" using div_mult_mod_eq [of a c] by (simp only: distrib_right)
    then have "(of_int a + 1) / of_int c \<le> (of_int (?n + 1) :: rat)"
      using assms(2) by (simp add: pos_divide_le_eq) (metis of_int_1 of_int_add of_int_le_iff of_int_mult)
    moreover have "1 / 2 ^ 46 \<le> (1 / of_int c :: rat)"
    proof -
      have "of_int c \<le> (of_int (2 ^ 46) :: rat)" using assms(3) by (simp only: of_int_le_iff)
      then show ?thesis using assms(2) by (intro divide_left_mono) simp_all
    qed
    ultimately show ?thesis by (simp add: add_divide_distrib)
  qed
  also have "\<dots> = of_int ((?n + 1) * 2 ^ 46 - 1) * 2 powi (- 46)"
    by (simp add: power_int_minus field_simps)
  finally have "?x \<le> of_int ((?n + 1) * 2 ^ 46 - 1) * 2 powi (- 46)" .
  from fl_mono [OF x0 this] have "fl ?x \<le> of_int ((?n + 1) * 2 ^ 46 - 1) * 2 powi (- 46)"
    using fl_representable [of "(?n + 1) * 2 ^ 46 - 1" "- 46"] n by simp
  also have "\<dots> < of_int (?n + 1)"
    by (simp add: power_int_minus field_simps)
  finally show ?thesis using lo by (simp add: floor_eq_iff)
qed

lemma usage_score_exact:
  assumes "0 < capacity" "capacity \<le> 2 ^ 46" "0 \<le> allocated" "allocated < capacity"
  shows "usage_score capacity allocated = 100 * (capacity - allocated) div capacity"
proof -
  let ?f = "capacity - allocated"
  have f: "i64 ?f = ?f" "float64 ?f = of_int ?f" "float64 capacity = of_int capacity"
    using assms float64_small [of ?f] float64_small [of capacity] by simp_all
  have "fmul 100 (of_int ?f) = of_int (100 * ?f)"
    using fl_small_int [of "100 * ?f"] assms by (simp add: fmul_def)
  then have "\<lfloor>fdiv (fmul 100 (float64 ?f)) (float64 capacity)\<rfloor> = 100 * ?f div capacity"
    using floor_fl [of "100 * ?f" capacity] assms by (simp add: f fdiv_def)
  moreover have "0 \<le> fdiv (fmul 100 (float64 ?f)) (float64 capacity)"
    using assms f fl_nonneg by (simp add: fdiv_def fmul_def)
  moreover have "0 \<le> 100 * ?f div capacity" "100 * ?f div capacity \<le> 100"
    using assms zdiv_mono1 [of "100 * ?f" "100 * capacity" capacity] by (simp_all add: pos_imp_zdiv_nonneg_iff)
  ultimately show ?thesis using assms f by (simp add: usage_score_def int64_of_float_def)
qed

text \<open>The share of a node's capacity that is not promised, in whole percent.\<close>

definition free_percent :: "NodeUsageInfo \<Rightarrow> int" where
  "free_percent u =
     (if nu_Capacity u \<le> nu_QuotaSize u \<or> nu_Capacity u \<le> 0 then 0
      else 100 * (nu_Capacity u - nu_QuotaSize u) div nu_Capacity u)"

lemma free_percent_bounds: "0 \<le> nu_QuotaSize u \<Longrightarrow> 0 \<le> free_percent u \<and> free_percent u \<le> 100"
  using zdiv_mono1 [of "100 * (nu_Capacity u - nu_QuotaSize u)" "100 * nu_Capacity u" "nu_Capacity u"]
  by (auto simp: free_percent_def pos_imp_zdiv_nonneg_iff)

lemma usage_score_percent:
  "0 \<le> nu_QuotaSize u \<Longrightarrow> nu_Capacity u \<le> 2 ^ 46 \<Longrightarrow> usage_score (nu_Capacity u) (nu_QuotaSize u) = free_percent u"
  using usage_score_exact [of "nu_Capacity u" "nu_QuotaSize u"] by (auto simp: free_percent_def usage_score_def)

lemma reduced_score_range:
  assumes "0 \<le> s" "s \<le> mx" "mx \<le> 100"
  shows "0 \<le> reduced_score mx s \<and> reduced_score mx s \<le> 10"
    and "0 < mx \<Longrightarrow> s = mx \<Longrightarrow> reduced_score mx s = 10"
    and "0 \<le> t \<Longrightarrow> t \<le> s \<Longrightarrow> reduced_score mx t \<le> reduced_score mx s"
proof -
  have one: "fl 1 = 1" "fl 10 = 10" using fl_small_int [of 1] fl_small_int [of 10] by simp_all
  define q where "q t = fmul 10 (fdiv (float64 t) (float64 mx))" for t
  have ex: "float64 t = of_int t" if "0 \<le> t" "t \<le> mx" for t using that assms(3) by (intro float64_small) auto
  have q: "0 \<le> q t \<and> q t \<le> 10" if "0 \<le> t" "t \<le> mx" "0 < mx" for t
  proof -
    have "fl (of_int t / of_int mx) \<le> fl 1" using that by (intro fl_mono) simp_all
    then have f: "0 \<le> fl (of_int t / of_int mx)" "fl (of_int t / of_int mx) \<le> 1" using that one by (auto intro!: fl_nonneg)
    then have "fl (10 * fl (of_int t / of_int mx)) \<le> fl 10" by (intro fl_mono) simp_all
    then show ?thesis using f one ex that by (auto simp: q_def fmul_def fdiv_def intro!: fl_nonneg)
  qed
  have mono: "q t \<le> q u" if "0 \<le> t" "t \<le> u" "u \<le> mx" "0 < mx" for t u
  proof -
    have "fl (of_int t / of_int mx) \<le> fl (of_int u / of_int mx)" using that by (intro fl_mono) (simp_all add: divide_right_mono)
    moreover have "0 \<le> fl (of_int t / of_int mx)" using that by (intro fl_nonneg) simp
    ultimately have "fl (10 * fl (of_int t / of_int mx)) \<le> fl (10 * fl (of_int u / of_int mx))" by (intro fl_mono) simp_all
    then show ?thesis using ex that by (simp add: q_def fmul_def fdiv_def)
  qed
  have red: "reduced_score mx t = (if 0 < mx then \<lfloor>q t\<rfloor> else 0)" if "0 \<le> t" "t \<le> mx" for t
  proof (cases "0 < mx")
    case True
    have "0 \<le> \<lfloor>q t\<rfloor>" "\<lfloor>q t\<rfloor> \<le> 10" using q [OF that True] floor_mono [of "q t" 10] by simp_all
    then show ?thesis using True q [OF that True] by (simp add: reduced_score_def int64_of_float_def q_def)
  qed (simp add: reduced_score_def int64_of_float_def)
  show "0 \<le> reduced_score mx s \<and> reduced_score mx s \<le> 10"
    using q [of s] floor_mono [of "q s" 10] red [of s] assms by auto
  show "0 < mx \<Longrightarrow> s = mx \<Longrightarrow> reduced_score mx s = 10"
    using red [of mx] ex [of mx] one by (simp add: q_def fdiv_def fmul_def)
  show "0 \<le> t \<Longrightarrow> t \<le> s \<Longrightarrow> reduced_score mx t \<le> reduced_score mx s"
    using red [of t] red [of s] mono [of t s] assms by (auto intro!: floor_mono)
qed

lemma maxCount_max: "\<forall>p\<in>set ps. hp_Score p \<le> maxCount ps" "0 \<le> maxCount ps"
  "\<forall>p\<in>set ps. hp_Score p \<le> b \<Longrightarrow> 0 \<le> b \<Longrightarrow> maxCount ps \<le> b"
proof -
  have "(\<forall>p\<in>set ps. hp_Score p \<le> fold (\<lambda>p m. if hp_Score p > m then hp_Score p else m) ps m) \<and>
      m \<le> fold (\<lambda>p m. if hp_Score p > m then hp_Score p else m) ps m" for m
    by (induction ps arbitrary: m) (force, smt (verit) fold_simps(2) set_ConsD)
  then show "\<forall>p\<in>set ps. hp_Score p \<le> maxCount ps" "0 \<le> maxCount ps" by (auto simp: maxCount_def)
  have "\<forall>p\<in>set ps. hp_Score p \<le> b \<Longrightarrow> m \<le> b \<Longrightarrow> fold (\<lambda>p m. if hp_Score p > m then hp_Score p else m) ps m \<le> b" for m
    by (induction ps arbitrary: m) auto
  then show "\<forall>p\<in>set ps. hp_Score p \<le> b \<Longrightarrow> 0 \<le> b \<Longrightarrow> maxCount ps \<le> b" by (simp add: maxCount_def)
qed

abbreviation usage_of :: "json \<Rightarrow> CoreNode \<Rightarrow> NodeUsageInfo" where
  "usage_of js node \<equiv> hn_diskUsage (ToHostPathNode js node)"

text \<open>The data a node publishes: nothing negative promised, at most 64 TiB.\<close>

definition usage_ok :: "NodeUsageInfo \<Rightarrow> bool" where
  "usage_ok u \<longleftrightarrow> 0 \<le> nu_QuotaSize u \<and> nu_Capacity u \<le> 2 ^ 46"

lemma ScoreNodes_hostpath:
  assumes "list_all IsHostPathNode nodes" "\<forall>n\<in>set nodes. usage_ok (usage_of js n)"
  obtains mx where "ScoreNodes js nodes =
      map (\<lambda>n. \<lparr>hp_Host = cn_Name n, hp_Score = reduced_score mx (free_percent (usage_of js n))\<rparr>) nodes"
    "mx \<le> 100" "\<forall>n\<in>set nodes. free_percent (usage_of js n) \<le> mx"
    "\<And>b. 0 \<le> b \<Longrightarrow> \<forall>n\<in>set nodes. free_percent (usage_of js n) \<le> b \<Longrightarrow> mx \<le> b"
proof -
  let ?ps = "map (\<lambda>n. \<lparr>hp_Host = cn_Name n, hp_Score = free_percent (usage_of js n)\<rparr>) nodes"
  have raw: "map (mapScoringNode js True) nodes = ?ps"
    using assms(2) usage_score_percent by (auto simp: mapScoringNode_def usage_ok_def Let_def)
  have "maxCount ?ps \<le> 100"
    using maxCount_max(3) [of ?ps 100] free_percent_bounds assms(2) by (auto simp: usage_ok_def)
  moreover have "\<forall>n\<in>set nodes. free_percent (usage_of js n) \<le> maxCount ?ps" using maxCount_max(1) [of ?ps] by auto
  moreover have "maxCount ?ps \<le> b" if "0 \<le> b" "\<forall>n\<in>set nodes. free_percent (usage_of js n) \<le> b" for b
    using maxCount_max(3) [of ?ps b] that by auto
  moreover have "ScoreNodes js nodes =
      map (\<lambda>n. \<lparr>hp_Host = cn_Name n, hp_Score = reduced_score (maxCount ?ps) (free_percent (usage_of js n))\<rparr>) nodes"
    using assms(1) by (simp add: ScoreNodes_def reduceScoringNode_def raw o_def)
  ultimately show ?thesis using that by blast
qed

lemma hostpath_scores_rank:
  assumes "list_all IsHostPathNode nodes" "\<forall>n\<in>set nodes. usage_ok (usage_of js n)"
    and "i < length nodes" "j < length nodes"
  shows "0 \<le> hp_Score (ScoreNodes js nodes ! i) \<and> hp_Score (ScoreNodes js nodes ! i) \<le> 10 \<and>
    (free_percent (usage_of js (nodes ! i)) \<le> free_percent (usage_of js (nodes ! j)) \<longrightarrow>
       hp_Score (ScoreNodes js nodes ! i) \<le> hp_Score (ScoreNodes js nodes ! j)) \<and>
    (0 < free_percent (usage_of js (nodes ! i)) \<longrightarrow>
       (\<forall>n\<in>set nodes. free_percent (usage_of js n) \<le> free_percent (usage_of js (nodes ! i))) \<longrightarrow>
       hp_Score (ScoreNodes js nodes ! i) = 10)"
proof -
  let ?f = "\<lambda>k. free_percent (usage_of js (nodes ! k))"
  obtain mx where S: "ScoreNodes js nodes =
      map (\<lambda>n. \<lparr>hp_Host = cn_Name n, hp_Score = reduced_score mx (free_percent (usage_of js n))\<rparr>) nodes"
    and mx: "mx \<le> 100" and up: "\<forall>n\<in>set nodes. free_percent (usage_of js n) \<le> mx"
    and least: "\<And>b. 0 \<le> b \<Longrightarrow> \<forall>n\<in>set nodes. free_percent (usage_of js n) \<le> b \<Longrightarrow> mx \<le> b"
    by (rule ScoreNodes_hostpath [OF assms(1,2)]) (rule that)
  have b: "0 \<le> ?f k" "?f k \<le> mx" if "k < length nodes" for k
    using that up assms(2) free_percent_bounds [of "usage_of js (nodes ! k)"] by (auto simp: usage_ok_def)
  have sc: "hp_Score (ScoreNodes js nodes ! k) = reduced_score mx (?f k)" if "k < length nodes" for k
    using that by (simp add: S)
  have "reduced_score mx (?f i) = 10" if "0 < ?f i" "\<forall>n\<in>set nodes. free_percent (usage_of js n) \<le> ?f i"
    using least [of "?f i"] that b [OF assms(3)] mx by (intro reduced_score_range(2)) auto
  then show ?thesis
    using reduced_score_range(1) [OF b(1) [OF assms(3)] b(2) [OF assms(3)] mx]
      reduced_score_range(3) [OF b(1) [OF assms(4)] b(2) [OF assms(4)] mx b(1) [OF assms(3)]] sc assms(3,4) by simp
qed

lemma ordinary_scores: "\<not> list_all IsHostPathNode nodes \<Longrightarrow> ScoreNodes js nodes = map (\<lambda>n. \<lparr>hp_Host = cn_Name n, hp_Score = 100\<rparr>) nodes"
  by (simp add: ScoreNodes_def reduceScoringNode_def mapScoringNode_def DefaultNodeScore_def Let_def)

lemma scored_hosts: "map hp_Host (ScoreNodes js nodes) = map cn_Name nodes"
  by (simp add: ScoreNodes_def reduceScoringNode_def mapScoringNode_def Let_def o_def)

section \<open>Properties\<close>

text \<open>
  C18. What the scores say. Every node gets its entry, in order. When all of the nodes are hostpath
  nodes, the scores rank them by free space: they are from 0 to 10; a node with a larger share of free
  capacity, in whole percent, never scores less; and a node with the largest share gets exactly 10, if
  that share is not 0. When one of the nodes is not a hostpath node, every node scores 100 (although the
  scheduler expects at most 10). The floating point arithmetic loses nothing up to 64 TiB.
\<close>

theorem scores_rank_nodes:
  assumes "\<forall>n\<in>set nodes. usage_ok (usage_of js n)" "i < length nodes" "j < length nodes"
  shows "map hp_Host (ScoreNodes js nodes) = map cn_Name nodes \<and>
    (if list_all IsHostPathNode nodes then
       0 \<le> hp_Score (ScoreNodes js nodes ! i) \<and> hp_Score (ScoreNodes js nodes ! i) \<le> 10 \<and>
       (free_percent (usage_of js (nodes ! i)) \<le> free_percent (usage_of js (nodes ! j)) \<longrightarrow>
          hp_Score (ScoreNodes js nodes ! i) \<le> hp_Score (ScoreNodes js nodes ! j)) \<and>
       (0 < free_percent (usage_of js (nodes ! i)) \<longrightarrow>
          (\<forall>n\<in>set nodes. free_percent (usage_of js n) \<le> free_percent (usage_of js (nodes ! i))) \<longrightarrow>
          hp_Score (ScoreNodes js nodes ! i) = 10)
     else hp_Score (ScoreNodes js nodes ! i) = 100)"
proof (cases "list_all IsHostPathNode nodes")
  case True
  then show ?thesis using hostpath_scores_rank [OF True assms] scored_hosts by simp
next
  case False
  then show ?thesis using ordinary_scores [OF False] scored_hosts assms(2) by simp
qed

text \<open>Two nodes: one that has published nothing, and one with half of its capacity free.\<close>

definition json_half :: json where
  "json_half = json0\<lparr>Unmarshal_node := (\<lambda>_. Some (zero_NodeUsageInfo\<lparr>nu_Capacity := 8192, nu_QuotaSize := 4096\<rparr>))\<rparr>"

theorem scores_rank_nodes_witness:
  "map hp_Host (ScoreNodes json_half [node1, node7]) = [''n1'', ''n1''] \<and>
   hp_Score (ScoreNodes json_half [node1, node7] ! 1) = 10"
proof -
  have n1: "usage_of json_half node1 = zero_NodeUsageInfo" "IsHostPathNode node1"
    by (simp_all add: ToHostPathNode_def IsHostPathNode_def getNodeHostPathUsageInfo_def annotation_def node1_def Let_def)
  have n7: "usage_of json_half node7 = zero_NodeUsageInfo\<lparr>nu_Capacity := 8192, nu_QuotaSize := 4096\<rparr>" "IsHostPathNode node7"
    using node7_reads [of json_half] by (simp_all add: json_half_def)
  have "list_all IsHostPathNode [node1, node7]" using n1 n7 by simp
  moreover have "\<forall>n\<in>set [node1, node7]. usage_ok (usage_of json_half n)"
    using n1 n7 by (simp add: usage_ok_def zero_NodeUsageInfo_def)
  moreover have "free_percent (usage_of json_half node1) = 0" "free_percent (usage_of json_half node7) = 50"
    using n1 n7 by (simp_all add: free_percent_def zero_NodeUsageInfo_def)
  ultimately show ?thesis
    using scores_rank_nodes [of "[node1, node7]" json_half 1 1] by (simp add: node7_def node1_def)
qed

text \<open>
  When one of the nodes is not a hostpath node, every node is scored 100, although the
  scheduler expects a score of an extender to be at most 10.
\<close>

lemma default_score_out_of_range:
  assumes "\<not> list_all IsHostPathNode nodes"
  shows "ScoreNodes js nodes = map (\<lambda>n. \<lparr>hp_Host = cn_Name n, hp_Score = 100\<rparr>) nodes"
  using assms by (rule ordinary_scores)

end
