(* ===== verification/Scheduler_Bind.thy ===== *)
theory Scheduler_Bind
  imports Host_Path_Control
begin

text \<open>
  The binding of the scheduler extender, pkg/extender-scheduler/scheduler/bind/hostpathpv_bind.go:
  every persistent hostpath volume of the pod that has no node yet is bound to the chosen node, then
  the pod is. The cache is read at the start of each step and is not changed by the calls; the cluster
  is.
\<close>

section \<open>hostpathpv_bind.go\<close>

datatype bind_error =
    PodNotFound string string
  | BindVolumeFailed apierr
  | BindConflict string string
  | BindPodFailed string string string apierr

text \<open>The loop over the claims of the pod; \<open>None\<close> is success.\<close>

fun bind_claims ::
    "'k kube \<Rightarrow> HostPathControl \<Rightarrow> string \<Rightarrow> string \<Rightarrow> string list \<Rightarrow> 'k \<Rightarrow> bind_error option \<times> 'k" where
  "bind_claims api hpc namespace node [] k = (None, k)"
| "bind_claims api hpc namespace node (claimName # claims) k =
     (case GetPersistentVolumeByClaim hpc claimName namespace of
        None \<Rightarrow> bind_claims api hpc namespace node claims k
      | Some pv \<Rightarrow>
          if \<not> hpv_isHostPathPv pv then bind_claims api hpc namespace node claims k
          else if hpv_ephemeral pv then bind_claims api hpc namespace node claims k
          else if length (hpv_bindNode pv) = 0 then
            (case BindHostPathPV api (hpv_name pv) node k of
               (Some err, k) \<Rightarrow> (Some (BindVolumeFailed err), k)
             | (None, k) \<Rightarrow> bind_claims api hpc namespace node claims k)
          else if hpv_bindNode pv \<noteq> node then (Some (BindConflict (hpv_name pv) (hpv_bindNode pv)), k)
          else bind_claims api hpc namespace node claims k)"

definition Bind ::
    "'k kube \<Rightarrow> HostPathControl \<Rightarrow> string \<Rightarrow> string \<Rightarrow> string \<Rightarrow> 'k \<Rightarrow> bind_error option \<times> 'k" where
  "Bind api hpc podName podNamespace node k =
     (case GetPod hpc podName podNamespace of
        None \<Rightarrow> (Some (PodNotFound podName podNamespace), k)
      | Some pod \<Rightarrow>
          (case bind_claims api hpc (hp_namespace pod) node (hp_pvClaims pod) k of
             (Some err, k) \<Rightarrow> (Some err, k)
           | (None, k) \<Rightarrow>
               (case BindPod api pod node k of
                  (Some err, k) \<Rightarrow> (Some (BindPodFailed podNamespace podName node err), k)
                | (None, k) \<Rightarrow> (None, k))))"

section \<open>Facts\<close>

text \<open>
  What the API server does with a patch of a volume: one that succeeds sets exactly this annotation of
  this volume; and binding a pod changes no volume.
\<close>

definition pv_patch_adds :: "'k kube \<Rightarrow> bool" where
  "pv_patch_adds api \<longleftrightarrow>
     (\<forall>name key val k k'. plain key \<and> plain val \<longrightarrow> pv_Patch api name (annotation_patch key val) k = (None, k') \<longrightarrow>
        (\<exists>pv. pv_Get api k' name = Inr (pv\<lparr>cp_Annotations := (cp_Annotations pv)(key \<mapsto> val)\<rparr>)) \<and>
        (\<forall>name'. name' \<noteq> name \<longrightarrow> pv_Get api k' name' = pv_Get api k name')) \<and>
     (\<forall>pod node k k' name e. pod_Bind api pod node k = (e, k') \<longrightarrow> pv_Get api k' name = pv_Get api k name)"

lemma pv_patch_addsD:
  assumes "pv_patch_adds api" "plain key" "plain val" "pv_Patch api name (annotation_patch key val) k = (None, k')"
  shows "\<exists>pv. pv_Get api k' name = Inr (pv\<lparr>cp_Annotations := (cp_Annotations pv)(key \<mapsto> val)\<rparr>)"
    and "name' \<noteq> name \<Longrightarrow> pv_Get api k' name' = pv_Get api k name'"
  using assms unfolding pv_patch_adds_def by blast+

lemma pod_Bind_keeps: "pv_patch_adds api \<Longrightarrow> pod_Bind api pod node k = (e, k') \<Longrightarrow> pv_Get api k' name = pv_Get api k name"
  unfolding pv_patch_adds_def by blast

text \<open>The volume is bound to the node in the cluster.\<close>

definition pinned :: "'k kube \<Rightarrow> 'k \<Rightarrow> string \<Rightarrow> string \<Rightarrow> bool" where
  "pinned api k name node \<longleftrightarrow> (\<exists>pv. pv_Get api k name = Inr pv \<and> getHostPathPVBindNode pv = node)"

lemma bind_ann_plain: "plain HostPathPvBindInfoAnn" by code_simp

lemma bind_pins:
  assumes "pv_patch_adds api" "plain node" "BindHostPathPV api name node k = (None, k')"
  shows "pinned api k' name node" "pinned api k name' node \<Longrightarrow> pinned api k' name' node"
proof -
  have p: "pv_Patch api name (annotation_patch HostPathPvBindInfoAnn node) k = (None, k')"
    using assms(3) by (simp add: BindHostPathPV_def getHostPathPVBindNodePatchBytes_def)
  note adds = pv_patch_addsD [OF assms(1) bind_ann_plain assms(2) p]
  show pin: "pinned api k' name node"
    using adds(1) by (auto simp: pinned_def getHostPathPVBindNode_def annotation_def)
  show "pinned api k name' node \<Longrightarrow> pinned api k' name' node"
    using adds(2) [of name'] pin by (cases "name' = name") (simp_all add: pinned_def)
qed

lemma bind_claims_keep:
  "bind_claims api hpc ns node claims k = (None, k') \<Longrightarrow> pv_patch_adds api \<Longrightarrow> plain node \<Longrightarrow>
   pinned api k name node \<Longrightarrow> pinned api k' name node"
proof (induction claims arbitrary: k)
  case (Cons c claims)
  then show ?case by (auto split: option.splits if_splits prod.splits dest: bind_pins(2))
qed simp

lemma bind_claims_pin:
  "bind_claims api hpc ns node claims k = (None, k') \<Longrightarrow> pv_patch_adds api \<Longrightarrow> plain node \<Longrightarrow> c \<in> set claims \<Longrightarrow>
   GetPersistentVolumeByClaim hpc c ns = Some pv \<Longrightarrow> hpv_isHostPathPv pv \<Longrightarrow> \<not> hpv_ephemeral pv \<Longrightarrow>
   hpv_bindNode pv = node \<or> hpv_bindNode pv = '''' \<and> pinned api k' (hpv_name pv) node"
proof (induction claims arbitrary: k)
  case (Cons c' claims)
  show ?case
  proof (cases "c' = c")
    case True
    then show ?thesis
      using Cons.prems bind_claims_keep [of api hpc ns node claims _ k'] bind_pins(1) [of api node "hpv_name pv" k]
      by (auto split: if_splits prod.splits option.splits)
  next
    case False
    then have c: "c \<in> set claims" using Cons.prems by simp
    obtain k1 where "bind_claims api hpc ns node claims k1 = (None, k')"
      using Cons.prems(1) by (auto split: option.splits if_splits prod.splits)
    from Cons.IH [OF this Cons.prems(2,3) c Cons.prems(5-7)] show ?thesis .
  qed
qed simp

text \<open>The volumes a successful loop binds; it touches no other.\<close>

definition to_bind :: "HostPathControl \<Rightarrow> string \<Rightarrow> string list \<Rightarrow> string set" where
  "to_bind hpc ns claims = {hpv_name pv | c pv. c \<in> set claims \<and> GetPersistentVolumeByClaim hpc c ns = Some pv \<and>
     hpv_isHostPathPv pv \<and> \<not> hpv_ephemeral pv \<and> hpv_bindNode pv = ''''}"

lemma bind_claims_frame:
  "bind_claims api hpc ns node claims k = (None, k') \<Longrightarrow> pv_patch_adds api \<Longrightarrow> plain node \<Longrightarrow>
   name \<notin> to_bind hpc ns claims \<Longrightarrow> pv_Get api k' name = pv_Get api k name"
proof (induction claims arbitrary: k)
  case (Cons c claims)
  have IH: "pv_Get api k' name = pv_Get api k1 name" if "bind_claims api hpc ns node claims k1 = (None, k')" for k1
    using Cons.IH [OF that Cons.prems(2,3)] Cons.prems(4) by (auto simp: to_bind_def)
  show ?case
  proof (cases "GetPersistentVolumeByClaim hpc c ns")
    case None
    then show ?thesis using Cons.prems(1) IH by simp
  next
    case (Some pv)
    show ?thesis
    proof (cases "hpv_isHostPathPv pv \<and> \<not> hpv_ephemeral pv \<and> hpv_bindNode pv = ''''")
      case True
      then obtain k1 where b: "BindHostPathPV api (hpv_name pv) node k = (None, k1)" "bind_claims api hpc ns node claims k1 = (None, k')"
        using Cons.prems(1) Some by (auto split: prod.splits option.splits)
      have "name \<noteq> hpv_name pv" using Cons.prems(4) Some True by (auto simp: to_bind_def)
      then have "pv_Get api k1 name = pv_Get api k name"
        using b(1) pv_patch_addsD(2) [OF Cons.prems(2) bind_ann_plain Cons.prems(3)]
        by (simp add: BindHostPathPV_def getHostPathPVBindNodePatchBytes_def)
      then show ?thesis using IH [OF b(2)] by simp
    next
      case False
      then show ?thesis using Cons.prems(1) Some IH by (auto split: if_splits)
    qed
  qed
qed simp

section \<open>Properties\<close>

text \<open>
  C11. What a successful binding does to the volumes of the pod. Every claim whose volume is in the cache,
  is a hostpath volume and is not ephemeral, falls in one of two cases: the cache had the volume unbound,
  and now it is bound to the chosen node in the cluster; or the cache had it bound to the chosen node, and
  it is left as it is, so that it stays bound there if the cache was right. No other volume of
  the cluster changes. Claims whose volume is not in the cache are passed over.
\<close>

theorem bind_pins_volumes:
  assumes "Bind api hpc podName podNamespace node k = (None, k')" "pv_patch_adds api" "plain node"
    and "GetPod hpc podName podNamespace = Some pod"
  shows "(\<forall>c\<in>set (hp_pvClaims pod). \<forall>pv. GetPersistentVolumeByClaim hpc c (hp_namespace pod) = Some pv \<longrightarrow>
        hpv_isHostPathPv pv \<longrightarrow> \<not> hpv_ephemeral pv \<longrightarrow>
        hpv_bindNode pv = '''' \<and> pinned api k' (hpv_name pv) node \<or>
        hpv_bindNode pv = node \<and> (pinned api k (hpv_name pv) node \<longrightarrow> pinned api k' (hpv_name pv) node)) \<and>
    (\<forall>name. name \<notin> to_bind hpc (hp_namespace pod) (hp_pvClaims pod) \<longrightarrow> pv_Get api k' name = pv_Get api k name)"
proof -
  obtain k1 where b: "bind_claims api hpc (hp_namespace pod) node (hp_pvClaims pod) k = (None, k1)"
      "BindPod api pod node k1 = (None, k')"
    using assms(1,4) by (auto simp: Bind_def split: option.splits prod.splits)
  have e: "pv_Get api k' n = pv_Get api k1 n" for n using pod_Bind_keeps [OF assms(2)] b(2) by (simp add: BindPod_def)
  then have "pinned api k' n node = pinned api k1 n node" for n by (simp add: pinned_def)
  then show ?thesis
    using bind_claims_pin [OF b(1) assms(2,3)] bind_claims_keep [OF b(1) assms(2,3)] bind_claims_frame [OF b(1) assms(2,3)] e
    by metis
qed

text \<open>
  A binding that fails does not undo what it did: when the first volume of the pod is bound
  and the second turns out to be bound elsewhere, the call fails, the pod is not bound, and the first
  volume stays bound to the node.
\<close>

lemma bind_conflict_no_rollback:
  assumes "pv_patch_adds api" "plain node" "GetPod hpc podName podNamespace = Some pod" "hp_pvClaims pod = c1 # c2 # rest"
    and "GetPersistentVolumeByClaim hpc c1 (hp_namespace pod) = Some pv1" "hpv_isHostPathPv pv1" "\<not> hpv_ephemeral pv1"
      "hpv_bindNode pv1 = ''''"
    and "GetPersistentVolumeByClaim hpc c2 (hp_namespace pod) = Some pv2" "hpv_isHostPathPv pv2" "\<not> hpv_ephemeral pv2"
      "hpv_bindNode pv2 \<noteq> ''''" "hpv_bindNode pv2 \<noteq> node"
    and "BindHostPathPV api (hpv_name pv1) node k = (None, k1)"
  shows "Bind api hpc podName podNamespace node k = (Some (BindConflict (hpv_name pv2) (hpv_bindNode pv2)), k1) \<and>
    pinned api k1 (hpv_name pv1) node"
  using assms bind_pins(1) [OF assms(1,2,14)] by (simp add: Bind_def)

text \<open>A cluster of two persistent volumes in memory; the cache knows them and a pod that uses both.\<close>

definition mem_pvs :: "(string \<rightharpoonup> CorePV) kube" where
  "mem_pvs = \<lparr>
     pv_Get = (\<lambda>k name. case k name of None \<Rightarrow> Inl NotFound | Some pv \<Rightarrow> Inr pv),
     node_Get = (\<lambda>k name. Inl NotFound),
     pv_Patch = (\<lambda>name p k. case k name of
        None \<Rightarrow> (Some NotFound, k)
      | Some pv \<Rightarrow> (None, k(name \<mapsto> pv\<lparr>cp_Annotations :=
          (cp_Annotations pv)(fst (parse_patch p) \<mapsto> snd (parse_patch p))\<rparr>))),
     node_Patch = (\<lambda>name p k. (Some NotFound, k)), pod_Bind = (\<lambda>pod node k. (None, k))\<rparr>"

lemma mem_pvs_patch: "pv_patch_adds mem_pvs"
  unfolding pv_patch_adds_def by (auto simp: mem_pvs_def parse_annotation_patch split: option.splits)

definition volume_named :: "string \<Rightarrow> string \<Rightarrow> string \<Rightarrow> PersistentVolume" where
  "volume_named name claim node = \<lparr>hpv_version = ''1'', hpv_name = name, hpv_namespace = '''',
     hpv_index = PersistentVolumeKey claim ''default'', hpv_volId = name, hpv_isHostPathPv = True, hpv_bindNode = node,
     hpv_ephemeral = False, hpv_capacity = 4096, hpv_volumePath = '''', hpv_usage = 0\<rparr>"

definition cache_with :: "string \<Rightarrow> HostPathControl" where
  "cache_with node = NewHostPathControl\<lparr>
     pvLister := tm_Add ''pv2'' (volume_named ''pv2'' ''logs'' node)
       (tm_Add ''pv1'' (volume_named ''pv1'' ''data'' '''') (pvLister NewHostPathControl)),
     podLister := tm_Add ''default/p'' \<lparr>hp_UID = ''u'', hp_version = ''1'', hp_name = ''p'', hp_namespace = ''default'',
       hp_pvClaims = [''data'', ''logs'']\<rparr> (podLister NewHostPathControl)\<rparr>"

lemmas cache_run_defs = cache_with_def NewHostPathControl_def NewThreadSafeStore_def tm_Add_def updateIndices_def
  touch_index_def set_Insert_def tm_ByIndex_def GetPersistentVolumeByClaim_def GetPod_def podNamespaceIndexFunc_def
  pvClaimNameNamespaceIndexFunc_def podNamespaceIndex_def pvClaimNameNamespaceIndex_def PersistentVolumeKey_def
  map_filter_simps Let_def

lemma cache_with_reads:
  "GetPod (cache_with node) ''p'' ''default'' = Some \<lparr>hp_UID = ''u'', hp_version = ''1'', hp_name = ''p'',
     hp_namespace = ''default'', hp_pvClaims = [''data'', ''logs'']\<rparr>"
  "GetPersistentVolumeByClaim (cache_with node) ''data'' ''default'' = Some (volume_named ''pv1'' ''data'' '''')"
  "GetPersistentVolumeByClaim (cache_with node) ''logs'' ''default'' = Some (volume_named ''pv2'' ''logs'' node)"
  by (simp_all add: cache_run_defs volume_named_def)

definition pvs0 :: "string \<rightharpoonup> CorePV" where
  "pvs0 = [''pv1'' \<mapsto> pv7, ''pv2'' \<mapsto> pv7]"

lemma mem_pvs_calls:
  "k name = Some pv \<Longrightarrow> \<exists>pv'. BindHostPathPV mem_pvs name node k = (None, k(name \<mapsto> pv'))"
  "BindPod mem_pvs pod node k = (None, k)"
  by (auto simp: BindHostPathPV_def BindPod_def mem_pvs_def)

theorem bind_pins_volumes_witness:
  "\<exists>k'. Bind mem_pvs (cache_with '''') ''p'' ''default'' ''n1'' pvs0 = (None, k') \<and>
     pinned mem_pvs k' ''pv1'' ''n1'' \<and> \<not> pinned mem_pvs pvs0 ''pv1'' ''n1''"
proof -
  obtain k' where b: "Bind mem_pvs (cache_with '''') ''p'' ''default'' ''n1'' pvs0 = (None, k')"
  proof -
    obtain a where a: "BindHostPathPV mem_pvs ''pv1'' ''n1'' pvs0 = (None, pvs0(''pv1'' \<mapsto> a))"
      using mem_pvs_calls(1) [of pvs0 "''pv1''" pv7 "''n1''"] by (auto simp: pvs0_def)
    obtain b where b: "BindHostPathPV mem_pvs ''pv2'' ''n1'' (pvs0(''pv1'' \<mapsto> a)) = (None, pvs0(''pv1'' \<mapsto> a, ''pv2'' \<mapsto> b))"
      using mem_pvs_calls(1) [of "pvs0(''pv1'' \<mapsto> a)" "''pv2''" pv7 "''n1''"] by (auto simp: pvs0_def)
    show ?thesis
      using that a b by (simp add: Bind_def cache_with_reads mem_pvs_calls(2) volume_named_def)
  qed
  have p: "plain ''n1''" by code_simp
  have "\<not> pinned mem_pvs pvs0 ''pv1'' ''n1''"
    by (simp add: pinned_def mem_pvs_def pvs0_def pv7_def getHostPathPVBindNode_def annotation_def)
  then show ?thesis
    using bind_pins_volumes [OF b mem_pvs_patch p cache_with_reads(1)] b cache_with_reads(2) by (simp add: volume_named_def)
qed

end
