(* ===== verification/Extender.thy ===== *)
theory Extender
  imports Scheduler_Filter Scheduler_Score Scheduler_Bind
begin

text \<open>
  The scheduler extender as a server: the registries of plugins, the handlers and the HTTP routes of
  pkg/extender-scheduler/scheduler/*/predicate.go, prioritize.go and bind.go, and their assembly in
  cmd/extender-scheduler/main.go. The three packages have the same registry; it is written once and
  used three times. JSON is decoded by the standard library: a request is its decoded form, with the
  error the decoder reported. Encoding the results cannot fail, so the branches for that are not taken.
\<close>

section \<open>The registries\<close>

text \<open>
  A plugin: its name, whether its initialisation fails, and its service. The message of a rejected
  registration is a constructor.
\<close>

record ('c, 'h) plugin =
  pl_Name :: string
  pl_Init :: "'c \<Rightarrow> string option"
  pl_Service :: "'c \<Rightarrow> 'h"

datatype registry_error = EmptyName | AlreadyRegistered string | InitFailed string string

definition Register :: "('c, 'h) plugin \<Rightarrow> ('c, 'h) plugin list \<Rightarrow> registry_error option \<times> ('c, 'h) plugin list" where
  "Register p plugins =
     (if pl_Name p = '''' then (Some EmptyName, plugins)
      else case find (\<lambda>exist. pl_Name exist = pl_Name p) plugins of
             Some exist \<Rightarrow> (Some (AlreadyRegistered (pl_Name p)), plugins)
           | None \<Rightarrow> (None, plugins @ [p]))"

fun Init :: "'c \<Rightarrow> ('c, 'h) plugin list \<Rightarrow> registry_error option" where
  "Init k8sControl [] = None"
| "Init k8sControl (p # plugins) =
     (case pl_Init p k8sControl of
        Some err \<Rightarrow> Some (InitFailed (pl_Name p) err)
      | None \<Rightarrow> Init k8sControl plugins)"

text \<open>The routes of a registry, as the router gets them: the path and the plugin that answers.\<close>

definition AddRoute :: "string \<Rightarrow> ('c, 'h) plugin list \<Rightarrow> (string \<times> ('c, 'h) plugin) list" where
  "AddRoute apiPrefix plugins = map (\<lambda>p. (apiPrefix @ ''/'' @ pl_Name p, p)) plugins"

section \<open>Handlers\<close>

text \<open>
  \<open>ea_Pod\<close> and \<open>ea_Nodes\<close> are pointers. A nil dereference in the handler's own goroutine aborts the
  request; one in a goroutine started by the handler ends the process.
\<close>

record ExtenderArgs =
  ea_Pod :: "CorePod option"
  ea_Nodes :: "CoreNode list option"

datatype 'r outcome = Reply 'r | HandlerPanic | ProcessCrash

definition filter_Handler ::
    "(CorePod \<Rightarrow> CoreNode \<Rightarrow> string + bool) \<Rightarrow> ExtenderArgs \<Rightarrow> ExtenderFilterResult outcome" where
  "filter_Handler f args =
     (case ea_Nodes args of
        None \<Rightarrow> HandlerPanic
      | Some nodes \<Rightarrow>
          (case ea_Pod args of
             Some pod \<Rightarrow> Reply (predicate_Handler f pod nodes)
           | None \<Rightarrow> if nodes = [] then Reply \<lparr>fr_Nodes = [], fr_FailedNodes = [], fr_Error = ''''\<rparr> else HandlerPanic))"

definition prioritize_Handler :: "json \<Rightarrow> ExtenderArgs \<Rightarrow> HostPriority list outcome" where
  "prioritize_Handler js args =
     (case ea_Nodes args of
        None \<Rightarrow> HandlerPanic
      | Some nodes \<Rightarrow>
          (case ea_Pod args of
             Some pod \<Rightarrow> Reply (ScoreNodes js nodes)
           | None \<Rightarrow> if nodes = [] then Reply [] else ProcessCrash))"

section \<open>Routes\<close>

text \<open>
  A request: no body, or the arguments as far as they could be decoded and the decoder's error. A
  response: the status code and, when the body was read, the result.
\<close>

datatype 'a request = NoBody | Body 'a "string option"

datatype 'r response = Http nat "'r option"

definition predicateRoute ::
    "(CorePod \<Rightarrow> CoreNode \<Rightarrow> string + bool) \<Rightarrow> ExtenderArgs request \<Rightarrow> ExtenderFilterResult response outcome" where
  "predicateRoute f r =
     (case r of
        NoBody \<Rightarrow> Reply (Http 400 None)
      | Body args (Some err) \<Rightarrow> Reply (Http 200 (Some \<lparr>fr_Nodes = [], fr_FailedNodes = [], fr_Error = err\<rparr>))
      | Body args None \<Rightarrow>
          (case filter_Handler f args of
             Reply result \<Rightarrow> Reply (Http 200 (Some result))
           | HandlerPanic \<Rightarrow> HandlerPanic
           | ProcessCrash \<Rightarrow> ProcessCrash))"

text \<open>The route of the scores goes on after a decoding error, with what was decoded.\<close>

definition prioritiesRoute :: "json \<Rightarrow> ExtenderArgs request \<Rightarrow> HostPriority list response outcome" where
  "prioritiesRoute js r =
     (case r of
        NoBody \<Rightarrow> Reply (Http 400 None)
      | Body args err \<Rightarrow>
          (case prioritize_Handler js args of
             Reply result \<Rightarrow> Reply (Http 200 (Some result))
           | HandlerPanic \<Rightarrow> HandlerPanic
           | ProcessCrash \<Rightarrow> ProcessCrash))"

record ExtenderBindingArgs =
  eb_PodName :: string
  eb_PodNamespace :: string
  eb_Node :: string

datatype binding_result = BindingResult "bind_error option" | DecodeFailed string

definition bindsRoute ::
    "'k kube \<Rightarrow> HostPathControl \<Rightarrow> ExtenderBindingArgs request \<Rightarrow> 'k \<Rightarrow> binding_result response \<times> 'k" where
  "bindsRoute api hpc r k =
     (case r of
        NoBody \<Rightarrow> (Http 400 None, k)
      | Body args (Some err) \<Rightarrow> (Http 500 (Some (DecodeFailed err)), k)
      | Body args None \<Rightarrow>
          (case Bind api hpc (eb_PodName args) (eb_PodNamespace args) (eb_Node args) k of
             (e, k) \<Rightarrow> (Http (if e = None then 200 else 500) (Some (BindingResult e)), k)))"

section \<open>Assembly\<close>

definition predicatesPath :: string where "predicatesPath = ''/scheduler/predicates''"
definition prioritiesPath :: string where "prioritiesPath = ''/scheduler/priorities''"
definition bindsPath :: string where "bindsPath = ''/scheduler/bind''"

text \<open>The lists after the packages' \<open>init\<close> functions have run.\<close>

definition predicateList :: "json \<Rightarrow> (HostPathControl, CorePod \<Rightarrow> CoreNode \<Rightarrow> string + bool) plugin list" where
  "predicateList js = snd (Register \<lparr>pl_Name = ''hostpathpvdiskpressure'', pl_Init = (\<lambda>_. None),
     pl_Service = (\<lambda>hpc pod node. Inr (FilterNode hpc js pod node))\<rparr> [])"

definition prioritizeList :: "json \<Rightarrow> (HostPathControl, CoreNode list \<Rightarrow> HostPriority list) plugin list" where
  "prioritizeList js = snd (Register \<lparr>pl_Name = ''hostpathpvdiskuse'', pl_Init = (\<lambda>_. None),
     pl_Service = (\<lambda>hpc. ScoreNodes js)\<rparr> [])"

definition bindList ::
    "'k kube \<Rightarrow> (HostPathControl, string \<Rightarrow> string \<Rightarrow> string \<Rightarrow> 'k \<Rightarrow> bind_error option \<times> 'k) plugin list" where
  "bindList api = snd (Register \<lparr>pl_Name = ''hostpathpvbind'', pl_Init = (\<lambda>_. None), pl_Service = Bind api\<rparr> [])"

definition initAll ::
    "'c \<Rightarrow> ('c, 'p) plugin list \<Rightarrow> ('c, 's) plugin list \<Rightarrow> ('c, 'b) plugin list \<Rightarrow> registry_error option" where
  "initAll k8sControl predicates priorities binds =
     (case Init k8sControl predicates of
        Some err \<Rightarrow> Some err
      | None \<Rightarrow>
          (case Init k8sControl priorities of
             Some err \<Rightarrow> Some err
           | None \<Rightarrow> Init k8sControl binds))"

text \<open>The paths the extender serves.\<close>

definition extender_paths :: "json \<Rightarrow> 'k kube \<Rightarrow> string list" where
  "extender_paths js api = ''/version'' # map fst (AddRoute predicatesPath (predicateList js)) @
     map fst (AddRoute prioritiesPath (prioritizeList js)) @ map fst (AddRoute bindsPath (bindList api))"

section \<open>Facts\<close>

text \<open>A registry as its clients see it: it grows by exactly the accepted plugins.\<close>

locale plugin_registry =
  fixes name :: "'p \<Rightarrow> string" and register :: "'p \<Rightarrow> 'p list \<Rightarrow> 'e option \<times> 'p list"
  assumes register_ok: "register p ps = (None, ps') \<Longrightarrow> ps' = ps @ [p] \<and> name p \<noteq> '''' \<and> name p \<notin> name ` set ps"
    and register_rejects: "register p ps = (Some e, ps') \<Longrightarrow> ps' = ps"
begin

definition register_all :: "'p list \<Rightarrow> 'p list" where
  "register_all plugins = fold (\<lambda>p ps. snd (register p ps)) plugins []"

lemma step_distinct:
  assumes "distinct (map name ps)" "'''' \<notin> name ` set ps"
  shows "distinct (map name (snd (register p ps))) \<and> '''' \<notin> name ` set (snd (register p ps))"
proof (cases "register p ps")
  case (Pair r ps')
  show ?thesis
  proof (cases r)
    case None
    then show ?thesis using register_ok [of p ps ps'] Pair assms by auto
  next
    case (Some e)
    then show ?thesis using register_rejects [of p ps e ps'] Pair assms by simp
  qed
qed

lemma names_distinct: "distinct (map name (register_all plugins)) \<and> '''' \<notin> name ` set (register_all plugins)"
proof -
  have "distinct (map name (fold (\<lambda>p ps. snd (register p ps)) plugins ps)) \<and>
      '''' \<notin> name ` set (fold (\<lambda>p ps. snd (register p ps)) plugins ps)"
    if "distinct (map name ps)" "'''' \<notin> name ` set ps" for ps
    using that by (induction plugins arbitrary: ps) (simp_all add: step_distinct)
  from this [of "[]"] show ?thesis by (simp add: register_all_def)
qed

end

interpretation extender: plugin_registry pl_Name Register
  by unfold_locales (auto simp: Register_def find_None_iff split: if_splits option.splits)

lemma filter_reply:
  "ea_Pod args = Some pod \<Longrightarrow> ea_Nodes args = Some nodes \<Longrightarrow>
   \<exists>result. predicateRoute f (Body args None) = Reply (Http 200 (Some result)) \<and>
     fr_Nodes result = filter (\<lambda>n. f pod n = Inr True) nodes \<and> fr_Error result = ''''"
  using filter_nodes_eq [of f pod nodes "[]" "[]"]
  by (auto simp: predicateRoute_def filter_Handler_def predicate_Handler_def split: prod.split)

text \<open>A request for scores that cannot be decoded ends in a panic, not in an empty list.\<close>

lemma undecodable_scores_panic:
  "prioritiesRoute js (Body \<lparr>ea_Pod = None, ea_Nodes = None\<rparr> (Some err)) = HandlerPanic"
  by (simp add: prioritiesRoute_def prioritize_Handler_def)

text \<open>A request for scores that names nodes but no pod ends the process.\<close>

lemma scores_without_pod_crash: "prioritiesRoute js (Body \<lparr>ea_Pod = None, ea_Nodes = Some (n # ns)\<rparr> err) = ProcessCrash"
  by (simp add: prioritiesRoute_def prioritize_Handler_def)

lemma extender_paths_distinct: "distinct (extender_paths js api)"
  by (simp add: extender_paths_def AddRoute_def predicateList_def prioritizeList_def bindList_def Register_def
      predicatesPath_def prioritiesPath_def bindsPath_def)

section \<open>Properties\<close>

text \<open>
  Whatever plugins are registered, and in whatever order, no two routes of a registry have the
  same path, so the router never refuses one.
\<close>

lemma routes_distinct: "distinct (map fst (AddRoute apiPrefix (fold (\<lambda>p ps. snd (Register p ps)) plugins [])))"
  using extender.names_distinct [of plugins]
  by (simp add: AddRoute_def extender.register_all_def distinct_map inj_on_def o_def)

end
