(* ===== verification/Kubectl.thy ===== *)
theory Kubectl
  imports Host_Path_Client Go_Float
begin

text \<open>
  The kubectl plugin, pkg/kubectl-plugin/: formatting of sizes (common.go), the table printer
  (display.go) and the command get (hostpathpv_get.go). Output is the string printed. The command-line
  framework around it (cobra, the client factory) is a parameter: a command gets its arguments and the
  lists the API returns.
\<close>

section \<open>common.go\<close>

definition maxint :: "int \<Rightarrow> int \<Rightarrow> int" where
  "maxint a b = (if a > b then a else b)"

text \<open>The verb \<open>%.2f\<close>: the decimal number nearest to the value, ties to even.\<close>

definition fmt_2f :: "rat \<Rightarrow> string" where
  "fmt_2f x =
     (let q = nat (rne (\<bar>x\<bar> * 100))
      in (if x < 0 then ''-'' else '''') @ show_nat (q div 100) @ ''.'' @
         [''0123456789'' ! (q mod 100 div 10), ''0123456789'' ! (q mod 10)])"

definition getPercentStr :: "int \<Rightarrow> int \<Rightarrow> string" where
  "getPercentStr used capacity =
     (if capacity \<le> 0 then ''(00.00%)''
      else ''('' @ fmt_2f (fmul (fdiv (float64 used) (float64 capacity)) 100) @ ''%)'')"

definition getNumSpace :: "int \<Rightarrow> string \<Rightarrow> string" where
  "getNumSpace num space = concat (replicate (nat num) space)"

definition convertIntToString :: "int \<Rightarrow> string" where
  "convertIntToString sz =
     (let ret =
            (if sz < 1024 then show_int sz @ '' B''
             else if sz < 1024 ^ 2 then fmt_2f (fdiv (float64 sz) 1024) @ ''KB''
             else if sz < 1024 ^ 3 then fmt_2f (fdiv (float64 sz) (1024 ^ 2)) @ ''MB''
             else if sz < 1024 ^ 4 then fmt_2f (fdiv (float64 sz) (1024 ^ 3)) @ ''GB''
             else if sz < 1024 ^ 5 then fmt_2f (fdiv (float64 sz) (1024 ^ 4)) @ ''TB''
             else fmt_2f (fdiv (float64 sz) (1024 ^ 5)) @ ''PB'')
      in if length ret < 9 then getNumSpace (9 - int (length ret)) '' '' @ ret else ret)"

section \<open>display.go\<close>

record Displayer =
  dp_titles :: "string list"
  dp_content :: "string list list"
  dp_space :: string
  dp_prefix :: string
  dp_maxColumeLen :: "int list"

definition NewDisplayer :: "string \<Rightarrow> string \<Rightarrow> string list \<Rightarrow> Displayer" where
  "NewDisplayer space prefix titles = \<lparr>dp_titles = titles, dp_content = [], dp_space = space, dp_prefix = prefix,
     dp_maxColumeLen = map (\<lambda>title. int (length title)) titles\<rparr>"

text \<open>The result \<open>False\<close> is the error: the line has another number of columns.\<close>

definition AddLine :: "string list \<Rightarrow> Displayer \<Rightarrow> bool \<times> Displayer" where
  "AddLine strs d =
     (if length strs \<noteq> length (dp_titles d) then (False, d)
      else (True, d\<lparr>dp_content := dp_content d @ [strs],
                    dp_maxColumeLen := map2 (\<lambda>content m. if int (length content) > m then int (length content) else m)
                                         strs (dp_maxColumeLen d)\<rparr>))"

definition AddCutOffLine :: "string \<Rightarrow> Displayer \<Rightarrow> Displayer" where
  "AddCutOffLine str d = snd (AddLine (map (\<lambda>title. getNumSpace (int (length title)) str) (dp_titles d)) d)"

text \<open>
  Common column widths for several tables, up to a hundred columns; when no column below the hundredth
  is missing from all tables, nothing is changed.
\<close>

definition SyncDisplayersColumeLen :: "Displayer list \<Rightarrow> Displayer list" where
  "SyncDisplayersColumeLen displayers =
     (let columeNum = (case find (\<lambda>c. \<forall>d\<in>set displayers. length (dp_maxColumeLen d) \<le> c) [0..<100] of
                         Some c \<Rightarrow> c | None \<Rightarrow> 0);
          syncMaxColumeLen = (\<lambda>c. fold (\<lambda>d m. if length (dp_maxColumeLen d) > c then maxint m (dp_maxColumeLen d ! c) else m)
                                     displayers 0)
      in map (\<lambda>d. d\<lparr>dp_maxColumeLen :=
                map (\<lambda>(c, m). if c < columeNum then syncMaxColumeLen c else m) (enumerate 0 (dp_maxColumeLen d))\<rparr>) displayers)"

text \<open>One printed line: every cell with the prefix, filled up to the width of its column.\<close>

definition print_cells :: "Displayer \<Rightarrow> string list \<Rightarrow> string" where
  "print_cells d cells =
     concat (map2 (\<lambda>cell m. dp_prefix d @ cell @ getNumSpace (m - int (length cell)) '' '' @ dp_space d)
               cells (dp_maxColumeLen d))"

definition print_lines :: "bool \<Rightarrow> Displayer \<Rightarrow> string list" where
  "print_lines needUnderLine d =
     print_cells d (dp_titles d) #
     (if needUnderLine then [concat (map (\<lambda>m. dp_prefix d @ getNumSpace m ''-'' @ dp_space d) (dp_maxColumeLen d))] else []) @
     map (print_cells d) (dp_content d)"

definition Print :: "bool \<Rightarrow> Displayer \<Rightarrow> string" where
  "Print needUnderLine d = concat (map (\<lambda>line. line @ [CHR 0x0A]) (print_lines needUnderLine d))"

section \<open>hostpathpv_get.go\<close>

definition support_type :: "string list" where
  "support_type = [''node'', ''nodes'', ''pv'', ''pvs'']"

datatype usage_error = NoResource | UnsupportedType string | TooManyArguments

definition Validate :: "string list \<Rightarrow> usage_error option" where
  "Validate args =
     (case args of
        [] \<Rightarrow> Some NoResource
      | t # _ \<Rightarrow>
          if t \<notin> set support_type then Some (UnsupportedType t)
          else if length args > 2 then Some TooManyArguments
          else None)"

text \<open>
  The options of the command without its client. \<open>Complete\<close> reads the flag \<open>filter\<close> (or its error)
  and asks the factory for a client; it indexes the arguments, so \<open>None\<close> is an index out of range.
\<close>

datatype command_error = UsageError usage_error | FlagError string | NoClientError | ApiError string

record GetOptions =
  go_resource :: string
  go_resourceName :: string
  go_filter :: bool

definition NewGetOptions :: GetOptions where
  "NewGetOptions = \<lparr>go_resource = '''', go_resourceName = '''', go_filter = False\<rparr>"

definition Complete ::
    "string + bool \<Rightarrow> bool \<Rightarrow> string list \<Rightarrow> GetOptions \<Rightarrow> (command_error option \<times> GetOptions) option" where
  "Complete flag client args go =
     (case flag of
        Inl err \<Rightarrow> Some (Some (FlagError err), go)
      | Inr b \<Rightarrow>
          (let go = go\<lparr>go_filter := b\<rparr>
           in if \<not> client then Some (Some NoClientError, go)
              else case args of
                     [] \<Rightarrow> None
                   | r # rest \<Rightarrow>
                       (let go = go\<lparr>go_resource := r\<rparr>
                        in Some (None, if length args = 2 then go\<lparr>go_resourceName := hd rest\<rparr> else go))))"

record totals =
  all_Capacity :: int
  all_Quota :: int
  all_Used :: int

text \<open>The cells of a node's line, as the code writes them.\<close>

definition node_cells :: "Node \<Rightarrow> string list" where
  "node_cells hpNode =
     (let quotaInfo = hn_diskUsage hpNode;
          quota = convertIntToString (nu_QuotaSize quotaInfo) @ getPercentStr (nu_QuotaSize quotaInfo) (nu_Capacity quotaInfo)
      in [hn_name hpNode, hn_ready hpNode,
          ''('' @ show_int (int (length (nu_DiskStatus quotaInfo)) - int (length (hn_disabledDisk hpNode))) @ ''/'' @
            show_int (int (length (nu_DiskStatus quotaInfo))) @ '')'',
          convertIntToString (nu_Capacity quotaInfo),
          quota,
          convertIntToString (nu_Used quotaInfo) @ getPercentStr (nu_Used quotaInfo) (nu_Capacity quotaInfo),
          quota,
          quota])"

fun node_table :: "json \<Rightarrow> string \<Rightarrow> bool \<Rightarrow> CoreNode list \<Rightarrow> Displayer \<times> totals \<Rightarrow> Displayer \<times> totals" where
  "node_table js nodeName flt [] acc = acc"
| "node_table js nodeName flt (node # nodes) (d, t) =
     (if nodeName \<noteq> '''' \<and> nodeName \<noteq> cn_Name node then node_table js nodeName flt nodes (d, t)
      else let hpNode = ToHostPathNode js node; quotaInfo = hn_diskUsage hpNode
           in if flt \<and> (\<not> hn_hostPathNode hpNode \<or> length (nu_DiskStatus quotaInfo) = 0)
              then node_table js nodeName flt nodes (d, t)
              else node_table js nodeName flt nodes
                     (snd (AddLine (node_cells hpNode) d),
                      \<lparr>all_Capacity = i64 (all_Capacity t + nu_Capacity quotaInfo),
                       all_Quota = i64 (all_Quota t + nu_QuotaSize quotaInfo),
                       all_Used = i64 (all_Used t + nu_Used quotaInfo)\<rparr>))"

text \<open>
  The titles and the last line. The totals of the columns Persistent and Ephemeral are sums of the same
  numbers as the quota.
\<close>

definition node_titles :: "string list" where
  "node_titles = [''Name'', ''Status'', ''DiskNum'', ''Capacity'', ''Quota'', ''Used'', ''Persistent'', ''Ephemeral'']"

definition totals_line :: "totals \<Rightarrow> string" where
  "totals_line t =
     (let quota = convertIntToString (all_Quota t) @ getPercentStr (all_Quota t) (all_Capacity t)
      in ''AllCapacity: '' @ convertIntToString (all_Capacity t) @ '', AllQuota: '' @ quota @
         '', AllUsed: '' @ convertIntToString (all_Used t) @ getPercentStr (all_Used t) (all_Capacity t) @
         '', AllPersistent: '' @ quota @ '', AllEphemeral: '' @ quota @ [CHR 0x0A, CHR 0x0A])"

definition getNodes :: "json \<Rightarrow> string \<Rightarrow> bool \<Rightarrow> string + CoreNode list \<Rightarrow> command_error + string" where
  "getNodes js nodeName flt reply =
     (case reply of
        Inl err \<Rightarrow> Inl (ApiError err)
      | Inr nodes \<Rightarrow>
          Inr (if nodes = [] then ''''
               else case node_table js nodeName flt nodes
                  (NewDisplayer ''   '' '''' node_titles, \<lparr>all_Capacity = 0, all_Quota = 0, all_Used = 0\<rparr>) of
             (d, t) \<Rightarrow> Print True d @ totals_line t))"

definition hpv_GetHardQuota :: "PersistentVolume \<Rightarrow> u64" where
  "hpv_GetHardQuota p = u64_of_i64 (hpv_capacity p)"

definition pv_cells :: "CorePV \<Rightarrow> PersistentVolume \<Rightarrow> string list" where
  "pv_cells pv hpv = [cp_Name pv, cp_Phase pv, hpv_bindNode hpv, convertIntToString (hpv_capacity hpv),
     FormatBool (hpv_ephemeral hpv), convertIntToString (i64_of_u64 (hpv_GetHardQuota hpv)),
     convertIntToString (i64_of_u64 (hpv_GetUsage hpv))]"

fun pv_table :: "json \<Rightarrow> string \<Rightarrow> CorePV list \<Rightarrow> Displayer \<Rightarrow> Displayer option" where
  "pv_table js pvName [] d = Some d"
| "pv_table js pvName (pv # pvs) d =
     (if pvName \<noteq> '''' \<and> pvName \<noteq> cp_Name pv then pv_table js pvName pvs d
      else case ToHostPathVolume js pv of
             None \<Rightarrow> None
           | Some hpv \<Rightarrow>
               if \<not> hpv_isHostPathPv hpv then pv_table js pvName pvs d
               else pv_table js pvName pvs (snd (AddLine (pv_cells pv hpv) d)))"

definition getPVs :: "json \<Rightarrow> string \<Rightarrow> string + CorePV list \<Rightarrow> (command_error + string) option" where
  "getPVs js pvName reply =
     (case reply of
        Inl err \<Rightarrow> Some (Inl (ApiError err))
      | Inr pvs \<Rightarrow>
          map_option (\<lambda>d. Inr (Print True d)) (pv_table js pvName pvs
            (NewDisplayer ''   '' '''' [''Name'', ''Status'', ''BindNode'', ''Capacity'', ''Ephemeral'', ''Quota'', ''Used''])))"

text \<open>The command: what the API server answers to the two list requests is given with the arguments.\<close>

definition GetOptions_Run ::
    "json \<Rightarrow> string + CoreNode list \<Rightarrow> string + CorePV list \<Rightarrow> GetOptions \<Rightarrow> (command_error + string) option" where
  "GetOptions_Run js nodes pvs go =
     (if go_resource go = ''nodes'' \<or> go_resource go = ''node'' then Some (getNodes js (go_resourceName go) (go_filter go) nodes)
      else if go_resource go = ''pvs'' \<or> go_resource go = ''pv'' then getPVs js (go_resourceName go) pvs
      else Some (Inr ''''))"

definition NewCmdGet ::
    "json \<Rightarrow> string + bool \<Rightarrow> bool \<Rightarrow> string + CoreNode list \<Rightarrow> string + CorePV list \<Rightarrow> string list
       \<Rightarrow> (command_error + string) option" where
  "NewCmdGet js flag client nodes pvs args =
     (case Validate args of
        Some err \<Rightarrow> Some (Inl (UsageError err))
      | None \<Rightarrow>
          (case Complete flag client args NewGetOptions of
             None \<Rightarrow> None
           | Some (Some err, _) \<Rightarrow> Some (Inl err)
           | Some (None, go) \<Rightarrow> GetOptions_Run js nodes pvs go))"

section \<open>Facts\<close>

lemma length_getNumSpace [simp]: "length (getNumSpace n [c]) = nat n"
  by (simp add: getNumSpace_def length_concat sum_list_triv)

text \<open>The widths of the columns: one per title, and no cell is wider than its column.\<close>

definition table_ok :: "Displayer \<Rightarrow> bool" where
  "table_ok d \<longleftrightarrow> length (dp_maxColumeLen d) = length (dp_titles d) \<and>
     (\<forall>cells\<in>set (dp_titles d # dp_content d). list_all2 (\<lambda>cell m. int (length cell) \<le> m) cells (dp_maxColumeLen d))"

lemma NewDisplayer_ok: "table_ok (NewDisplayer space prefix titles)"
  by (simp add: table_ok_def NewDisplayer_def list_all2_map2 list_all2_same)

lemma AddLine_ok:
  assumes "table_ok d"
  shows "table_ok (snd (AddLine strs d))"
proof (cases "length strs = length (dp_titles d)")
  case True
  let ?w = "map2 (\<lambda>content m. if int (length content) > m then int (length content) else m) strs (dp_maxColumeLen d)"
  have len: "length strs = length (dp_maxColumeLen d)" using True assms by (simp add: table_ok_def)
  have new: "list_all2 (\<lambda>cell m. int (length cell) \<le> m) strs ?w"
    using len by (auto simp: list_all2_conv_all_nth)
  have old: "list_all2 (\<lambda>cell m. int (length cell) \<le> m) cells ?w"
    if "list_all2 (\<lambda>cell m. int (length cell) \<le> m) cells (dp_maxColumeLen d)" for cells
    using that len by (force simp: list_all2_conv_all_nth)
  show ?thesis using assms True new old len by (auto simp: table_ok_def AddLine_def)
qed (use assms in \<open>simp add: AddLine_def\<close>)

lemma AddCutOffLine_ok: "table_ok d \<Longrightarrow> table_ok (AddCutOffLine str d)"
  by (simp add: AddCutOffLine_def AddLine_ok)

definition table_width :: "Displayer \<Rightarrow> nat" where
  "table_width d = (\<Sum>m\<leftarrow>dp_maxColumeLen d. length (dp_prefix d) + nat m + length (dp_space d))"

lemma print_cells_width:
  assumes "list_all2 (\<lambda>cell m. int (length cell) \<le> m) cells (dp_maxColumeLen d)"
  shows "length (print_cells d cells) = table_width d"
proof -
  have "length (concat (map2 (\<lambda>cell m. p @ cell @ getNumSpace (m - int (length cell)) '' '' @ s) cells ms)) =
      (\<Sum>m\<leftarrow>ms. length p + nat m + length s)"
    if "list_all2 (\<lambda>cell m. int (length cell) \<le> m) cells ms" for p s ms
    using that by (induction rule: list_all2_induct) (auto simp: nat_diff_distrib')
  from this [OF assms] show ?thesis by (simp add: print_cells_def table_width_def)
qed

lemma print_line_width:
  assumes "table_ok d" "line \<in> set (print_lines ul d)"
  shows "length line = table_width d"
proof -
  have "length (concat (map (\<lambda>m. p @ getNumSpace m ''-'' @ s) ms)) = (\<Sum>m\<leftarrow>ms. length p + nat m + length s)" for p s ms
    by (induction ms) simp_all
  then have rule: "length (concat (map (\<lambda>m. dp_prefix d @ getNumSpace m ''-'' @ dp_space d) (dp_maxColumeLen d))) = table_width d"
    by (simp add: table_width_def)
  show ?thesis
    using assms rule print_cells_width [of _ d] by (auto simp: print_lines_def table_ok_def split: if_splits)
qed

lemma node_table_ok: "table_ok (fst acc) \<Longrightarrow> table_ok (fst (node_table js name flt nodes acc))"
  by (induction js name flt nodes acc rule: node_table.induct) (auto simp: AddLine_ok Let_def)

lemma pv_table_ok: "pv_table js name pvs d = Some d' \<Longrightarrow> table_ok d \<Longrightarrow> table_ok d'"
  by (induction js name pvs d rule: pv_table.induct) (auto simp: AddLine_ok split: if_splits option.splits)

text \<open>Every line of the two tables has all its columns, so no line is lost.\<close>

lemma table_titles:
  "dp_titles (snd (AddLine strs d)) = dp_titles d"
  "length strs = length (dp_titles d) \<Longrightarrow> dp_content (snd (AddLine strs d)) = dp_content d @ [strs]"
  by (simp_all add: AddLine_def)

lemma node_table_content:
  "length (dp_titles (fst acc)) = 8 \<Longrightarrow>
   dp_content (fst (node_table js name flt nodes acc)) = dp_content (fst acc) @
     map (\<lambda>n. node_cells (ToHostPathNode js n))
       (filter (\<lambda>n. (name = '''' \<or> name = cn_Name n) \<and>
          (\<not> flt \<or> IsHostPathNode n \<and> nu_DiskStatus (hn_diskUsage (ToHostPathNode js n)) \<noteq> [])) nodes)"
proof (induction js name flt nodes acc rule: node_table.induct)
  case (2 js name flt node nodes d t)
  have h: "hn_hostPathNode (ToHostPathNode js n) = IsHostPathNode n" for n
    by (simp add: ToHostPathNode_def Let_def split: option.split)
  have c: "length (node_cells hp) = 8" for hp by (simp add: node_cells_def Let_def)
  show ?case using 2 by (auto simp: Let_def h c table_titles)
qed simp

section \<open>Properties\<close>

text \<open>The nodes the command lists: the named one or all, with \<open>--filter\<close> only hostpath nodes with a disk.\<close>

definition listed_nodes :: "json \<Rightarrow> string \<Rightarrow> bool \<Rightarrow> CoreNode list \<Rightarrow> Node list" where
  "listed_nodes js name flt nodes = map (ToHostPathNode js)
     (filter (\<lambda>n. (name = '''' \<or> name = cn_Name n) \<and>
        (\<not> flt \<or> IsHostPathNode n \<and> nu_DiskStatus (hn_diskUsage (ToHostPathNode js n)) \<noteq> [])) nodes)"

lemma node_table_titles: "dp_titles (fst (node_table js name flt nodes acc)) = dp_titles (fst acc)"
  by (induction js name flt nodes acc rule: node_table.induct) (auto simp: Let_def AddLine_def)

lemma node_table_totals:
  fixes t :: totals
  defines "sum_of f \<equiv> \<lambda>hs. sum_list (map (\<lambda>h. f (hn_diskUsage h)) hs)"
  shows "all_Capacity (snd (node_table js name flt nodes (d, t))) =
      (if listed_nodes js name flt nodes = [] then all_Capacity t else i64 (all_Capacity t + sum_of nu_Capacity (listed_nodes js name flt nodes)))"
    "all_Quota (snd (node_table js name flt nodes (d, t))) =
      (if listed_nodes js name flt nodes = [] then all_Quota t else i64 (all_Quota t + sum_of nu_QuotaSize (listed_nodes js name flt nodes)))"
    "all_Used (snd (node_table js name flt nodes (d, t))) =
      (if listed_nodes js name flt nodes = [] then all_Used t else i64 (all_Used t + sum_of nu_Used (listed_nodes js name flt nodes)))"
proof -
  have h: "hn_hostPathNode (ToHostPathNode js n) = IsHostPathNode n" for n
    by (simp add: ToHostPathNode_def Let_def split: option.split)
  have "\<forall>d t. all_Capacity (snd (node_table js name flt nodes (d, t))) =
      (if listed_nodes js name flt nodes = [] then all_Capacity t else i64 (all_Capacity t + sum_of nu_Capacity (listed_nodes js name flt nodes))) \<and>
    all_Quota (snd (node_table js name flt nodes (d, t))) =
      (if listed_nodes js name flt nodes = [] then all_Quota t else i64 (all_Quota t + sum_of nu_QuotaSize (listed_nodes js name flt nodes))) \<and>
    all_Used (snd (node_table js name flt nodes (d, t))) =
      (if listed_nodes js name flt nodes = [] then all_Used t else i64 (all_Used t + sum_of nu_Used (listed_nodes js name flt nodes)))"
    by (induction nodes) (auto simp: listed_nodes_def sum_of_def Let_def h i64_add algebra_simps)
  then show "all_Capacity (snd (node_table js name flt nodes (d, t))) =
      (if listed_nodes js name flt nodes = [] then all_Capacity t else i64 (all_Capacity t + sum_of nu_Capacity (listed_nodes js name flt nodes)))"
    "all_Quota (snd (node_table js name flt nodes (d, t))) =
      (if listed_nodes js name flt nodes = [] then all_Quota t else i64 (all_Quota t + sum_of nu_QuotaSize (listed_nodes js name flt nodes)))"
    "all_Used (snd (node_table js name flt nodes (d, t))) =
      (if listed_nodes js name flt nodes = [] then all_Used t else i64 (all_Used t + sum_of nu_Used (listed_nodes js name flt nodes)))"
    by blast+
qed

text \<open>The tables line up: all lines, the titles and the rule included, have the same length.\<close>

lemma tables_aligned:
  assumes "d = fst (node_table js name flt nodes (NewDisplayer space prefix titles, t)) \<or>
      pv_table js name pvs (NewDisplayer space prefix titles) = Some d"
  shows "length ` set (print_lines True d) = {table_width d}"
proof -
  have "table_ok d"
    using assms(1) node_table_ok [of "(NewDisplayer space prefix titles, t)"] pv_table_ok NewDisplayer_ok by fastforce
  then have "length ` set (print_lines True d) \<subseteq> {table_width d}" using print_line_width by auto
  then show ?thesis by (auto simp: print_lines_def)
qed

text \<open>
  C39. What \<open>kubectl hostpathpv get nodes\<close> prints. Nothing when the cluster has no node; otherwise a table
  with the eight titles and exactly one line for each node it is to list (the named one or all, with the
  filter only hostpath nodes that publish a disk), in the order of the API server, and below it the sums of
  capacity, quota and use over these nodes, as \<open>int64\<close>. All lines of the table, the titles and the rule
  included, have the same length, whatever is in the cells. An error of the API server is passed on.
\<close>

theorem get_nodes_prints:
  "getNodes js name flt (Inl err) = Inl (ApiError err) \<and>
   (\<exists>d w. getNodes js name flt (Inr nodes) = Inr (if nodes = [] then '''' else Print True d @ totals_line
        \<lparr>all_Capacity = i64 (\<Sum>h\<leftarrow>listed_nodes js name flt nodes. nu_Capacity (hn_diskUsage h)),
         all_Quota = i64 (\<Sum>h\<leftarrow>listed_nodes js name flt nodes. nu_QuotaSize (hn_diskUsage h)),
         all_Used = i64 (\<Sum>h\<leftarrow>listed_nodes js name flt nodes. nu_Used (hn_diskUsage h))\<rparr>) \<and>
      dp_titles d = node_titles \<and> dp_content d = map node_cells (listed_nodes js name flt nodes) \<and>
      length ` set (print_lines True d) = {w})"
proof -
  let ?a = "(NewDisplayer ''   '' '''' node_titles, \<lparr>all_Capacity = 0, all_Quota = 0, all_Used = 0\<rparr>)"
  let ?r = "node_table js name flt nodes ?a" and ?l = "listed_nodes js name flt nodes"
  have "snd ?r = \<lparr>all_Capacity = i64 (\<Sum>h\<leftarrow>?l. nu_Capacity (hn_diskUsage h)),
      all_Quota = i64 (\<Sum>h\<leftarrow>?l. nu_QuotaSize (hn_diskUsage h)), all_Used = i64 (\<Sum>h\<leftarrow>?l. nu_Used (hn_diskUsage h))\<rparr>"
    by (rule totals.equality) (simp_all add: node_table_totals)
  moreover have "dp_content (fst ?r) = map node_cells ?l"
    using node_table_content [of ?a js name flt nodes] by (simp add: NewDisplayer_def node_titles_def listed_nodes_def)
  moreover have "dp_titles (fst ?r) = node_titles" by (simp add: node_table_titles NewDisplayer_def)
  moreover have "length ` set (print_lines True (fst ?r)) = {table_width (fst ?r)}" by (rule tables_aligned) blast
  ultimately show ?thesis
    by (intro conjI exI [of _ "fst ?r"] exI [of _ "table_width (fst ?r)"]) (simp_all add: getNodes_def split_beta)
qed

text \<open>The columns Persistent and Ephemeral of the node table both repeat the column Quota.\<close>

lemma node_columns_repeat_quota:
  assumes "line \<in> set (dp_content (fst (node_table js name flt nodes
      (NewDisplayer '''' '''' node_titles, t))))"
  shows "line ! 6 = line ! 4 \<and> line ! 7 = line ! 4"
  using assms node_table_content [of "(NewDisplayer '''' '''' node_titles, t)"]
  by (auto simp: NewDisplayer_def node_titles_def node_cells_def Let_def)

text \<open>The arguments the command accepts: \<open>Complete\<close> never runs out of them, and listing nodes never crashes.\<close>

lemma Validate_Complete:
  assumes "Validate args = None"
  shows "Complete (Inr flt) True args NewGetOptions =
     Some (None, \<lparr>go_resource = hd args, go_resourceName = (if length args = 2 then args ! 1 else ''''), go_filter = flt\<rparr>)"
  using assms by (cases args; cases "tl args")
    (auto simp: Validate_def Complete_def NewGetOptions_def Let_def split: if_splits)

lemma get_nodes_total:
  assumes "\<And>rest. args \<noteq> ''pv'' # rest \<and> args \<noteq> ''pvs'' # rest"
  shows "NewCmdGet js flag client nodes pvs args \<noteq> None"
proof (cases args)
  case (Cons t rest)
  then have "t \<noteq> ''pv'' \<and> t \<noteq> ''pvs''" using assms by blast
  then show ?thesis using Cons
    by (auto simp: NewCmdGet_def Complete_def GetOptions_Run_def Let_def split: sum.split option.split)
qed (simp add: NewCmdGet_def Validate_def)

text \<open>
  The command lists no volumes at all once the cluster has a volume that is not claimed, or
  that is not a CSI volume: the conversion dereferences the missing claim or source, and neither
  \<open>kubectl hostpathpv get pv\<close> nor \<open>get pvs\<close> prints anything.
\<close>

lemma get_pvs_panics:
  assumes "pv \<in> set pvs" "cp_ClaimRef pv = None \<or> cp_CSI pv = None"
  shows "getPVs js '''' (Inr pvs) = None \<and>
     NewCmdGet js (Inr flt) True nodes (Inr pvs) [''pv''] = None \<and> NewCmdGet js (Inr flt) True nodes (Inr pvs) [''pvs''] = None"
proof -
  have "ToHostPathVolume js pv = None"
    using assms(2) by (auto simp: ToHostPathVolume_def split: option.split)
  then have "pv_table js '''' pvs d = None" for d
    using assms(1) by (induction pvs arbitrary: d) (auto split: option.split)
  then have g: "getPVs js '''' (Inr pvs) = None" by (simp add: getPVs_def)
  have "Validate [''pv''] = None" "Validate [''pvs''] = None" by (simp_all add: Validate_def support_type_def)
  then show ?thesis using g by (simp add: NewCmdGet_def Validate_Complete GetOptions_Run_def)
qed

end
