(* ===== verification/Logging.thy ===== *)
theory Logging
  imports Csi_Common "HOL-Library.Sublist"
begin

text \<open>
  Logging and the gRPC interceptors. pkg/util/log.go: the levels and the wrappers around klog, over
  the part of \<open>fmt.Sprintf\<close> they use and over the lines klog writes. csi-common/utils.go and
  server.go: the chain of interceptors every request goes through, which logs it and turns a panic
  of its handler into an error.
\<close>

section \<open>Formatting\<close>

text \<open>
  A value to be printed: the name of its type, and what \<open>printArg\<close> writes for it under given flags
  and a given verb (\<open>%!d(string=x)\<close> and the like included, for a verb that does not fit).
\<close>

record arg =
  arg_type :: string
  arg_print :: "string \<Rightarrow> char \<Rightarrow> string"

definition go_string :: "string \<Rightarrow> arg" where
  "go_string x =
     \<lparr>arg_type = ''string'',
      arg_print = (\<lambda>flags verb. if verb \<in> set ''sv'' then x else ''%!'' @ [verb] @ ''(string='' @ x @ '')'')\<rparr>"

definition is_flag :: "char \<Rightarrow> bool" where
  "is_flag c \<longleftrightarrow> c \<in> set ''#0+- ''"

text \<open>What is left of the arguments at the end of the format.\<close>

definition extra_args :: "arg list \<Rightarrow> string" where
  "extra_args args =
     (if args = [] then ''''
      else ''%!(EXTRA '' @
        concat (map (\<lambda>(i, a). (if i = 0 then '''' else '', '') @ arg_type a @ ''='' @ arg_print a '''' (CHR ''v''))
          (enumerate 0 args)) @ '')'')"

text \<open>
  \<open>fmt.Sprintf\<close>. A directive is a percent sign, flags and a verb; the result is undetermined (\<open>None\<close>)
  for a format with a width, a precision, an argument index or a verb outside ASCII, none of which
  the formats of the program have.
\<close>

definition plain_verb :: "char \<Rightarrow> bool" where
  "plain_verb c \<longleftrightarrow> c \<notin> set ''123456789.[*'' \<and> (of_char c :: nat) < 128"

function Sprintf :: "string \<Rightarrow> arg list \<Rightarrow> string option" where
  "Sprintf [] args = Some (extra_args args)"
| "Sprintf (c # cs) args =
     (if c \<noteq> CHR ''%'' then map_option (Cons c) (Sprintf cs args)
      else case dropWhile is_flag cs of
             [] \<Rightarrow> Some (''%!(NOVERB)'' @ extra_args args)
           | verb # rest \<Rightarrow>
               if verb = CHR ''%'' then map_option (Cons (CHR ''%'')) (Sprintf rest args)
               else if \<not> plain_verb verb then None
               else case args of
                      [] \<Rightarrow> map_option ((@) (''%!'' @ [verb] @ ''(MISSING)'')) (Sprintf rest [])
                    | a # args \<Rightarrow> map_option ((@) (arg_print a (takeWhile is_flag cs) verb)) (Sprintf rest args))"
  by pat_completeness auto

lemma rest_shorter: "dropWhile P cs = verb # rest \<Longrightarrow> length rest < Suc (length cs)"
  using length_dropWhile_le [of P cs] by simp

termination Sprintf
  by (relation "measure (length \<circ> fst)") (auto dest: rest_shorter)

declare Sprintf.simps [simp del]

section \<open>klog\<close>

text \<open>
  klog: the verbosity flag \<open>-v\<close>, the lines written so far, each with its severity and its text (after
  the header), and the exit status of the process once a fatal line has ended it. The flag
  \<open>-vmodule\<close> is not set.
\<close>

datatype severity = InfoSev | WarningSev | ErrorSev | FatalSev

record klog =
  klog_verbosity :: int
  klog_lines :: "(severity \<times> string option) list"
  klog_exit :: "nat option"

definition klog_V :: "int \<Rightarrow> klog \<Rightarrow> bool" where
  "klog_V level k \<longleftrightarrow> level \<le> klog_verbosity k"

definition end_line :: "string \<Rightarrow> string" where
  "end_line m = (if m \<noteq> [] \<and> last m = CHR 0x0A then m else m @ [CHR 0x0A])"

definition klog_print :: "severity \<Rightarrow> string option \<Rightarrow> klog \<Rightarrow> klog" where
  "klog_print sev m k =
     k\<lparr>klog_lines := klog_lines k @ [(sev, map_option end_line m)],
       klog_exit := (if sev = FatalSev then Some 255 else klog_exit k)\<rparr>"

section \<open>The wrappers of log.go\<close>

definition Default :: int where "Default = 1"
definition Useful :: int where "Useful = 2"
definition Extended :: int where "Extended = 3"
definition Debug :: int where "Debug = 4"
definition Trace :: int where "Trace = 5"

definition FatalLogMsg :: "string \<Rightarrow> arg list \<Rightarrow> klog \<Rightarrow> klog" where
  "FatalLogMsg message args = klog_print FatalSev (Sprintf message args)"

definition ErrorLogMsg :: "string \<Rightarrow> arg list \<Rightarrow> klog \<Rightarrow> klog" where
  "ErrorLogMsg message args = klog_print ErrorSev (Sprintf message args)"

definition ErrorLog :: "Context \<Rightarrow> string \<Rightarrow> arg list \<Rightarrow> klog \<Rightarrow> klog" where
  "ErrorLog ctx message args = klog_print ErrorSev (Sprintf (Log ctx message) args)"

definition WarningLogMsg :: "string \<Rightarrow> arg list \<Rightarrow> klog \<Rightarrow> klog" where
  "WarningLogMsg message args = klog_print WarningSev (Sprintf message args)"

definition WarningLog :: "Context \<Rightarrow> string \<Rightarrow> arg list \<Rightarrow> klog \<Rightarrow> klog" where
  "WarningLog ctx message args = klog_print WarningSev (Sprintf (Log ctx message) args)"

definition DefaultLog :: "string \<Rightarrow> arg list \<Rightarrow> klog \<Rightarrow> klog" where
  "DefaultLog message args k =
     (let logMessage = Sprintf message args
      in if klog_V Default k then klog_print InfoSev logMessage k else k)"

definition UsefulLog :: "Context \<Rightarrow> string \<Rightarrow> arg list \<Rightarrow> klog \<Rightarrow> klog" where
  "UsefulLog ctx message args k =
     (let logMessage = Sprintf (Log ctx message) args
      in if klog_V Useful k then klog_print InfoSev logMessage k else k)"

definition ExtendedLogMsg :: "string \<Rightarrow> arg list \<Rightarrow> klog \<Rightarrow> klog" where
  "ExtendedLogMsg message args k =
     (let logMessage = Sprintf message args
      in if klog_V Extended k then klog_print InfoSev logMessage k else k)"

definition ExtendedLog :: "Context \<Rightarrow> string \<Rightarrow> arg list \<Rightarrow> klog \<Rightarrow> klog" where
  "ExtendedLog ctx message args k =
     (let logMessage = Sprintf (Log ctx message) args
      in if klog_V Extended k then klog_print InfoSev logMessage k else k)"

text \<open>The message is written twice: by \<open>Infof\<close>, and again under the test that follows.\<close>

definition DebugLogMsg :: "string \<Rightarrow> arg list \<Rightarrow> klog \<Rightarrow> klog" where
  "DebugLogMsg message args k =
     (let logMessage = Sprintf message args;
          k = (if klog_V Debug k then klog_print InfoSev (Sprintf message args) k else k)
      in if klog_V Debug k then klog_print InfoSev logMessage k else k)"

definition DebugLog :: "Context \<Rightarrow> string \<Rightarrow> arg list \<Rightarrow> klog \<Rightarrow> klog" where
  "DebugLog ctx message args k =
     (let logMessage = Sprintf (Log ctx message) args
      in if klog_V Debug k then klog_print InfoSev logMessage k else k)"

definition TraceLogMsg :: "string \<Rightarrow> arg list \<Rightarrow> klog \<Rightarrow> klog" where
  "TraceLogMsg message args k =
     (let logMessage = Sprintf message args
      in if klog_V Trace k then klog_print InfoSev logMessage k else k)"

definition TraceLog :: "Context \<Rightarrow> string \<Rightarrow> arg list \<Rightarrow> klog \<Rightarrow> klog" where
  "TraceLog ctx message args k =
     (let logMessage = Sprintf (Log ctx message) args
      in if klog_V Trace k then klog_print InfoSev logMessage k else k)"

lemmas log_defs =
  FatalLogMsg_def ErrorLogMsg_def ErrorLog_def WarningLogMsg_def WarningLog_def DefaultLog_def
  UsefulLog_def ExtendedLogMsg_def ExtendedLog_def DebugLogMsg_def DebugLog_def TraceLogMsg_def TraceLog_def

section \<open>Sequences of log calls\<close>

text \<open>
  What the wrappers have in common: a call leaves the verbosity alone, appends lines that depend on
  the verbosity only, and may end the process; more verbosity adds lines, and none that report a
  problem.
\<close>

definition alarm :: "severity \<times> string option \<Rightarrow> bool" where
  "alarm line \<longleftrightarrow> fst line \<noteq> InfoSev"

fun log_run :: "('c \<Rightarrow> klog \<Rightarrow> klog) \<Rightarrow> 'c list \<Rightarrow> klog \<Rightarrow> klog" where
  "log_run perform [] k = k"
| "log_run perform (c # cs) k =
     (let k = perform c k in if klog_exit k = None then log_run perform cs k else k)"

locale log_calls =
  fixes perform :: "'c \<Rightarrow> klog \<Rightarrow> klog"
    and emits :: "'c \<Rightarrow> int \<Rightarrow> (severity \<times> string option) list"
    and fatal :: "'c \<Rightarrow> bool"
  assumes keeps_verbosity: "klog_verbosity (perform c k) = klog_verbosity k"
    and appends: "klog_lines (perform c k) = klog_lines k @ emits c (klog_verbosity k)"
    and ends: "klog_exit (perform c k) = (if fatal c then Some 255 else klog_exit k)"
    and more_verbose: "v \<le> v' \<Longrightarrow> subseq (emits c v) (emits c v')"
    and same_alarms: "filter alarm (emits c v) = filter alarm (emits c v')"
begin

fun performed :: "'c list \<Rightarrow> 'c list" where
  "performed [] = []"
| "performed (c # cs) = c # (if fatal c then [] else performed cs)"

lemma run_lines:
  "klog_exit k = None \<Longrightarrow>
   klog_lines (log_run perform cs k) = klog_lines k @ concat (map (\<lambda>c. emits c (klog_verbosity k)) (performed cs)) \<and>
   klog_exit (log_run perform cs k) = (if \<exists>c\<in>set cs. fatal c then Some 255 else None)"
proof (induction cs arbitrary: k)
  case (Cons c cs)
  then show ?case
    by (cases "fatal c") (simp_all add: Let_def ends appends keeps_verbosity)
qed simp

lemma concat_subseq:
  "v \<le> v' \<Longrightarrow> subseq (concat (map (\<lambda>c. emits c v) cs)) (concat (map (\<lambda>c. emits c v') cs))"
  by (induction cs) (simp_all add: list_emb_append_mono more_verbose)

lemma concat_alarms:
  "filter alarm (concat (map (\<lambda>c. emits c v) cs)) = filter alarm (concat (map (\<lambda>c. emits c v') cs))"
  using same_alarms by (induction cs) simp_all

lemma run_more_verbose:
  assumes "klog_exit k = None" "klog_verbosity k \<le> v'"
  shows "subseq (klog_lines (log_run perform cs k)) (klog_lines (log_run perform cs (k\<lparr>klog_verbosity := v'\<rparr>))) \<and>
         filter alarm (klog_lines (log_run perform cs k)) =
           filter alarm (klog_lines (log_run perform cs (k\<lparr>klog_verbosity := v'\<rparr>))) \<and>
         klog_exit (log_run perform cs k) = klog_exit (log_run perform cs (k\<lparr>klog_verbosity := v'\<rparr>))"
  using assms concat_subseq concat_alarms [of "klog_verbosity k" _ v']
  by (simp add: run_lines list_emb_append_mono)

end

datatype log_call =
    FatalMsg string "arg list" | ErrorMsg string "arg list" | ErrorCtx Context string "arg list"
  | WarningMsg string "arg list" | WarningCtx Context string "arg list" | DefaultMsg string "arg list"
  | UsefulCtx Context string "arg list" | ExtendedMsg string "arg list" | ExtendedCtx Context string "arg list"
  | DebugMsg string "arg list" | DebugCtx Context string "arg list" | TraceMsg string "arg list"
  | TraceCtx Context string "arg list"

fun perform :: "log_call \<Rightarrow> klog \<Rightarrow> klog" where
  "perform (FatalMsg m args) = FatalLogMsg m args"
| "perform (ErrorMsg m args) = ErrorLogMsg m args"
| "perform (ErrorCtx ctx m args) = ErrorLog ctx m args"
| "perform (WarningMsg m args) = WarningLogMsg m args"
| "perform (WarningCtx ctx m args) = WarningLog ctx m args"
| "perform (DefaultMsg m args) = DefaultLog m args"
| "perform (UsefulCtx ctx m args) = UsefulLog ctx m args"
| "perform (ExtendedMsg m args) = ExtendedLogMsg m args"
| "perform (ExtendedCtx ctx m args) = ExtendedLog ctx m args"
| "perform (DebugMsg m args) = DebugLogMsg m args"
| "perform (DebugCtx ctx m args) = DebugLog ctx m args"
| "perform (TraceMsg m args) = TraceLogMsg m args"
| "perform (TraceCtx ctx m args) = TraceLog ctx m args"

definition line_of :: "severity \<Rightarrow> string option \<Rightarrow> severity \<times> string option" where
  "line_of sev m = (sev, map_option end_line m)"

fun emits :: "log_call \<Rightarrow> int \<Rightarrow> (severity \<times> string option) list" where
  "emits (FatalMsg m args) v = [line_of FatalSev (Sprintf m args)]"
| "emits (ErrorMsg m args) v = [line_of ErrorSev (Sprintf m args)]"
| "emits (ErrorCtx ctx m args) v = [line_of ErrorSev (Sprintf (Log ctx m) args)]"
| "emits (WarningMsg m args) v = [line_of WarningSev (Sprintf m args)]"
| "emits (WarningCtx ctx m args) v = [line_of WarningSev (Sprintf (Log ctx m) args)]"
| "emits (DefaultMsg m args) v = (if 1 \<le> v then [line_of InfoSev (Sprintf m args)] else [])"
| "emits (UsefulCtx ctx m args) v = (if 2 \<le> v then [line_of InfoSev (Sprintf (Log ctx m) args)] else [])"
| "emits (ExtendedMsg m args) v = (if 3 \<le> v then [line_of InfoSev (Sprintf m args)] else [])"
| "emits (ExtendedCtx ctx m args) v = (if 3 \<le> v then [line_of InfoSev (Sprintf (Log ctx m) args)] else [])"
| "emits (DebugMsg m args) v = (if 4 \<le> v then replicate 2 (line_of InfoSev (Sprintf m args)) else [])"
| "emits (DebugCtx ctx m args) v = (if 4 \<le> v then [line_of InfoSev (Sprintf (Log ctx m) args)] else [])"
| "emits (TraceMsg m args) v = (if 5 \<le> v then [line_of InfoSev (Sprintf m args)] else [])"
| "emits (TraceCtx ctx m args) v = (if 5 \<le> v then [line_of InfoSev (Sprintf (Log ctx m) args)] else [])"

fun is_fatal :: "log_call \<Rightarrow> bool" where
  "is_fatal (FatalMsg m args) \<longleftrightarrow> True"
| "is_fatal _ \<longleftrightarrow> False"

lemmas level_defs = Default_def Useful_def Extended_def Debug_def Trace_def

interpretation lc: log_calls perform emits is_fatal
proof
  fix c :: log_call and k :: klog and v v' :: int
  show "klog_verbosity (perform c k) = klog_verbosity k"
    by (cases c) (simp_all add: log_defs klog_print_def Let_def)
  show "klog_lines (perform c k) = klog_lines k @ emits c (klog_verbosity k)"
    by (cases c) (simp_all add: log_defs level_defs klog_V_def klog_print_def line_of_def Let_def numeral_2_eq_2)
  show "klog_exit (perform c k) = (if is_fatal c then Some 255 else klog_exit k)"
    by (cases c) (simp_all add: log_defs klog_print_def Let_def)
  show "subseq (emits c v) (emits c v')" if "v \<le> v'"
    using that by (cases c) simp_all
  show "filter alarm (emits c v) = filter alarm (emits c v')"
    by (cases c) (simp_all add: alarm_def line_of_def)
qed

section \<open>The context prefix\<close>

lemma Sprintf_prefix: "CHR ''%'' \<notin> set p \<Longrightarrow> Sprintf (p @ f) args = map_option ((@) p) (Sprintf f args)"
proof (induction p)
  case (Cons c p)
  then have "c \<noteq> CHR ''%''" by auto
  then show ?case using Cons by (cases "Sprintf f args") (auto simp: Sprintf.simps)
qed (cases "Sprintf f args", simp_all)

lemma show_nat_digits: "set (show_nat n) \<subseteq> set ''0123456789''"
proof (induction n rule: show_nat.induct)
  case (1 n)
  define S where "S = set ''0123456789''"
  have d: "''0123456789'' ! (m mod 10) \<in> S" for m :: nat
    unfolding S_def by (rule nth_mem) simp
  have "set (show_nat n) \<subseteq> S"
  proof (cases "n < 10")
    case True
    then show ?thesis using d [of n] by (simp add: show_nat.simps)
  next
    case False
    then have "set (show_nat (n div 10)) \<subseteq> S" unfolding S_def by (rule 1)
    then show ?thesis using False d [of n] by (subst show_nat.simps) simp
  qed
  then show ?case by (simp only: S_def)
qed

definition log_prefix :: "Context \<Rightarrow> string" where
  "log_prefix ctx = Log ctx ''''"

lemma Log_prefix: "Log ctx f = log_prefix ctx @ f"
  by (simp add: log_prefix_def Log_def Let_def split: option.split)

lemma prefix_percent:
  assumes "\<And>r. ctx_ReqID ctx = Some r \<Longrightarrow> CHR ''%'' \<notin> set r"
  shows "CHR ''%'' \<notin> set (log_prefix ctx)"
proof -
  have "CHR ''%'' \<notin> set (show_nat n)" for n using show_nat_digits [of n] by auto
  then show ?thesis using assms by (auto simp: log_prefix_def Log_def Let_def split: option.split)
qed

text \<open>
  The prefix is put into the format, not into the formatted text: a percent sign in a volume name is
  read as a directive, which takes the argument of the message away.
\<close>

lemma request_id_is_a_format:
  "Sprintf (Log \<lparr>ctx_ID = Some 7, ctx_ReqID = Some ''a%sb''\<rparr> ''failed: %v'') [go_string ''no space''] =
     Some ''ID: 7 Req-ID: ano spaceb failed: %!v(MISSING)''"
  by code_simp

text \<open>A debug message without a context appears twice in the log.\<close>

lemma debug_message_twice:
  assumes "klog_verbosity k \<ge> 4"
  shows "klog_lines (DebugLogMsg m args k) = klog_lines k @ replicate 2 (line_of InfoSev (Sprintf m args))"
  using assms lc.appends [of "DebugMsg m args" k] by simp

section \<open>Interceptors\<close>

text \<open>
  The state a request runs in: the request counter of utils.go, klog, and the state of the servers.
  An interceptor is given the handler it wraps.
\<close>

record 's server =
  sv_id :: u64
  sv_log :: klog
  sv_state :: 's

type_synonym ('e, 'r, 's) handler = "Context \<Rightarrow> csi_request \<Rightarrow> 's server \<Rightarrow> ('e status + 'r) outcome \<times> 's server"
type_synonym ('e, 'r, 's) interceptor = "string \<Rightarrow> ('e, 'r, 's) handler \<Rightarrow> ('e, 'r, 's) handler"

definition on_log :: "(klog \<Rightarrow> klog) \<Rightarrow> 's server \<Rightarrow> 's server" where
  "on_log f s = s\<lparr>sv_log := f (sv_log s)\<rparr>"

definition contextIDInjector_chain :: "('e, 'r, 's) interceptor" where
  "contextIDInjector_chain fullMethod handler ctx req s =
     (let s = s\<lparr>sv_id := injector_count (sv_id s)\<rparr> in handler (contextIDInjector (sv_id s) ctx req) req s)"

text \<open>
  \<open>show_req\<close>, \<open>show_resp\<close> and \<open>show_err\<close> are the printed forms of a message without its secrets
  (\<open>protosanitizer\<close>) and of an error. \<open>klog.Errorf\<close> is \<open>klog_print\<close> of the formatted text.
\<close>

definition logGRPC ::
    "(csi_request \<Rightarrow> arg) \<Rightarrow> ('r \<Rightarrow> arg) \<Rightarrow> ('e status \<Rightarrow> arg) \<Rightarrow> ('e, 'r, 's) interceptor" where
  "logGRPC show_req show_resp show_err fullMethod handler ctx req s =
     (let s = on_log (ExtendedLog ctx ''GRPC call: %s'' [go_string fullMethod]) s;
          s = on_log (TraceLog ctx ''GRPC request: %s'' [show_req req]) s
      in case handler ctx req s of
           (Panics v, s) \<Rightarrow> (Panics v, s)
         | (Replies (Inl err), s) \<Rightarrow>
             (Replies (Inl err), on_log (klog_print ErrorSev (Sprintf (Log ctx ''GRPC error: %v'') [show_err err])) s)
         | (Replies (Inr resp), s) \<Rightarrow>
             (Replies (Inr resp), on_log (TraceLog ctx ''GRPC response: %s'' [show_resp resp]) s))"

text \<open>The deferred function prints the value of the panic and makes an error of it.\<close>

definition panicHandler_chain :: "('e, 'r, 's) interceptor" where
  "panicHandler_chain fullMethod handler ctx req s =
     (case handler ctx req s of
        (Panics v, s) \<Rightarrow>
          (Replies (panicHandler (Panics v)), on_log (klog_print ErrorSev (Sprintf ''panic occurred: %v'' [go_string v])) s)
      | (Replies r, s) \<Rightarrow> (Replies (panicHandler (Replies r)), s))"

text \<open>\<open>ChainUnaryServer\<close>: the first interceptor is the outermost. The Prometheus interceptor is a parameter.\<close>

definition middleWare ::
    "(csi_request \<Rightarrow> arg) \<Rightarrow> ('r \<Rightarrow> arg) \<Rightarrow> ('e status \<Rightarrow> arg) \<Rightarrow> ('e, 'r, 's) interceptor \<Rightarrow> bool
       \<Rightarrow> ('e, 'r, 's) interceptor list" where
  "middleWare show_req show_resp show_err prometheus metrics =
     [contextIDInjector_chain, logGRPC show_req show_resp show_err, panicHandler_chain] @
     (if metrics then [prometheus] else [])"

definition ChainUnaryServer :: "('e, 'r, 's) interceptor list \<Rightarrow> ('e, 'r, 's) interceptor" where
  "ChainUnaryServer interceptors fullMethod handler = foldr (\<lambda>i. i fullMethod) interceptors handler"

section \<open>Properties\<close>

text \<open>
  The verbosity only chooses among informative lines: for every sequence of log calls, what is
  written at a lower verbosity is a subsequence of what is written at a higher one, the warnings,
  errors and fatal lines are the same, and the process ends (with status 255, at the first fatal
  message) at the one exactly when it ends at the other.
\<close>

lemma verbosity_adds_info_only:
  assumes "klog_exit k = None" "klog_verbosity k \<le> v'"
  shows "subseq (klog_lines (log_run perform cs k)) (klog_lines (log_run perform cs (k\<lparr>klog_verbosity := v'\<rparr>))) \<and>
         filter alarm (klog_lines (log_run perform cs k)) =
           filter alarm (klog_lines (log_run perform cs (k\<lparr>klog_verbosity := v'\<rparr>))) \<and>
         klog_exit (log_run perform cs k) = klog_exit (log_run perform cs (k\<lparr>klog_verbosity := v'\<rparr>))"
  using assms by (rule lc.run_more_verbose)

definition klog0 :: klog where
  "klog0 = \<lparr>klog_verbosity = 2, klog_lines = [], klog_exit = None\<rparr>"

definition calls0 :: "log_call list" where
  "calls0 = [DefaultMsg ''start'' [], DebugMsg ''detail'' [], ErrorMsg ''lost %s'' [go_string ''x''], FatalMsg ''end'' [], DefaultMsg ''never'' []]"

lemma verbosity_adds_info_only_example:
  "length (klog_lines (log_run perform calls0 klog0)) = 3 \<and>
   subseq (klog_lines (log_run perform calls0 klog0)) (klog_lines (log_run perform calls0 (klog0\<lparr>klog_verbosity := 4\<rparr>))) \<and>
   klog_exit (log_run perform calls0 (klog0\<lparr>klog_verbosity := 4\<rparr>)) = Some 255"
proof -
  have "klog_lines (log_run perform calls0 klog0) =
      [(InfoSev, Some (''start'' @ [CHR 0x0A])), (ErrorSev, Some (''lost x'' @ [CHR 0x0A])), (FatalSev, Some (''end'' @ [CHR 0x0A]))] \<and>
      klog_exit (log_run perform calls0 klog0) = Some 255"
    by code_simp
  then show ?thesis using verbosity_adds_info_only [of klog0 4 calls0] by (simp add: klog0_def)
qed

text \<open>
  A log line under a request is the prefix of its context, verbatim, and then the formatted message:
  when the request ID has no percent sign, formatting the prefixed message is the same as prefixing
  the formatted one, for every message and every list of arguments.
\<close>

lemma context_prefix_verbatim:
  assumes "\<And>r. ctx_ReqID ctx = Some r \<Longrightarrow> CHR ''%'' \<notin> set r"
  shows "Sprintf (Log ctx message) args = map_option (Log ctx) (Sprintf message args)"
proof -
  have "CHR ''%'' \<notin> set (log_prefix ctx)" using assms by (rule prefix_percent)
  moreover have "Log ctx = (@) (log_prefix ctx)" using Log_prefix by blast
  ultimately show ?thesis using Sprintf_prefix [of "log_prefix ctx" message args] by simp
qed

lemma info_logs_quiet:
  "filter alarm (klog_lines (ExtendedLog ctx m args k)) = filter alarm (klog_lines k)"
  "filter alarm (klog_lines (TraceLog ctx m args k)) = filter alarm (klog_lines k)"
  by (simp_all add: log_defs klog_print_def alarm_def Let_def)

definition error_lines :: "('e status \<Rightarrow> arg) \<Rightarrow> Context \<Rightarrow> ('e status + 'r) outcome \<Rightarrow> (severity \<times> string option) list" where
  "error_lines show_err ctx r =
     (let line = (\<lambda>e. line_of ErrorSev (Sprintf (Log ctx ''GRPC error: %v'') [show_err e]))
      in case r of
           Panics v \<Rightarrow> [line_of ErrorSev (Sprintf ''panic occurred: %v'' [go_string v]), line (status_Error Internal (''panic '' @ v))]
         | Replies (Inl e) \<Rightarrow> [line e]
         | Replies (Inr _) \<Rightarrow> [])"

text \<open>
  C34. The interceptors are transparent: with or without metrics (the Prometheus interceptor passing
  a call on as documented), the handler runs once, under a context that carries the next request
  number and the request ID, and its effect on the servers and its reply are passed on unchanged,
  except that a panic becomes an Internal error that quotes its value. A request always gets a reply; a failed one is
  reported in the log by an error line (a panic by two), a successful one by none.
\<close>

theorem interceptors_transparent:
  assumes "\<And>h. prometheus fullMethod h = h"
  shows "\<exists>k r s' k'.
     filter alarm (klog_lines k) = filter alarm (klog_lines (sv_log s)) \<and>
     handler (contextIDInjector (sv_id s + 1) ctx req) req (s\<lparr>sv_id := sv_id s + 1, sv_log := k\<rparr>) = (r, s') \<and>
     ChainUnaryServer (middleWare show_req show_resp show_err prometheus metrics) fullMethod handler ctx req s =
       (Replies (case r of Panics v \<Rightarrow> Inl (status_Error Internal (''panic '' @ v)) | Replies reply \<Rightarrow> reply), s'\<lparr>sv_log := k'\<rparr>) \<and>
     filter alarm (klog_lines k') =
       filter alarm (klog_lines (sv_log s')) @ error_lines show_err (contextIDInjector (sv_id s + 1) ctx req) r"
proof -
  let ?ctx = "contextIDInjector (sv_id s + 1) ctx req"
  let ?k = "TraceLog ?ctx ''GRPC request: %s'' [show_req req] (ExtendedLog ?ctx ''GRPC call: %s'' [go_string fullMethod] (sv_log s))"
  obtain r s' where h: "handler ?ctx req (s\<lparr>sv_id := sv_id s + 1, sv_log := ?k\<rparr>) = (r, s')" by (metis surj_pair)
  have c: "ChainUnaryServer (middleWare show_req show_resp show_err prometheus metrics) fullMethod handler ctx req s =
      logGRPC show_req show_resp show_err fullMethod (panicHandler_chain fullMethod handler) ?ctx req (s\<lparr>sv_id := sv_id s + 1\<rparr>)"
    using assms by (simp add: ChainUnaryServer_def middleWare_def contextIDInjector_chain_def injector_count_def Let_def)
  have "\<exists>k'. ChainUnaryServer (middleWare show_req show_resp show_err prometheus metrics) fullMethod handler ctx req s =
       (Replies (case r of Panics v \<Rightarrow> Inl (status_Error Internal (''panic '' @ v)) | Replies reply \<Rightarrow> reply), s'\<lparr>sv_log := k'\<rparr>) \<and>
     filter alarm (klog_lines k') = filter alarm (klog_lines (sv_log s')) @ error_lines show_err ?ctx r"
    unfolding c logGRPC_def panicHandler_chain_def
    using h info_logs_quiet
    by (auto simp: on_log_def panicHandler_def error_lines_def klog_print_def line_of_def alarm_def Let_def split: outcome.split sum.split)
  then show ?thesis using h info_logs_quiet by metis
qed

text \<open>A handler that counts and then panics on a request without an ID.\<close>

definition handler0 :: "(unit, string, nat) handler" where
  "handler0 ctx req s =
     (if getReqID req = '''' then (Panics ''lost'', s\<lparr>sv_state := Suc (sv_state s)\<rparr>)
      else (Replies (Inr ''ok''), s\<lparr>sv_state := Suc (sv_state s)\<rparr>))"

definition server0 :: "nat server" where
  "server0 = \<lparr>sv_id = 6, sv_log = klog0, sv_state = 0\<rparr>"

theorem interceptors_transparent_witness:
  "\<exists>s. ChainUnaryServer (middleWare (\<lambda>_. go_string ''req'') go_string (\<lambda>_. go_string ''err'') (\<lambda>_ h. h) True) ''/m'' handler0
         \<lparr>ctx_ID = None, ctx_ReqID = None\<rparr> OtherReq server0 = (Replies (Inl (status_Error Internal ''panic lost'')), s) \<and>
       sv_state s = 1 \<and> length (filter alarm (klog_lines (sv_log s))) = 2"
  using interceptors_transparent [where prometheus = "\<lambda>_ h. h" and fullMethod = "''/m''" and handler = handler0 and s = server0 and
      req = OtherReq and ctx = "\<lparr>ctx_ID = None, ctx_ReqID = None\<rparr>" and show_req = "\<lambda>_. go_string ''req''" and
      show_resp = go_string and show_err = "\<lambda>_. go_string ''err''" and metrics = True, OF refl]
  by (auto simp: handler0_def server0_def error_lines_def klog0_def)

end
