(* ===== verification/Commands.thy ===== *)
theory Commands
  imports Driver Extender Kubectl Logging
begin

text \<open>
  The commands, src/cmd/: the flags of the plugin and of the extender, the construction of the API
  client, and the main functions, which put the components together; with them the probe of
  pkg/csi-plugin/liveness and the profiling routes of pkg/extender-scheduler/routes. client-go, the
  probe connection and the HTTP listener are parameters.
\<close>

section \<open>The flag package\<close>

text \<open>
  The kinds of flags: strings, switches, and the flags of klog with the values they accept. Parsing
  collects the values that were set, as texts.
\<close>

datatype flag_kind = StringFlag | BoolFlag | OtherFlag "string \<Rightarrow> bool"

datatype flag_error =
    BadSyntax string | NotDefined string | NeedsArgument string | InvalidValue string string | ErrHelp

type_synonym flags = "string \<rightharpoonup> flag_kind"
type_synonym flag_values = "string \<rightharpoonup> string"

fun flag_set :: "flag_kind \<Rightarrow> string \<Rightarrow> string \<Rightarrow> flag_values \<Rightarrow> flag_values option" where
  "flag_set StringFlag name v vals = Some (vals(name \<mapsto> v))"
| "flag_set BoolFlag name v vals = map_option (\<lambda>b. vals(name \<mapsto> FormatBool b)) (ParseBool v)"
| "flag_set (OtherFlag accepts) name v vals = (if accepts v then Some (vals(name \<mapsto> v)) else None)"

text \<open>\<open>name=value\<close>; the equals sign cannot be first.\<close>

definition split_flag :: "string \<Rightarrow> string \<times> string option" where
  "split_flag s =
     (hd s # takeWhile (\<lambda>c. c \<noteq> CHR ''='') (tl s),
      case dropWhile (\<lambda>c. c \<noteq> CHR ''='') (tl s) of [] \<Rightarrow> None | _ # v \<Rightarrow> Some v)"

fun parse_flags :: "flags \<Rightarrow> string list \<Rightarrow> flag_values \<Rightarrow> flag_error + flag_values \<times> string list" where
  "parse_flags formal [] vals = Inr (vals, [])"
| "parse_flags formal (s # args) vals =
     (if length s < 2 \<or> hd s \<noteq> CHR ''-'' then Inr (vals, s # args)
      else if s = ''--'' then Inr (vals, args)
      else
        let name = (if s ! 1 = CHR ''-'' then drop 2 s else drop 1 s)
        in if name = '''' \<or> hd name = CHR ''-'' \<or> hd name = CHR ''='' then Inl (BadSyntax s)
           else case split_flag name of
                  (name, value) \<Rightarrow>
                    (case formal name of
                       None \<Rightarrow> Inl (if name = ''help'' \<or> name = ''h'' then ErrHelp else NotDefined name)
                     | Some BoolFlag \<Rightarrow>
                         (let v = (case value of None \<Rightarrow> ''true'' | Some v \<Rightarrow> v)
                          in case flag_set BoolFlag name v vals of
                               None \<Rightarrow> Inl (InvalidValue v name)
                             | Some vals \<Rightarrow> parse_flags formal args vals)
                     | Some kind \<Rightarrow>
                         (case value of
                            Some v \<Rightarrow>
                              (case flag_set kind name v vals of
                                 None \<Rightarrow> Inl (InvalidValue v name)
                               | Some vals \<Rightarrow> parse_flags formal args vals)
                          | None \<Rightarrow>
                              (case args of
                                 [] \<Rightarrow> Inl (NeedsArgument name)
                               | v # args \<Rightarrow>
                                   (case flag_set kind name v vals of
                                      None \<Rightarrow> Inl (InvalidValue v name)
                                    | Some vals \<Rightarrow> parse_flags formal args vals)))))"

text \<open>\<open>flag.Set\<close>, which the programs use for the defaults of klog.\<close>

definition flag_Set :: "flags \<Rightarrow> string \<Rightarrow> string \<Rightarrow> flag_values \<Rightarrow> flag_values option" where
  "flag_Set formal name v vals =
     (case formal name of None \<Rightarrow> None | Some kind \<Rightarrow> flag_set kind name v vals)"

section \<open>The flags of the programs\<close>

datatype init_end = KlogExit | FlagExit flag_error

definition init_flags :: "flags \<Rightarrow> flags \<Rightarrow> string list \<Rightarrow> init_end + flag_values" where
  "init_flags klog_flags own args =
     (let formal = klog_flags ++ own
      in case Option.bind (flag_Set formal ''logtostderr'' ''true'' Map.empty) (flag_Set formal ''v'' ''2'') of
           None \<Rightarrow> Inl KlogExit
         | Some vals \<Rightarrow>
             (case parse_flags formal args vals of
                Inl err \<Rightarrow> Inl (FlagExit err)
              | Inr (vals, _) \<Rightarrow> Inr vals))"

definition flag_string :: "flag_values \<Rightarrow> string \<Rightarrow> string \<Rightarrow> string" where
  "flag_string vals name dflt = (case vals name of None \<Rightarrow> dflt | Some v \<Rightarrow> v)"

definition csi_flags :: flags where
  "csi_flags = map_of (map (\<lambda>n. (n, StringFlag)) [''kubeconfig'', ''endpoint'', ''nodeid'', ''metastorename'',
       ''metastorenamespace'', ''pluginpath'', ''histogramoption''] @
     [(''controllerserver'', BoolFlag), (''nodeserver'', BoolFlag)])"

definition csi_init :: "flags \<Rightarrow> string list \<Rightarrow> init_end + Config" where
  "csi_init klog_flags args =
     map_sum id (\<lambda>vals. \<lparr>
       conf_KubeConfig = flag_string vals ''kubeconfig'' '''',
       conf_Endpoint = flag_string vals ''endpoint'' ''unix://tmp/csi.sock'',
       conf_DriverName = '''',
       conf_NodeID = flag_string vals ''nodeid'' '''',
       conf_PluginPath = flag_string vals ''pluginpath'' ''/var/lib/kubelet/plugins/'',
       conf_MetaConfigMapName = flag_string vals ''metastorename'' ''hostpath-meta-store'',
       conf_MetaConfigMapNamespace = flag_string vals ''metastorenamespace'' '''',
       conf_MetricsPath = '''',
       conf_HistogramOption = flag_string vals ''histogramoption'' ''0.5,2,6'',
       conf_PollTime = 0,
       conf_PoolTimeout = 0,
       conf_IsControllerServer = (flag_string vals ''controllerserver'' ''false'' = ''true''),
       conf_IsNodeServer = (flag_string vals ''nodeserver'' ''false'' = ''true'')\<rparr>)
     (init_flags klog_flags csi_flags args)"

definition extender_init :: "flags \<Rightarrow> string list \<Rightarrow> init_end + string \<times> string" where
  "extender_init klog_flags args =
     map_sum id (\<lambda>vals. (flag_string vals ''address'' '':6600'', flag_string vals ''kubeconfig'' ''''))
     (init_flags klog_flags [''address'' \<mapsto> StringFlag, ''kubeconfig'' \<mapsto> StringFlag] args)"
section \<open>The API client\<close>

record ('cfg, 'client) client_go =
  cg_BuildConfigFromFlags :: "string \<Rightarrow> string + 'cfg"
  cg_InClusterConfig :: "string + 'cfg"
  cg_NewForConfig :: "'cfg \<Rightarrow> string + 'client"

text \<open>
  A failure is logged as fatal, which ends the process: what follows the message in the code is not
  reached. \<open>None\<close> is the ended process, and klog holds its exit status.
\<close>

definition getK8sClient :: "('cfg, 'client) client_go \<Rightarrow> string \<Rightarrow> klog \<Rightarrow> 'client option \<times> klog" where
  "getK8sClient cg kubeConfig k =
     (case (if kubeConfig \<noteq> '''' then cg_BuildConfigFromFlags cg kubeConfig else cg_InClusterConfig cg) of
        Inl err \<Rightarrow> (None, FatalLogMsg (''Failed to get cluster config with error: %v'' @ [CHR 0x0A]) [go_string err] k)
      | Inr cfg \<Rightarrow>
          (case cg_NewForConfig cg cfg of
             Inl err \<Rightarrow> (None, FatalLogMsg (''Failed to create client with error: %v'' @ [CHR 0x0A]) [go_string err] k)
           | Inr client \<Rightarrow> (Some client, k)))"

text \<open>The extender's copy has no error result: it relies on the message to end the process.\<close>

definition extender_getK8sClient :: "('cfg, 'client) client_go \<Rightarrow> string \<Rightarrow> klog \<Rightarrow> 'client option \<times> klog" where
  "extender_getK8sClient cg kubeConfig k =
     (case (if kubeConfig \<noteq> '''' then cg_BuildConfigFromFlags cg kubeConfig else cg_InClusterConfig cg) of
        Inl err \<Rightarrow> (None, FatalLogMsg (''Failed to get cluster config with error: %v'' @ [CHR 0x0A]) [go_string err] k)
      | Inr cfg \<Rightarrow>
          (case cg_NewForConfig cg cfg of
             Inl err \<Rightarrow> (None, FatalLogMsg (''Failed to create client with error: %v'' @ [CHR 0x0A]) [go_string err] k)
           | Inr client \<Rightarrow> (Some client, k)))"

section \<open>The plugin\<close>

text \<open>
  Where the main function ends up: the process has ended with the status klog holds, or with the
  status 2 of a panic, or it serves and never returns (nothing calls \<open>Done\<close> on the wait group).
\<close>

datatype main_end = Fatal | Panicked | ServingCSI string string "service list"

text \<open>The fatal message of \<open>serve\<close>, if it failed.\<close>

definition serve_end :: "(oserr \<Rightarrow> arg) \<Rightarrow> serve_result \<Rightarrow> klog \<Rightarrow> main_end \<times> klog" where
  "serve_end show_os res k =
     (case res of
        InvalidEndpoint ep \<Rightarrow> (Fatal, klog_print FatalSev (Some (''invalid endpoint: '' @ ep)) k)
      | RemoveFailed addr e \<Rightarrow>
          (Fatal, klog_print FatalSev (Sprintf ''Failed to remove %s, error: %s'' [go_string addr, show_os e]) k)
      | ListenFailed e \<Rightarrow> (Fatal, klog_print FatalSev (Sprintf ''Failed to listen: %v'' [go_string e]) k)
      | InvalidHistogram h \<Rightarrow>
          (Fatal, klog_print FatalSev (Sprintf ''invalid histogram options provided: %v'' [go_string h]) k)
      | BadStart e \<Rightarrow> (Fatal, klog_print FatalSev (Sprintf ''failed to parse histogram start value: %v'' [go_string e]) k)
      | BucketsPanic \<Rightarrow> (Panicked, k)
      | Serving proto addr services \<Rightarrow> (ServingCSI proto addr services, k))"

definition csi_main ::
    "('cfg, 'client) client_go \<Rightarrow> 'w os \<Rightarrow> ('client \<Rightarrow> 'k cm_api) \<Rightarrow> net \<Rightarrow> (apierr \<Rightarrow> arg) \<Rightarrow> (oserr \<Rightarrow> arg) \<Rightarrow> Config \<Rightarrow> string
       \<Rightarrow> 'w \<Rightarrow> 'k \<Rightarrow> klog \<Rightarrow> main_end \<times> klog \<times> 'w \<times> 'k" where
  "csi_main cg sys capi n show_api show_os conf version w k l =
     (case getK8sClient cg (conf_KubeConfig conf) l of
        (None, l) \<Rightarrow> (Fatal, l, w, k)
      | (Some client, l) \<Rightarrow>
          (let l = DefaultLog ''Starting HostPath csi'' [] l;
               l = DefaultLog ''hostPath CSI Driver version: %v'' [go_string version] l
           in case Run sys (capi client) n conf version w k of
                (Inl NoDriver, w, k) \<Rightarrow> (Fatal, FatalLogMsg ''Failed to initialize CSI Driver.'' [] l, w, k)
              | (Inl (MetaStoreFailed err), w, k) \<Rightarrow>
                  (Fatal, FatalLogMsg (''failed to start node server, err %v'' @ [CHR 0x0A]) [show_api err] l, w, k)
              | (Inl StartPanic, w, k) \<Rightarrow> (Panicked, l, w, k)
              | (Inr res, w, k) \<Rightarrow> (case serve_end show_os res l of (e, l) \<Rightarrow> (e, l, w, k))))"

section \<open>The extender\<close>

text \<open>
  The router, for paths without parameters: it panics on a path that does not start with a slash or
  that is registered twice under one method. Only the paths matter here, and the result is \<open>None\<close> on
  the panic.
\<close>

type_synonym routes = "(string \<times> string) list"

definition router_handle :: "string \<Rightarrow> string \<Rightarrow> routes \<Rightarrow> routes option" where
  "router_handle method path rs =
     (if path = '''' \<or> hd path \<noteq> CHR ''/'' \<or> (method, path) \<in> set rs then None else Some (rs @ [(method, path)]))"

fun router_all :: "string \<Rightarrow> string list \<Rightarrow> routes \<Rightarrow> routes option" where
  "router_all method [] rs = Some rs"
| "router_all method (path # paths) rs = Option.bind (router_handle method path rs) (router_all method paths)"

text \<open>\<open>AddPProf\<close>, which no command calls, and the handler of \<open>net/http/pprof\<close> each of its routes passes a request to.\<close>

datatype pprof_handler = PprofIndex | PprofCmdline | PprofProfile | PprofSymbol | PprofTrace | PprofHandler string

definition pprof_routes :: "(string \<times> pprof_handler) list" where
  "pprof_routes = map (\<lambda>(n, h). (''/debug/pprof/'' @ n, h))
     [('''', PprofIndex), (''cmdline/'', PprofCmdline), (''profile/'', PprofProfile), (''symbol/'', PprofSymbol), (''trace/'', PprofTrace),
      (''heap/'', PprofHandler ''heap''), (''goroutine/'', PprofHandler ''goroutine''), (''block/'', PprofHandler ''block''),
      (''threadcreate/'', PprofHandler ''threadcreate''), (''mutex/'', PprofHandler ''mutex'')]"

definition AddPProf :: "routes \<Rightarrow> routes option" where
  "AddPProf r = router_all ''GET'' (map fst pprof_routes) r"

text \<open>
  The error texts of the three registries. The predicate package prints the method value of the
  name of a duplicate, an address, instead of the name.
\<close>

definition predicate_error_text :: "string \<Rightarrow> registry_error \<Rightarrow> string" where
  "predicate_error_text method_value err =
     (case err of
        EmptyName \<Rightarrow> ''predicate name should not be empty''
      | AlreadyRegistered name \<Rightarrow> ''Predicate %!s(func() string='' @ method_value @ '') is registed''
      | InitFailed name e \<Rightarrow> ''init predicate '' @ name @ '' error:'' @ e)"

definition prioritize_error_text :: "registry_error \<Rightarrow> string" where
  "prioritize_error_text err =
     (case err of
        EmptyName \<Rightarrow> ''Prioritize name should not be empty''
      | AlreadyRegistered name \<Rightarrow> ''prioritize '' @ name @ '' is registed''
      | InitFailed name e \<Rightarrow> ''init prioritize '' @ name @ '' error:'' @ e)"

datatype extender_end = ExtenderFatal | ExtenderWaiting | ExtenderPanic | ServingHTTP string routes

text \<open>
  \<open>Run\<close> of the controller with what it logs: it starts the goroutines of the three informers, and
  \<open>waitForResourceSynced\<close> reports the unsynced resources at every tick. Meanwhile the informers take over
  what the API server delivers, and a panic of a conversion ends the process. The result is how \<open>Run\<close>
  ends, the events after that, and the cache.
\<close>

datatype run_end = RunWaiting | RunPanics | RunDone "string option"

definition unsynced :: "bool \<Rightarrow> bool \<Rightarrow> bool \<Rightarrow> string list" where
  "unsynced pods nodes pvs =
     (if pods then [] else [''pods'']) @ (if nodes then [] else [''nodes'']) @ (if pvs then [] else [''persistentVolumes''])"

fun control_Run ::
    "json \<Rightarrow> (string list \<Rightarrow> arg) \<Rightarrow> sync_event list \<Rightarrow> HostPathControl \<Rightarrow> klog
       \<Rightarrow> run_end \<times> sync_event list \<times> HostPathControl \<times> klog" where
  "control_Run js show_list [] hpc l = (RunWaiting, [], hpc, l)"
| "control_Run js show_list (Timeout # events) hpc l =
     (RunDone (Some ''timeout waiting for initialization''), events, hpc, l)"
| "control_Run js show_list (Tick pods nodes pvs # events) hpc l =
     (if unsynced pods nodes pvs \<noteq> []
      then control_Run js show_list events hpc
             (DebugLogMsg ''Waiting for %v to be initialized...'' [show_list (unsynced pods nodes pvs)] l)
      else (RunDone None, events, hpc, DefaultLog ''Initialized pods and persistentVolumes'' [] l))"
| "control_Run js show_list (Delivered ev # events) hpc l =
     (if event_panics js ev hpc then (RunPanics, events, hpc, l)
      else control_Run js show_list events (handle_event js ev hpc) l)"

text \<open>The informers go on while the extender serves; nobody looks at the ticker and the time-out any more.\<close>

fun informers_panic :: "json \<Rightarrow> sync_event list \<Rightarrow> HostPathControl \<Rightarrow> bool" where
  "informers_panic js [] hpc \<longleftrightarrow> False"
| "informers_panic js (Delivered ev # events) hpc \<longleftrightarrow>
     event_panics js ev hpc \<or> informers_panic js events (handle_event js ev hpc)"
| "informers_panic js (_ # events) hpc \<longleftrightarrow> informers_panic js events hpc"

definition predicate_Register :: "string \<Rightarrow> ('c, 'h) plugin \<Rightarrow> ('c, 'h) plugin list \<Rightarrow> string option \<times> ('c, 'h) plugin list" where
  "predicate_Register method_value p plugins =
     (case Register p plugins of (err, plugins) \<Rightarrow> (map_option (predicate_error_text method_value) err, plugins))"

definition predicate_Init :: "string \<Rightarrow> 'c \<Rightarrow> ('c, 'h) plugin list \<Rightarrow> string option" where
  "predicate_Init method_value k8sControl plugins =
     map_option (predicate_error_text method_value) (Init k8sControl plugins)"

definition prioritize_Register :: "('c, 'h) plugin \<Rightarrow> ('c, 'h) plugin list \<Rightarrow> string option \<times> ('c, 'h) plugin list" where
  "prioritize_Register p plugins =
     (case Register p plugins of (err, plugins) \<Rightarrow> (map_option prioritize_error_text err, plugins))"

definition prioritize_Init :: "'c \<Rightarrow> ('c, 'h) plugin list \<Rightarrow> string option" where
  "prioritize_Init k8sControl plugins = map_option prioritize_error_text (Init k8sControl plugins)"

text \<open>The bind package has the texts of the prioritize package.\<close>

definition extender_initAll ::
    "'c \<Rightarrow> string \<Rightarrow> ('c, 'p) plugin list \<Rightarrow> ('c, 's) plugin list \<Rightarrow> ('c, 'b) plugin list \<Rightarrow> klog \<Rightarrow> string option \<times> klog" where
  "extender_initAll k8sControl method_value predicates priorities binds l =
     (case predicate_Init method_value k8sControl predicates of
        Some err \<Rightarrow> (Some err, l)
      | None \<Rightarrow>
          (let l = DefaultLog ''Initialized all predicate plugins'' [] l
           in case prioritize_Init k8sControl priorities of
                Some err \<Rightarrow> (Some err, l)
              | None \<Rightarrow>
                  (let l = DefaultLog ''Initialized all prioritize plugins'' [] l
                   in case prioritize_Init k8sControl binds of
                        Some err \<Rightarrow> (Some err, l)
                      | None \<Rightarrow> (None, DefaultLog ''Initialized all bind plugins'' [] l))))"

text \<open>The routes: each package logs a path and registers it.\<close>

fun add_routes :: "(string \<times> 'p) list \<Rightarrow> routes \<Rightarrow> klog \<Rightarrow> routes option \<times> klog" where
  "add_routes [] r l = (Some r, l)"
| "add_routes ((path, p) # rest) r l =
     (let l = DefaultLog path [] l
      in case router_handle ''POST'' path r of None \<Rightarrow> (None, l) | Some r \<Rightarrow> add_routes rest r l)"

definition predicate_AddRoute :: "string \<Rightarrow> ('c, 'h) plugin list \<Rightarrow> routes \<Rightarrow> klog \<Rightarrow> routes option \<times> klog" where
  "predicate_AddRoute apiPrefix plugins r l = add_routes (AddRoute apiPrefix plugins) r l"

definition prioritize_AddRoute :: "string \<Rightarrow> ('c, 'h) plugin list \<Rightarrow> routes \<Rightarrow> klog \<Rightarrow> routes option \<times> klog" where
  "prioritize_AddRoute apiPrefix plugins r l = add_routes (AddRoute apiPrefix plugins) r l"

definition extender_routes :: "json \<Rightarrow> 'k kube \<Rightarrow> klog \<Rightarrow> routes option \<times> klog" where
  "extender_routes js api l =
     (case router_handle ''GET'' ''/version'' [] of
        None \<Rightarrow> (None, l)
      | Some r \<Rightarrow>
          (case predicate_AddRoute predicatesPath (predicateList js) r l of
             (None, l) \<Rightarrow> (None, l)
           | (Some r, l) \<Rightarrow>
               (case prioritize_AddRoute prioritiesPath (prioritizeList js) r l of
                  (None, l) \<Rightarrow> (None, l)
                | (Some r, l) \<Rightarrow> add_routes (AddRoute bindsPath (bindList api)) r l)))"

text \<open>How the process stands after the events: ended by a fatal message or a panic, waiting, or serving.\<close>

definition extender_main ::
    "('cfg, 'client) client_go \<Rightarrow> ('client \<Rightarrow> 'k kube) \<Rightarrow> json \<Rightarrow> (string list \<Rightarrow> arg) \<Rightarrow> string \<Rightarrow> (string \<Rightarrow> string option)
       \<Rightarrow> string \<times> string \<Rightarrow> string \<Rightarrow> sync_event list \<Rightarrow> klog \<Rightarrow> extender_end \<times> klog" where
  "extender_main cg api js show_list method_value listen conf version events l =
     (let (address, kubeConfig) = conf
      in case extender_getK8sClient cg kubeConfig l of
           (None, l) \<Rightarrow> (ExtenderFatal, l)
         | (Some client, l) \<Rightarrow>
             (let l = DefaultLog ''hostPath CSI Driver version: %v'' [go_string version] l;
                  l = DefaultLog ''start init all'' [] l
              in case control_Run js show_list events NewHostPathControl l of
                   (RunWaiting, events, hpc, l) \<Rightarrow> (ExtenderWaiting, l)
                 | (RunPanics, events, hpc, l) \<Rightarrow> (ExtenderPanic, l)
                 | (RunDone (Some err), events, hpc, l) \<Rightarrow> (ExtenderFatal, FatalLogMsg err [] l)
                 | (RunDone None, events, hpc, l) \<Rightarrow>
                     (case extender_initAll hpc method_value (predicateList js) (prioritizeList js)
                             (bindList (api client)) l of
                        (Some err, l) \<Rightarrow> (ExtenderFatal, FatalLogMsg err [] l)
                      | (None, l) \<Rightarrow>
                          (case extender_routes js (api client) (DefaultLog ''finish init'' [] l) of
                             (None, l) \<Rightarrow> (ExtenderPanic, l)
                           | (Some rs, l) \<Rightarrow>
                               (case listen address of
                                  Some err \<Rightarrow> (ExtenderFatal, FatalLogMsg err [] l)
                                | None \<Rightarrow>
                                    (if informers_panic js events hpc then ExtenderPanic else ServingHTTP address rs, l))))))"

section \<open>The liveness probe\<close>

text \<open>
  \<open>recordLiveness\<close>: registering the gauge and connecting may fail fatally, a poll interval that is not
  positive makes \<open>NewTicker\<close> panic, and otherwise every tick sets the gauge by one probe.
\<close>

datatype liveness_end = LivenessFatal | LivenessPanic | Polling "nat list"

definition recordLiveness ::
    "string option \<Rightarrow> string option \<Rightarrow> int \<Rightarrow> (string + bool) list \<Rightarrow> klog \<Rightarrow> liveness_end \<times> klog" where
  "recordLiveness reg conn pollTime probes l =
     (case reg of
        Some err \<Rightarrow> (LivenessFatal, klog_print FatalSev (Some err) l)
      | None \<Rightarrow>
          (case conn of
             Some err \<Rightarrow>
               (LivenessFatal, klog_print FatalSev (Sprintf ''failed to establish connection to CSI driver: %v'' [go_string err]) l)
           | None \<Rightarrow> if pollTime \<le> 0 then (LivenessPanic, l) else (Polling (map getLiveness probes), l)))"

definition liveness_Run ::
    "(string \<Rightarrow> string option) \<Rightarrow> string option \<Rightarrow> Config \<Rightarrow> (string + bool) list \<Rightarrow> klog \<Rightarrow> liveness_end \<times> klog" where
  "liveness_Run connect reg conf probes l =
     recordLiveness reg (connect (conf_Endpoint conf)) (conf_PollTime conf) probes (ExtendedLogMsg ''Liveness Running'' [] l)"

section \<open>The kubectl plugin\<close>

text \<open>
  The errors of the get command as they are printed. Any error of the three steps is passed to
  \<open>CheckErr\<close>, which prints it and ends the process with status 1.
\<close>

definition usageError :: "string \<Rightarrow> string \<Rightarrow> arg list \<Rightarrow> string option" where
  "usageError commandPath format args =
     Option.bind (Sprintf format args)
       (\<lambda>msg. Sprintf (''%s'' @ [CHR 0x0A] @ ''See '' @ [CHR 0x27] @ ''%s -h'' @ [CHR 0x27] @ '' for help and examples.'')
          [go_string msg, go_string commandPath])"

definition noClientError :: "string \<Rightarrow> string option" where
  "noClientError err = Sprintf ''faild get init client,please check kube config file. %v'' [go_string err]"

text \<open>
  The commands: their usage line, of which the first word is the name, their own boolean flags with
  the defaults, and the commands below. The connection flags of the root command are those of the
  library. What cobra makes of a command line is a parameter: it finds a command by its names and
  hands over the other arguments and the value of its flags, or it fails.
\<close>

datatype cobra_command =
  Command (cc_Use: string) (cc_Short: string) (cc_flags: "(string \<times> bool) list") (cc_commands: "cobra_command list")

datatype dispatch = Ran "string list" "string list" "string \<Rightarrow> string + bool" | NotRun string

definition cmd_get :: cobra_command where
  "cmd_get = Command ''get (TYPE/NAME ...) [flags]'' ''Display node pod or pv quota information'' [(''filter'', True)] []"

definition NewCmdHostPathPv :: cobra_command where
  "NewCmdHostPathPv = Command ''hostpathpv'' ''hostpathpv controls the Kubernetes cluster hostpathpv manager'' [] [cmd_get]"

definition cc_Name :: "cobra_command \<Rightarrow> string" where
  "cc_Name c = takeWhile (\<lambda>ch. ch \<noteq> CHR '' '') (cc_Use c)"

text \<open>\<open>cmd.Help()\<close>, with the text cobra writes for the command.\<close>

definition runHelp :: "(cobra_command \<Rightarrow> string) \<Rightarrow> cobra_command \<Rightarrow> string" where
  "runHelp help_text cmd = help_text cmd"

text \<open>
  The program: what it prints on its standard output and its status, 1 for an error of cobra and for
  one that \<open>CheckErr\<close> reports, 2 for a panic.
\<close>

definition kubectl_main ::
    "(cobra_command \<Rightarrow> string list \<Rightarrow> dispatch) \<Rightarrow> (cobra_command \<Rightarrow> string) \<Rightarrow> json \<Rightarrow> bool \<Rightarrow> string + CoreNode list
       \<Rightarrow> string + CorePV list \<Rightarrow> string list \<Rightarrow> string \<times> nat" where
  "kubectl_main execute help_text js client nodes pvs argv =
     (case execute NewCmdHostPathPv argv of
        NotRun err \<Rightarrow> ('''', 1)
      | Ran path args flag \<Rightarrow>
          if path = [cc_Name NewCmdHostPathPv, cc_Name cmd_get] then
            (case NewCmdGet js (flag ''filter'') client nodes pvs args of
               None \<Rightarrow> ('''', 2)
             | Some (Inl err) \<Rightarrow> ('''', 1)
             | Some (Inr out) \<Rightarrow> (out, 0))
          else (runHelp help_text NewCmdHostPathPv, 0))"

section \<open>Facts\<close>

text \<open>
  The program reports success exactly when it has printed its help or run get to the end; a request
  with a wrong number of arguments or an unknown type, or without a client, fails.
\<close>

lemma kubectl_status:
  assumes "execute NewCmdHostPathPv argv = Ran [''hostpathpv'', ''get''] args flag"
  shows "snd (kubectl_main execute help_text js client nodes pvs argv) = 0 \<longleftrightarrow>
      (\<exists>out. NewCmdGet js (flag ''filter'') client nodes pvs args = Some (Inr out))"
    and "Validate args \<noteq> None \<or> \<not> client \<Longrightarrow> snd (kubectl_main execute help_text js client nodes pvs argv) = 1"
proof -
  have n: "[cc_Name NewCmdHostPathPv, cc_Name cmd_get] = [''hostpathpv'', ''get'']"
    by (simp add: cc_Name_def NewCmdHostPathPv_def cmd_get_def)
  show "snd (kubectl_main execute help_text js client nodes pvs argv) = 0 \<longleftrightarrow>
      (\<exists>out. NewCmdGet js (flag ''filter'') client nodes pvs args = Some (Inr out))"
    unfolding kubectl_main_def assms n by (auto split: option.split sum.split)
  show "Validate args \<noteq> None \<or> \<not> client \<Longrightarrow> snd (kubectl_main execute help_text js client nodes pvs argv) = 1"
    unfolding kubectl_main_def assms n
    by (auto simp: NewCmdGet_def Complete_def Let_def split: option.splits sum.splits)
qed

lemma split_flag_value: "name \<noteq> '''' \<Longrightarrow> CHR ''='' \<notin> set (tl name) \<Longrightarrow> split_flag (name @ CHR ''='' # v) = (name, Some v)"
proof -
  have "takeWhile (\<lambda>c. c \<noteq> CHR ''='') (xs @ CHR ''='' # v) = xs \<and> dropWhile (\<lambda>c. c \<noteq> CHR ''='') (xs @ CHR ''='' # v) = CHR ''='' # v"
    if "CHR ''='' \<notin> set xs" for xs
    using that by (induction xs) auto
  then show "name \<noteq> '''' \<Longrightarrow> CHR ''='' \<notin> set (tl name) \<Longrightarrow> split_flag (name @ CHR ''='' # v) = (name, Some v)"
    by (cases name) (auto simp: split_flag_def)
qed

text \<open>An argument \<open>-name=value\<close> sets the flag to the value, whatever characters the value has.\<close>

definition flag_arg :: "string \<Rightarrow> string \<Rightarrow> string" where
  "flag_arg name v = CHR ''-'' # name @ CHR ''='' # v"

lemma parse_flag_arg:
  assumes "formal name = Some kind" "name \<noteq> ''''" "CHR ''='' \<notin> set name" "hd name \<noteq> CHR ''-''"
    and "flag_set kind name v vals = Some vals'"
  shows "parse_flags formal (flag_arg name v # args) vals = parse_flags formal args vals'"
proof -
  have s: "split_flag (name @ CHR ''='' # v) = (name, Some v)"
    using split_flag_value [of name v] assms(2,3) by (cases name) auto
  have h: "hd (name @ CHR ''='' # v) = hd name" "hd name \<noteq> CHR ''=''" "(name @ CHR ''='' # v) ! 0 = hd name"
    using assms(2,3) by (cases name; auto)+
  show ?thesis using assms(1,2,4,5) s h by (cases kind) (auto simp: flag_arg_def split: option.splits)
qed

definition config_args :: "Config \<Rightarrow> string list" where
  "config_args conf =
     [flag_arg ''kubeconfig'' (conf_KubeConfig conf), flag_arg ''endpoint'' (conf_Endpoint conf),
      flag_arg ''nodeid'' (conf_NodeID conf), flag_arg ''metastorename'' (conf_MetaConfigMapName conf),
      flag_arg ''metastorenamespace'' (conf_MetaConfigMapNamespace conf), flag_arg ''pluginpath'' (conf_PluginPath conf),
      flag_arg ''histogramoption'' (conf_HistogramOption conf),
      flag_arg ''controllerserver'' (FormatBool (conf_IsControllerServer conf)),
      flag_arg ''nodeserver'' (FormatBool (conf_IsNodeServer conf))]"

text \<open>
  A switch takes its value after an equals sign only: in \<open>-nodeserver true -nodeid n1\<close> the word
  \<open>true\<close> ends the flags, and the node ID keeps its default.
\<close>

lemma switch_value_ends_flags:
  assumes "klog_flags ''logtostderr'' = Some BoolFlag" "klog_flags ''v'' = Some (OtherFlag (\<lambda>_. True))"
  shows "\<exists>conf. csi_init klog_flags [''-nodeserver'', ''true'', ''-nodeid'', ''n1''] = Inr conf \<and>
    conf_IsNodeServer conf \<and> conf_NodeID conf = ''''"
  using assms
  by (simp add: csi_init_def init_flags_def flag_Set_def csi_flags_def split_flag_def ParseBool_def FormatBool_def
      flag_string_def map_add_def Let_def)

text \<open>The profiling routes could be added to those of the extender: no path clashes.\<close>

lemma pprof_fits: "AddPProf [(''GET'', ''/version'')] \<noteq> None"
  by (simp add: AddPProf_def pprof_routes_def router_handle_def)

section \<open>Properties\<close>

text \<open>
  C37. The command line round-trips: for every configuration, the plugin started with the arguments
  that spell it out (\<open>-name=value\<close> for every flag) runs with exactly that configuration; the settings that
  have no flag are zero. The flags of klog need only accept the two defaults the program gives them.
\<close>

theorem config_roundtrip:
  assumes "klog_flags ''logtostderr'' = Some BoolFlag" "klog_flags ''v'' = Some (OtherFlag accepts)" "accepts ''2''"
  shows "csi_init klog_flags (config_args conf) =
    Inr (conf\<lparr>conf_DriverName := '''', conf_MetricsPath := '''', conf_PollTime := 0, conf_PoolTimeout := 0\<rparr>)"
proof -
  let ?formal = "klog_flags ++ csi_flags"
  have k: "csi_flags ''logtostderr'' = None" "csi_flags ''v'' = None" by (simp_all add: csi_flags_def)
  have s: "?formal n = Some StringFlag" if "n \<in> set [''kubeconfig'', ''endpoint'', ''nodeid'', ''metastorename'',
       ''metastorenamespace'', ''pluginpath'', ''histogramoption'']" for n
    using that by (auto simp: csi_flags_def map_add_def)
  have b: "?formal n = Some BoolFlag" if "n \<in> set [''controllerserver'', ''nodeserver'']" for n
    using that by (auto simp: csi_flags_def map_add_def)
  have p: "parse_flags ?formal (flag_arg n v # args) vals = parse_flags ?formal args (vals(n \<mapsto> v))"
    if "n \<in> set [''kubeconfig'', ''endpoint'', ''nodeid'', ''metastorename'',
       ''metastorenamespace'', ''pluginpath'', ''histogramoption'']" for n v args vals
    using that by (intro parse_flag_arg [where kind = StringFlag] s) auto
  have q: "parse_flags ?formal (flag_arg n (FormatBool x) # args) vals = parse_flags ?formal args (vals(n \<mapsto> FormatBool x))"
    if "n \<in> set [''controllerserver'', ''nodeserver'']" for n x args vals
    using that by (intro parse_flag_arg [where kind = BoolFlag] b) auto
  let ?vals = "fold (\<lambda>(n, v) vals. vals(n \<mapsto> v)) [(''logtostderr'', ''true''), (''v'', ''2''), (''kubeconfig'', conf_KubeConfig conf),
        (''endpoint'', conf_Endpoint conf), (''nodeid'', conf_NodeID conf), (''metastorename'', conf_MetaConfigMapName conf),
        (''metastorenamespace'', conf_MetaConfigMapNamespace conf), (''pluginpath'', conf_PluginPath conf),
        (''histogramoption'', conf_HistogramOption conf), (''controllerserver'', FormatBool (conf_IsControllerServer conf)),
        (''nodeserver'', FormatBool (conf_IsNodeServer conf))] Map.empty"
  have "Option.bind (flag_Set ?formal ''logtostderr'' ''true'' Map.empty) (flag_Set ?formal ''v'' ''2'') =
      Some [''logtostderr'' \<mapsto> ''true'', ''v'' \<mapsto> ''2'']"
    using assms k by (simp add: flag_Set_def map_add_def ParseBool_def FormatBool_def)
  moreover have "parse_flags ?formal (config_args conf) [''logtostderr'' \<mapsto> ''true'', ''v'' \<mapsto> ''2''] = Inr (?vals, [])"
    by (simp add: config_args_def p q del: parse_flags.simps(2))
  ultimately have "init_flags klog_flags csi_flags (config_args conf) = Inr ?vals" by (simp add: init_flags_def)
  then show ?thesis by (simp add: csi_init_def flag_string_def FormatBool_def)
qed

theorem config_roundtrip_witness:
  "csi_init [''logtostderr'' \<mapsto> BoolFlag, ''v'' \<mapsto> OtherFlag (\<lambda>x. x = ''2'')] (config_args conf0) = Inr conf0"
  using config_roundtrip [of "[''logtostderr'' \<mapsto> BoolFlag, ''v'' \<mapsto> OtherFlag (\<lambda>x. x = ''2'')]" "\<lambda>x. x = ''2''" conf0]
  by (simp add: conf0_def)

lemma fatal_ends: "klog_exit (klog_print FatalSev m l) = Some 255 \<and> fst (last (klog_lines (klog_print FatalSev m l))) = FatalSev"
  by (simp add: klog_print_def)

lemma info_goes_on: "klog_exit (DefaultLog m args l) = klog_exit l"
  by (simp add: DefaultLog_def klog_print_def Let_def)

lemma client_or_fatal:
  assumes "getK8sClient cg kubeConfig l = (r, l')"
  shows "case r of None \<Rightarrow> klog_exit l' = Some 255 \<and> fst (last (klog_lines l')) = FatalSev | Some _ \<Rightarrow> l' = l"
  using assms fatal_ends by (auto simp: getK8sClient_def FatalLogMsg_def split: sum.splits if_splits)

lemma serve_end_cases:
  assumes "serve_end show_os res l = (e, l')"
  shows "(\<exists>proto addr services. res = Serving proto addr services \<and> e = ServingCSI proto addr services \<and> l' = l) \<or>
    e = Fatal \<and> klog_exit l' = Some 255 \<and> fst (last (klog_lines l')) = FatalSev \<or> res = BucketsPanic \<and> e = Panicked \<and> l' = l"
  using assms fatal_ends by (cases res) (auto simp: serve_end_def)

lemma run_no_buckets: "Run sys capi n conf version w k = (Inr res, w', k') \<Longrightarrow> res \<noteq> BucketsPanic"
  by (auto simp: Run_def serve_def Let_def split: prod.splits sum.splits option.splits if_splits)

lemma run_serves_all:
  "Run sys capi n conf version w k = (Inr (Serving proto addr services), w', k') \<Longrightarrow>
   services = [IdentityService, ControllerService, NodeService]"
  by (auto simp: Run_def registered_def not_nil_def dest!: serve_registers split: prod.splits sum.splits)


definition cg0 :: "(unit, unit) client_go" where
  "cg0 = \<lparr>cg_BuildConfigFromFlags = (\<lambda>_. Inl ''no such file''), cg_InClusterConfig = Inr (), cg_NewForConfig = (\<lambda>_. Inr ())\<rparr>"


text \<open>Without a node ID, which has no default, the plugin ends at once.\<close>

lemma no_node_id_fatal:
  assumes "conf_NodeID conf = ''''"
  shows "fst (csi_main cg sys capi n show_api show_os conf version w k l) = Fatal"
proof -
  have "Run sys (capi c) n conf version w k = (Inl NoDriver, w, k)" for c
    by (simp add: Run_def fail_without_node_id [OF assms])
  then show ?thesis by (simp add: csi_main_def Let_def split: prod.split option.split)
qed

text \<open>
  Whether one of the events makes an informer panic, and the events up to the end of the waiting (the
  time-out or the first tick at which everything is in sync).
\<close>

definition crash_in :: "json \<Rightarrow> sync_event list \<Rightarrow> bool" where
  "crash_in js events \<longleftrightarrow> (\<exists>ev. Delivered ev \<in> set events \<and> event_panics js ev NewHostPathControl)"

fun until_synced :: "sync_event list \<Rightarrow> sync_event list" where
  "until_synced [] = []"
| "until_synced (Timeout # _) = []"
| "until_synced (Tick pods nodes pvs # rest) =
     (if pods \<and> nodes \<and> pvs then [] else Tick pods nodes pvs # until_synced rest)"
| "until_synced (Delivered ev # rest) = Delivered ev # until_synced rest"

lemma crash_in_simps [simp]:
  "\<not> crash_in js []" "crash_in js (Timeout # events) = crash_in js events"
  "crash_in js (Tick p n v # events) = crash_in js events"
  "crash_in js (Delivered ev # events) \<longleftrightarrow> event_panics js ev NewHostPathControl \<or> crash_in js events"
  by (auto simp: crash_in_def)

lemma until_synced_crash: "crash_in js (until_synced events) \<Longrightarrow> crash_in js events"
  by (induction events rule: until_synced.induct) (auto split: if_splits)

lemma informers_panic_crash: "informers_panic js events hpc \<longleftrightarrow> crash_in js events"
proof (induction js events hpc rule: informers_panic.induct)
  case (2 js ev events hpc)
  then show ?case using event_panics_cache [of js ev hpc NewHostPathControl] by simp
qed simp_all

lemma still_waiting: "waitForResourceSynced events = None \<Longrightarrow> until_synced events = events"
  by (induction events rule: until_synced.induct) (auto split: if_splits)

lemma unsynced_empty: "unsynced pods nodes pvs = [] \<longleftrightarrow> pods \<and> nodes \<and> pvs"
  by (simp add: unsynced_def)

text \<open>How \<open>Run\<close> ends, and what is left of the events.\<close>

lemma control_Run_waits:
  "control_Run js show_list events hpc l = (res, rest, hpc', l') \<Longrightarrow>
   klog_exit l' = klog_exit l \<and>
   res = (if crash_in js (until_synced events) then RunPanics
          else case waitForResourceSynced events of
                 None \<Rightarrow> RunWaiting
               | Some ok \<Rightarrow> RunDone (if ok then None else Some ''timeout waiting for initialization'')) \<and>
   (res \<noteq> RunPanics \<longrightarrow> (crash_in js events \<longleftrightarrow> crash_in js rest)) \<and>
   (waitForResourceSynced events = None \<longrightarrow> until_synced events = events)"
proof (induction js show_list events hpc l rule: control_Run.induct)
  case (3 js show_list pods nodes pvs events hpc l)
  show ?case
  proof (cases "unsynced pods nodes pvs = []")
    case True
    then have "pods" "nodes" "pvs" by (simp_all add: unsynced_empty)
    then show ?thesis using "3.prems" True by (auto simp: info_goes_on)
  next
    case False
    then have n: "\<not> (pods \<and> nodes \<and> pvs)" by (simp add: unsynced_empty)
    have "control_Run js show_list events hpc
        (DebugLogMsg ''Waiting for %v to be initialized...'' [show_list (unsynced pods nodes pvs)] l) = (res, rest, hpc', l')"
      using "3.prems" False by simp
    from "3.IH" [OF False this] show ?thesis
      unfolding until_synced.simps waitForResourceSynced.simps if_not_P [OF n] crash_in_simps
      by (simp add: log_defs klog_print_def Let_def)
  qed
next
  case (4 js show_list ev events hpc l)
  note e = event_panics_cache [of js ev hpc NewHostPathControl]
  show ?case
  proof (cases "event_panics js ev hpc")
    case True
    then show ?thesis using 4(2) e still_waiting [of events] by auto
  next
    case False
    then show ?thesis using 4(1) [OF False] 4(2) e by simp
  qed
qed auto

lemma plugins_init: "Init hpc (predicateList js) = None" "Init hpc (prioritizeList js) = None" "Init hpc (bindList api) = None"
  by (simp_all add: predicateList_def prioritizeList_def bindList_def Register_def)

lemma initAll_agrees:
  "fst (extender_initAll hpc mv ps ss bs l) = None \<longleftrightarrow> initAll hpc ps ss bs = None"
  by (simp add: extender_initAll_def initAll_def predicate_Init_def prioritize_Init_def Let_def split: option.split)

lemma initAll_works: "\<exists>l'. extender_initAll hpc mv (predicateList js) (prioritizeList js) (bindList api) l = (None, l') \<and> klog_exit l' = klog_exit l"
  by (simp add: extender_initAll_def predicate_Init_def prioritize_Init_def plugins_init info_goes_on Let_def)

lemma routes_ok:
  "\<exists>l'. extender_routes js api l = (Some [(''GET'', ''/version''), (''POST'', ''/scheduler/predicates/hostpathpvdiskpressure''),
     (''POST'', ''/scheduler/priorities/hostpathpvdiskuse''), (''POST'', ''/scheduler/bind/hostpathpvbind'')], l') \<and>
     klog_exit l' = klog_exit l"
  by (simp add: extender_routes_def predicate_AddRoute_def prioritize_AddRoute_def router_handle_def AddRoute_def
      predicateList_def prioritizeList_def bindList_def Register_def
      predicatesPath_def prioritiesPath_def bindsPath_def info_goes_on Let_def)

lemma same_client: "extender_getK8sClient = getK8sClient"
  by (simp add: extender_getK8sClient_def getK8sClient_def fun_eq_iff)


lemma pv7_converts: "\<exists>p. ToPersistentVolume json0 pv7 = Some (Inr p)"
  by (simp add: ToPersistentVolume_def toPersistentVolume_def ToHostPathVolume_def pv7_def isHostPathPV_def isEphemeral_def
      vol7_decoded getHostPathPVUsageInfo_def annotation_def Let_def)

definition kube_of_unit :: "unit \<Rightarrow> CorePV list kube" where
  "kube_of_unit _ = pv_kube"


end
