(* ===== verification/Server_Lifecycle.thy ===== *)
theory Server_Lifecycle
  imports Driver
begin

text \<open>
  The life of the gRPC server, \<open>nonBlockingGRPCServer\<close> of pkg/csi-plugin/csi-common/server.go: the main
  goroutine starts the server and waits, the goroutine of \<open>serve\<close> prepares, registers and accepts
  connections, and some other goroutine may stop the server. Of \<open>grpc.Server\<close> it is used that \<open>Serve\<close> returns
  an error unless \<open>Stop\<close> or \<open>GracefulStop\<close> was called while it was running. The three goroutines
  interleave freely.
\<close>

section \<open>The server\<close>

text \<open>A \<open>grpc.Server\<close> is stopped or not; \<open>gs_server\<close> is nil until \<open>serve\<close> has set it.\<close>

record nonBlockingGRPCServer =
  gs_wg :: int
  gs_server :: "bool option"

definition NewNonBlockingGRPCServer :: nonBlockingGRPCServer where
  "NewNonBlockingGRPCServer = \<lparr>gs_wg = 0, gs_server = None\<rparr>"

definition server_Start :: "nonBlockingGRPCServer \<Rightarrow> nonBlockingGRPCServer" where
  "server_Start s = s\<lparr>gs_wg := gs_wg s + 1\<rparr>"

text \<open>Whether \<open>Wait\<close> returns in this state; otherwise it blocks.\<close>

definition server_Wait :: "nonBlockingGRPCServer \<Rightarrow> bool" where
  "server_Wait s \<longleftrightarrow> gs_wg s = 0"

text \<open>\<open>None\<close> is the panic of a method call on the nil server.\<close>

definition server_Stop :: "nonBlockingGRPCServer \<Rightarrow> nonBlockingGRPCServer option" where
  "server_Stop s = (case gs_server s of None \<Rightarrow> None | Some _ \<Rightarrow> Some (s\<lparr>gs_server := Some True\<rparr>))"

definition server_ForceStop :: "nonBlockingGRPCServer \<Rightarrow> nonBlockingGRPCServer option" where
  "server_ForceStop s = (case gs_server s of None \<Rightarrow> None | Some _ \<Rightarrow> Some (s\<lparr>gs_server := Some True\<rparr>))"

section \<open>The goroutines\<close>

datatype main_phase = Main_starting | Main_waiting | Main_returned

datatype serve_phase =
    Serve_absent | Serve_preparing | Serve_registered string string "service list"
  | Serve_accepting string string "service list" | Serve_returned

datatype process_end = Alive | Ended_fatal | Ended_panic

record server_process =
  pr_server :: nonBlockingGRPCServer
  pr_main :: main_phase
  pr_serve :: serve_phase
  pr_end :: process_end

text \<open>
  \<open>Start\<close> and \<open>Wait\<close> of the main goroutine as \<open>Run...PublishServer\<close> calls them; the goroutine of \<open>serve\<close>, of
  which \<open>res\<close> is the outcome up to the call of \<open>Serve\<close>; and the stops. A fatal message or a panic
  ends the process with all its goroutines.
\<close>

inductive server_step :: "serve_result \<Rightarrow> server_process \<Rightarrow> server_process \<Rightarrow> bool" for res :: serve_result where
  start: "pr_end s = Alive \<Longrightarrow> pr_main s = Main_starting \<Longrightarrow>
    server_step res s (s\<lparr>pr_server := server_Start (pr_server s), pr_main := Main_waiting, pr_serve := Serve_preparing\<rparr>)"
| wait: "pr_end s = Alive \<Longrightarrow> pr_main s = Main_waiting \<Longrightarrow> server_Wait (pr_server s) \<Longrightarrow>
    server_step res s (s\<lparr>pr_main := Main_returned\<rparr>)"
| prepared: "pr_end s = Alive \<Longrightarrow> pr_serve s = Serve_preparing \<Longrightarrow> res = Serving proto addr services \<Longrightarrow>
    server_step res s (s\<lparr>pr_server := (pr_server s)\<lparr>gs_server := Some False\<rparr>, pr_serve := Serve_registered proto addr services\<rparr>)"
| not_prepared: "pr_end s = Alive \<Longrightarrow> pr_serve s = Serve_preparing \<Longrightarrow> (\<And>proto addr services. res \<noteq> Serving proto addr services) \<Longrightarrow>
    server_step res s (s\<lparr>pr_end := (if res = BucketsPanic then Ended_panic else Ended_fatal)\<rparr>)"
| accepting: "pr_end s = Alive \<Longrightarrow> pr_serve s = Serve_registered proto addr services \<Longrightarrow> gs_server (pr_server s) = Some False \<Longrightarrow>
    server_step res s (s\<lparr>pr_serve := Serve_accepting proto addr services\<rparr>)"
| too_late: "pr_end s = Alive \<Longrightarrow> pr_serve s = Serve_registered proto addr services \<Longrightarrow> gs_server (pr_server s) = Some True \<Longrightarrow>
    server_step res s (s\<lparr>pr_end := Ended_fatal\<rparr>)"
| accept_failed: "pr_end s = Alive \<Longrightarrow> pr_serve s = Serve_accepting proto addr services \<Longrightarrow> gs_server (pr_server s) = Some False \<Longrightarrow>
    server_step res s (s\<lparr>pr_end := Ended_fatal\<rparr>)"
| accept_stopped: "pr_end s = Alive \<Longrightarrow> pr_serve s = Serve_accepting proto addr services \<Longrightarrow> gs_server (pr_server s) = Some True \<Longrightarrow>
    server_step res s (s\<lparr>pr_serve := Serve_returned\<rparr>)"
| stop: "pr_end s = Alive \<Longrightarrow> server_Stop (pr_server s) = Some g \<or> server_ForceStop (pr_server s) = Some g \<Longrightarrow>
    server_step res s (s\<lparr>pr_server := g\<rparr>)"
| stop_panics: "pr_end s = Alive \<Longrightarrow> server_Stop (pr_server s) = None \<or> server_ForceStop (pr_server s) = None \<Longrightarrow>
    server_step res s (s\<lparr>pr_end := Ended_panic\<rparr>)"

definition server_init :: server_process where
  "server_init = \<lparr>pr_server = NewNonBlockingGRPCServer, pr_main = Main_starting, pr_serve = Serve_absent, pr_end = Alive\<rparr>"

text \<open>
  Nothing calls \<open>Done\<close>, so the counter is one from the start on; the server is nil exactly until it is
  prepared; and a running process has only what \<open>serve\<close> found.
\<close>

fun serve_ok :: "serve_result \<Rightarrow> bool option \<Rightarrow> serve_phase \<Rightarrow> bool" where
  "serve_ok res g (Serve_registered proto addr services) \<longleftrightarrow> g \<noteq> None \<and> res = Serving proto addr services"
| "serve_ok res g (Serve_accepting proto addr services) \<longleftrightarrow> g \<noteq> None \<and> res = Serving proto addr services"
| "serve_ok res g Serve_returned \<longleftrightarrow> g = Some True"
| "serve_ok res g _ \<longleftrightarrow> g = None"

definition server_inv :: "serve_result \<Rightarrow> server_process \<Rightarrow> bool" where
  "server_inv res s \<longleftrightarrow>
     (case pr_main s of
        Main_starting \<Rightarrow> gs_wg (pr_server s) = 0 \<and> pr_serve s = Serve_absent
      | Main_waiting \<Rightarrow> gs_wg (pr_server s) = 1 \<and> pr_serve s \<noteq> Serve_absent
      | Main_returned \<Rightarrow> False) \<and>
     (pr_end s = Ended_fatal \<longrightarrow> pr_main s = Main_waiting) \<and> serve_ok res (gs_server (pr_server s)) (pr_serve s)"

lemma server_step_inv: "server_step res s s' \<Longrightarrow> server_inv res s \<Longrightarrow> server_inv res s'"
proof (induction rule: server_step.induct)
  case (stop s g)
  then obtain b where b: "gs_server (pr_server s) = Some b" "g = (pr_server s)\<lparr>gs_server := Some True\<rparr>"
    by (auto simp: server_Stop_def server_ForceStop_def split: option.splits)
  then show ?case using stop by (cases "pr_serve s") (auto simp: server_inv_def split: main_phase.splits)
qed (auto simp: server_inv_def server_Start_def server_Wait_def split: main_phase.splits)

lemma server_run_inv: "(server_step res)\<^sup>*\<^sup>* server_init s \<Longrightarrow> server_inv res s"
proof (induction rule: rtranclp_induct)
  case base
  show ?case by (simp add: server_inv_def server_init_def NewNonBlockingGRPCServer_def)
next
  case (step s s')
  then show ?case by (blast intro: server_step_inv)
qed

text \<open>
  In every run, \<open>Wait\<close> never returns, although it is documented to wait for the service to stop: not
  even after the server has been stopped and \<open>serve\<close> has returned. So the plugin ends by a fatal message
  or a panic only, and while it accepts connections it offers exactly the services \<open>serve\<close> registered.
\<close>

lemma wait_never_returns:
  assumes "(server_step res)\<^sup>*\<^sup>* server_init s"
  shows "pr_main s \<noteq> Main_returned" "pr_main s = Main_waiting \<Longrightarrow> \<not> server_Wait (pr_server s)"
    "pr_serve s = Serve_accepting proto addr services \<Longrightarrow> res = Serving proto addr services"
  using server_run_inv [OF assms] by (auto simp: server_inv_def server_Wait_def split: main_phase.splits)

text \<open>The server is stopped, \<open>serve\<close> has returned, the process lives on and \<open>Wait\<close> still blocks.\<close>

lemma stopped_server_hangs:
  "\<exists>s. (server_step (Serving proto addr services))\<^sup>*\<^sup>* server_init s \<and> pr_serve s = Serve_returned \<and> pr_end s = Alive \<and>
     \<not> server_Wait (pr_server s)"
proof -
  let ?R = "server_step (Serving proto addr services)"
  let ?g = "\<lambda>b. \<lparr>gs_wg = 1, gs_server = b\<rparr>"
  let ?s = "\<lambda>b ph. \<lparr>pr_server = ?g b, pr_main = Main_waiting, pr_serve = ph, pr_end = Alive\<rparr>"
  have "?R server_init (?s None Serve_preparing)"
    using server_step.start [of server_init "Serving proto addr services"]
    by (simp add: server_init_def server_Start_def NewNonBlockingGRPCServer_def)
  moreover have "?R (?s None Serve_preparing) (?s (Some False) (Serve_registered proto addr services))"
    using server_step.prepared [of "?s None Serve_preparing"] by simp
  moreover have "?R (?s (Some False) (Serve_registered proto addr services)) (?s (Some False) (Serve_accepting proto addr services))"
    using server_step.accepting [of "?s (Some False) (Serve_registered proto addr services)"] by simp
  moreover have "?R (?s (Some False) (Serve_accepting proto addr services)) (?s (Some True) (Serve_accepting proto addr services))"
    using server_step.stop [of "?s (Some False) (Serve_accepting proto addr services)" "?g (Some True)"] by (simp add: server_Stop_def)
  moreover have "?R (?s (Some True) (Serve_accepting proto addr services)) (?s (Some True) Serve_returned)"
    using server_step.accept_stopped [of "?s (Some True) (Serve_accepting proto addr services)"] by simp
  ultimately have "?R\<^sup>*\<^sup>* server_init (?s (Some True) Serve_returned)" by (meson converse_rtranclp_into_rtranclp r_into_rtranclp)
  then show ?thesis by (intro exI [of _ "?s (Some True) Serve_returned"]) (simp add: server_Wait_def)
qed

text \<open>A stop that comes before \<open>serve\<close> has set the server panics.\<close>

lemma early_stop_panics:
  assumes "(server_step res)\<^sup>*\<^sup>* server_init s" "pr_serve s = Serve_preparing"
  shows "server_Stop (pr_server s) = None" "server_ForceStop (pr_server s) = None"
  using server_run_inv [OF assms(1)] assms(2) by (auto simp: server_inv_def server_Stop_def server_ForceStop_def)

end
