(* ===== verification/Object_Meta.thy ===== *)
theory Object_Meta
  imports Host_Path_Control
begin

text \<open>
  The metadata interface of the cached objects, pkg/hostpathclient/object.go and the accessors of
  pod.go, node.go and persistentVolume.go. client-go sees a cached object through this interface: an
  object answers for its own fields, and the embedded \<open>Empty\<close> for all others.
\<close>

section \<open>object.go\<close>

datatype meta_field =
    Namespace | Name | ResourceVersion | UID | GenerateName | Generation | SelfLink | CreationTimestamp
  | DeletionTimestamp | DeletionGracePeriodSeconds | Labels | Annotations | Finalizers | OwnerReferences
  | ClusterName | ManagedFields

text \<open>A value of the interface; times are seconds since the zero time, and pointers may be nil.\<close>

datatype meta_value =
    Text string | Int64 int | Time int | TimePtr "int option" | Int64Ptr "int option"
  | StringMap "(string \<times> string) list option" | Slice "string list option"

text \<open>\<open>Empty\<close> has no namespace, name and version: every object has its own.\<close>

fun Empty_Get :: "meta_field \<Rightarrow> meta_value option" where
  "Empty_Get GenerateName = Some (Text '''')"
| "Empty_Get UID = Some (Text '''')"
| "Empty_Get Generation = Some (Int64 0)"
| "Empty_Get SelfLink = Some (Text '''')"
| "Empty_Get CreationTimestamp = Some (Time 0)"
| "Empty_Get DeletionTimestamp = Some (TimePtr (Some 0))"
| "Empty_Get DeletionGracePeriodSeconds = Some (Int64Ptr None)"
| "Empty_Get Labels = Some (StringMap None)"
| "Empty_Get Annotations = Some (StringMap None)"
| "Empty_Get Finalizers = Some (Slice None)"
| "Empty_Get OwnerReferences = Some (Slice None)"
| "Empty_Get ClusterName = Some (Text '''')"
| "Empty_Get ManagedFields = Some (Slice None)"
| "Empty_Get Namespace = None"
| "Empty_Get Name = None"
| "Empty_Get ResourceVersion = None"

section \<open>The accessors of the objects\<close>

fun pod_Get :: "meta_field \<Rightarrow> Pod \<Rightarrow> meta_value option" where
  "pod_Get Namespace p = Some (Text (hp_namespace p))"
| "pod_Get Name p = Some (Text (hp_name p))"
| "pod_Get ResourceVersion p = Some (Text (hp_version p))"
| "pod_Get UID p = Some (Text (hp_UID p))"
| "pod_Get f p = Empty_Get f"

fun node_Get_meta :: "meta_field \<Rightarrow> Node \<Rightarrow> meta_value option" where
  "node_Get_meta Namespace h = Some (Text (hn_namespace h))"
| "node_Get_meta Name h = Some (Text (hn_name h))"
| "node_Get_meta ResourceVersion h = Some (Text (hn_version h))"
| "node_Get_meta f h = Empty_Get f"

fun pv_Get_meta :: "meta_field \<Rightarrow> PersistentVolume \<Rightarrow> meta_value option" where
  "pv_Get_meta Namespace p = Some (Text (hpv_namespace p))"
| "pv_Get_meta Name p = Some (Text (hpv_name p))"
| "pv_Get_meta ResourceVersion p = Some (Text (hpv_version p))"
| "pv_Get_meta f p = Empty_Get f"

text \<open>The setters of the interface have empty bodies, those of \<open>Empty\<close> and those of the objects.\<close>

definition Empty_Set :: "meta_field \<Rightarrow> meta_value \<Rightarrow> 'o \<Rightarrow> 'o" where
  "Empty_Set f v h = h"

text \<open>The setters of a volume that do something, besides \<open>hpv_SetUsage\<close>.\<close>

definition SetBindNodeName :: "string \<Rightarrow> PersistentVolume \<Rightarrow> PersistentVolume" where
  "SetBindNodeName node p = p\<lparr>hpv_bindNode := node\<rparr>"

definition SetVolumePath :: "string \<Rightarrow> PersistentVolume \<Rightarrow> PersistentVolume" where
  "SetVolumePath volumePath p = p\<lparr>hpv_volumePath := volumePath\<rparr>"

section \<open>The interface\<close>

text \<open>
  What client-go relies on: an object has a text for the three fields it is filed under, and the
  setters leave it where it is filed.
\<close>

locale meta_object =
  fixes get :: "meta_field \<Rightarrow> 'o \<Rightarrow> meta_value option" and set_meta :: "meta_field \<Rightarrow> meta_value \<Rightarrow> 'o \<Rightarrow> 'o"
    and namespace name version :: "'o \<Rightarrow> string"
  assumes get_own: "get Namespace x = Some (Text (namespace x))" "get Name x = Some (Text (name x))"
      "get ResourceVersion x = Some (Text (version x))"
    and answers: "get f x \<noteq> None"
    and set_keeps: "get f' (set_meta f v x) = get f' x"
begin

lemma key_kept:
  "MetaNamespaceKeyFunc (namespace (fold (\<lambda>(f, v). set_meta f v) updates x)) (name (fold (\<lambda>(f, v). set_meta f v) updates x)) =
   MetaNamespaceKeyFunc (namespace x) (name x)"
proof -
  have "get f (fold (\<lambda>(f, v). set_meta f v) updates x) = get f x" for f
    using set_keeps by (induction updates arbitrary: x) auto
  from this [of Namespace] this [of Name] show ?thesis by (simp add: get_own)
qed

end

interpretation pod_meta: meta_object pod_Get Empty_Set hp_namespace hp_name hp_version
proof
  show "pod_Get f x \<noteq> None" for f x by (cases f) simp_all
qed (simp_all add: Empty_Set_def)

interpretation node_meta: meta_object node_Get_meta Empty_Set hn_namespace hn_name hn_version
proof
  show "node_Get_meta f x \<noteq> None" for f x by (cases f) simp_all
qed (simp_all add: Empty_Set_def)

interpretation pv_meta: meta_object pv_Get_meta Empty_Set hpv_namespace hpv_name hpv_version
proof
  show "pv_Get_meta f x \<noteq> None" for f x by (cases f) simp_all
qed (simp_all add: Empty_Set_def)

section \<open>Facts\<close>

text \<open>A usage that is set is read back, also when it does not fit into the int64 that holds it.\<close>

lemma usage_roundtrip: "hpv_GetUsage (hpv_SetUsage u p) = u"
proof -
  have "uint (word_of_int (i64 (uint u)) :: u64) = uint u"
    using uint_lt2p [of u] uint_ge_0 [of u] by (simp only: uint_word_of_int i64_def) (simp add: mod_diff_left_eq)
  then show ?thesis by (simp add: hpv_GetUsage_def hpv_SetUsage_def u64_of_i64_def i64_of_u64_def word_uint_eq_iff)
qed

text \<open>Metadata never moves a volume in the cache: the key it is filed under is the one it came with.\<close>

lemma volume_key_kept: "pv_key (fold (\<lambda>(f, v). Empty_Set f v) updates p) = pv_key p"
  unfolding pv_key_def by (rule pv_meta.key_kept)

text \<open>
  Every cached object looks deleted: its deletion timestamp is a pointer to the zero time instead of
  nil, which is what an object that is not being deleted has.
\<close>

lemma cached_objects_look_deleted:
  "pod_Get DeletionTimestamp p = Some (TimePtr (Some 0)) \<and> node_Get_meta DeletionTimestamp h = Some (TimePtr (Some 0)) \<and>
   pv_Get_meta DeletionTimestamp v = Some (TimePtr (Some 0))"
  by simp

end
