(* ===== verification/Timer_Loop.thy ===== *)
theory Timer_Loop
  imports Prelude
begin

text \<open>
  The timer loop of pkg/csi-plugin/hostpath/syncworker.go in steps: \<open>JitterUntil\<close> with the timer it re-uses
  (\<open>resetOrReuseTimer\<close>), while the runtime fires the timer and somebody may close the stop channel. The
  questions are whether the loop can get stuck on the timer's channel, how often it runs its function,
  and whether it goes on running it for ever and ends when it is told to. (In the plugin nobody closes the channel.) The
  function is one step, so it is taken to return; its panic would end the process.
\<close>

section \<open>The timer\<close>

text \<open>A timer: whether it is running, and whether its channel (which holds one value) has a value.\<close>

record timer =
  tm_armed :: bool
  tm_fired :: bool

text \<open>
  \<open>Stop\<close> tells whether the timer was running. If it was not and its value has not been received, the
  channel is drained first; \<open>None\<close> is blocking for ever on an empty channel.
\<close>

definition resetOrReuseTimer :: "timer option \<Rightarrow> bool \<Rightarrow> timer option" where
  "resetOrReuseTimer t sawTimeout =
     (case t of
        None \<Rightarrow> Some \<lparr>tm_armed = True, tm_fired = False\<rparr>
      | Some t \<Rightarrow>
          if \<not> tm_armed t \<and> \<not> sawTimeout then
            (if tm_fired t then Some \<lparr>tm_armed = True, tm_fired = False\<rparr> else None)
          else Some (t\<lparr>tm_armed := True\<rparr>))"

section \<open>The loop\<close>

datatype loop_pc = AtTop | AtReset | AtSelect | Returned

record timer_loop =
  tl_pc :: loop_pc
  tl_timer :: "timer option"
  tl_saw :: bool
  tl_closed :: bool
  tl_runs :: nat
  tl_fires :: nat

definition loop_start :: timer_loop where
  "loop_start = \<lparr>tl_pc = AtTop, tl_timer = None, tl_saw = False, tl_closed = False, tl_runs = 0, tl_fires = 0\<rparr>"

text \<open>A step of the loop, or the timer firing. The run of the function is one step.\<close>

inductive loop_step :: "timer_loop \<Rightarrow> timer_loop \<Rightarrow> bool" where
  fire: "tl_timer s = Some t \<Longrightarrow> tm_armed t \<Longrightarrow>
    loop_step s (s\<lparr>tl_timer := Some \<lparr>tm_armed = False, tm_fired = True\<rparr>, tl_fires := Suc (tl_fires s)\<rparr>)"
| stop_top: "tl_pc s = AtTop \<Longrightarrow> tl_closed s \<Longrightarrow> loop_step s (s\<lparr>tl_pc := Returned\<rparr>)"
| run: "tl_pc s = AtTop \<Longrightarrow> \<not> tl_closed s \<Longrightarrow> loop_step s (s\<lparr>tl_pc := AtReset, tl_runs := Suc (tl_runs s)\<rparr>)"
| reset: "tl_pc s = AtReset \<Longrightarrow> resetOrReuseTimer (tl_timer s) (tl_saw s) = Some t \<Longrightarrow>
    loop_step s (s\<lparr>tl_pc := AtSelect, tl_timer := Some t\<rparr>)"
| stop_select: "tl_pc s = AtSelect \<Longrightarrow> tl_closed s \<Longrightarrow> loop_step s (s\<lparr>tl_pc := Returned\<rparr>)"
| tick: "tl_pc s = AtSelect \<Longrightarrow> tl_timer s = Some t \<Longrightarrow> tm_fired t \<Longrightarrow>
    loop_step s (s\<lparr>tl_pc := AtTop, tl_timer := Some (t\<lparr>tm_fired := False\<rparr>), tl_saw := True\<rparr>)"

inductive timed_step :: "timer_loop \<Rightarrow> timer_loop \<Rightarrow> bool" where
  loop: "loop_step s s' \<Longrightarrow> timed_step s s'"
| close: "timed_step s (s\<lparr>tl_closed := True\<rparr>)"


section \<open>The invariant\<close>

text \<open>
  Before a reset there is no timer yet, or one whose value has been received; at the select the
  timer is running or its value is waiting. The loop has run once more than the timer has fired,
  except between the firing and the next run.
\<close>

definition idle_timer :: "timer_loop \<Rightarrow> bool" where
  "idle_timer s \<longleftrightarrow> tl_timer s = None \<or> tl_timer s = Some \<lparr>tm_armed = False, tm_fired = False\<rparr> \<and> tl_saw s"

fun timer_inv :: "timer_loop \<Rightarrow> bool" where
  "timer_inv s =
     (case tl_pc s of
        AtTop \<Rightarrow> idle_timer s \<and> tl_runs s = tl_fires s
      | AtReset \<Rightarrow> idle_timer s \<and> tl_runs s = Suc (tl_fires s)
      | AtSelect \<Rightarrow>
          tl_timer s = Some \<lparr>tm_armed = True, tm_fired = False\<rparr> \<and> tl_runs s = Suc (tl_fires s) \<or>
          tl_timer s = Some \<lparr>tm_armed = False, tm_fired = True\<rparr> \<and> tl_runs s = tl_fires s
      | Returned \<Rightarrow>
          tl_runs s = Suc (tl_fires s) \<or> tl_runs s = tl_fires s \<and> (\<forall>t. tl_timer s = Some t \<longrightarrow> \<not> tm_armed t))"

lemma start_inv: "timer_inv loop_start"
  by (simp add: loop_start_def idle_timer_def)

lemma reset_idle: "idle_timer s \<Longrightarrow> resetOrReuseTimer (tl_timer s) (tl_saw s) = Some \<lparr>tm_armed = True, tm_fired = False\<rparr>"
  by (auto simp: idle_timer_def resetOrReuseTimer_def)

lemma loop_step_inv: "loop_step s s' \<Longrightarrow> timer_inv s \<Longrightarrow> timer_inv s'"
proof (induction rule: loop_step.induct)
  case (fire s t)
  then show ?case by (cases "tl_pc s") (auto simp: idle_timer_def)
next
  case (stop_top s)
  then show ?case by (auto simp: idle_timer_def)
next
  case (reset s t)
  then show ?case by (auto simp: reset_idle)
next
  case (stop_select s)
  then show ?case by auto
qed (auto simp: idle_timer_def)

lemma timed_step_inv: "timed_step s s' \<Longrightarrow> timer_inv s \<Longrightarrow> timer_inv s'"
proof (induction rule: timed_step.induct)
  case (loop s s')
  then show ?case by (rule loop_step_inv)
next
  case (close s)
  then show ?case by (cases "tl_pc s") (auto simp: idle_timer_def)
qed

lemma reachable_inv: "timed_step\<^sup>*\<^sup>* loop_start s \<Longrightarrow> timer_inv s"
  by (induction rule: rtranclp_induct) (auto intro: timed_step_inv start_inv simp del: timer_inv.simps)

lemma inv_progress:
  assumes "timer_inv s" "tl_pc s \<noteq> Returned"
  shows "\<exists>s'. loop_step s s'"
proof (cases "tl_pc s")
  case AtTop
  then show ?thesis by (cases "tl_closed s") (auto intro: loop_step.stop_top loop_step.run)
next
  case AtReset
  then have "idle_timer s" using assms(1) by simp
  then show ?thesis using loop_step.reset [OF AtReset reset_idle] by blast
next
  case AtSelect
  then show ?thesis using assms(1) loop_step.fire [of s] loop_step.tick [of s] by auto
qed (use assms in simp)

section \<open>Endless runs\<close>

definition timed_run :: "(nat \<Rightarrow> timer_loop) \<Rightarrow> bool" where
  "timed_run \<sigma> \<longleftrightarrow> \<sigma> 0 = loop_start \<and> (\<forall>i. timed_step (\<sigma> i) (\<sigma> (Suc i)))"

text \<open>Weak fairness: if the loop or its timer can go on from some point on, one of them does.\<close>

definition fair_timing :: "(nat \<Rightarrow> timer_loop) \<Rightarrow> bool" where
  "fair_timing \<sigma> \<longleftrightarrow>
     (\<forall>i. (\<forall>j\<ge>i. \<exists>s'. loop_step (\<sigma> j) s') \<longrightarrow> (\<exists>j\<ge>i. loop_step (\<sigma> j) (\<sigma> (Suc j))))"

text \<open>How many steps the loop is at most from the top of its next turn.\<close>

fun loop_left :: "timer_loop \<Rightarrow> nat" where
  "loop_left s =
     (case tl_pc s of
        AtReset \<Rightarrow> 4
      | AtSelect \<Rightarrow> (case tl_timer s of Some t \<Rightarrow> if tm_armed t then 3 else 2 | None \<Rightarrow> 2)
      | AtTop \<Rightarrow> 1
      | Returned \<Rightarrow> 0)"

lemma closed_step:
  assumes "loop_step s s'" "timer_inv s" "tl_closed s" "tl_pc s \<noteq> Returned"
  shows "loop_left s' < loop_left s \<and> tl_closed s' \<and> tl_runs s' = tl_runs s"
  using assms
proof cases
  case (fire t)
  then show ?thesis using assms(2,4) by (cases "tl_pc s") (auto simp: idle_timer_def assms(3))
next
  case (reset t)
  then show ?thesis using assms(2,3) reset_idle [of s] by (auto split: option.splits)
next
  case (tick t)
  then show ?thesis using assms(2,3) by auto
qed (use assms(3) in \<open>auto split: option.splits\<close>)

lemma open_step:
  assumes "loop_step s s'" "timer_inv s" "\<not> tl_closed s" "tl_pc s \<noteq> Returned"
  shows "tl_runs s' = Suc (tl_runs s) \<or> loop_left s' < loop_left s \<and> tl_runs s' = tl_runs s"
  using assms
proof cases
  case (fire t)
  then show ?thesis using assms(2,4) by (cases "tl_pc s") (auto simp: idle_timer_def)
next
  case (reset t)
  then show ?thesis using assms(2) reset_idle [of s] by (auto split: option.splits)
next
  case (tick t)
  then show ?thesis using assms(2) by auto
qed (use assms(3) in auto)

lemma run_inv:
  assumes "timed_run \<sigma>"
  shows "timer_inv (\<sigma> i) \<and> (tl_pc (\<sigma> i) = Returned \<longrightarrow> tl_closed (\<sigma> i))"
proof (induction i)
  case 0
  then show ?case using assms start_inv by (simp add: timed_run_def loop_start_def)
next
  case (Suc i)
  have step: "timed_step (\<sigma> i) (\<sigma> (Suc i))" using assms by (simp add: timed_run_def)
  have "tl_pc s' = Returned \<longrightarrow> tl_closed s'" if "loop_step s s'" "tl_pc s = Returned \<longrightarrow> tl_closed s" for s s'
    using that by cases auto
  then have "tl_pc (\<sigma> (Suc i)) = Returned \<longrightarrow> tl_closed (\<sigma> (Suc i))"
    using step Suc by (auto elim!: timed_step.cases)
  then show ?case using timed_step_inv [OF step] Suc by blast
qed

text \<open>The next step of the loop or its timer; until then only the channel is closed.\<close>

lemma next_loop_step:
  assumes "timed_run \<sigma>" "fair_timing \<sigma>" "tl_pc (\<sigma> i) \<noteq> Returned"
  obtains j where "j \<ge> i" "loop_step (\<sigma> j) (\<sigma> (Suc j))" "\<sigma> j = \<sigma> i \<or> \<sigma> j = (\<sigma> i)\<lparr>tl_closed := True\<rparr>"
proof -
  have steps: "timed_step (\<sigma> k) (\<sigma> (Suc k))" for k using assms(1) by (simp add: timed_run_def)
  have stays: "\<sigma> k = \<sigma> i \<or> \<sigma> k = (\<sigma> i)\<lparr>tl_closed := True\<rparr>"
    if "i \<le> k" "\<And>j. i \<le> j \<Longrightarrow> j < k \<Longrightarrow> \<not> loop_step (\<sigma> j) (\<sigma> (Suc j))" for k
    using that
  proof (induction k rule: nat_induct_at_least)
    case (Suc k)
    have "\<not> loop_step (\<sigma> k) (\<sigma> (Suc k))" using Suc.prems Suc.hyps by simp
    then have "\<sigma> (Suc k) = (\<sigma> k)\<lparr>tl_closed := True\<rparr>" using steps [of k] by (auto elim: timed_step.cases)
    then show ?case using Suc by auto
  qed simp
  have ex: "\<exists>j. i \<le> j \<and> loop_step (\<sigma> j) (\<sigma> (Suc j))"
  proof (rule ccontr)
    assume none: "\<not> ?thesis"
    then have "tl_pc (\<sigma> k) \<noteq> Returned" if "i \<le> k" for k using stays [OF that] assms(3) by auto
    then have "\<forall>k\<ge>i. \<exists>s'. loop_step (\<sigma> k) s'" using inv_progress run_inv [OF assms(1)] by blast
    then show False using assms(2) none unfolding fair_timing_def by blast
  qed
  define j where "j = (LEAST j. i \<le> j \<and> loop_step (\<sigma> j) (\<sigma> (Suc j)))"
  have j: "i \<le> j" "loop_step (\<sigma> j) (\<sigma> (Suc j))" using LeastI_ex [OF ex] by (simp_all add: j_def)
  have "\<not> loop_step (\<sigma> k) (\<sigma> (Suc k))" if "i \<le> k" "k < j" for k using not_less_Least that unfolding j_def by blast
  then show ?thesis using that [OF j stays [OF j(1)]] by blast
qed


lemma returns_when_closed:
  assumes "timed_run \<sigma>" "fair_timing \<sigma>" "tl_closed (\<sigma> i)"
  shows "\<exists>j\<ge>i. tl_pc (\<sigma> j) = Returned \<and> tl_runs (\<sigma> j) = tl_runs (\<sigma> i)"
  using assms(3)
proof (induction "loop_left (\<sigma> i)" arbitrary: i rule: less_induct)
  case less
  show ?case
  proof (cases "tl_pc (\<sigma> i) = Returned")
    case False
    have same: "(\<sigma> i)\<lparr>tl_closed := True\<rparr> = \<sigma> i" using less.prems by (cases "\<sigma> i") simp
    obtain j where j: "j \<ge> i" "loop_step (\<sigma> j) (\<sigma> (Suc j))" "\<sigma> j = \<sigma> i"
      by (rule next_loop_step [OF assms(1,2) False]) (simp only: same disj_absorb)
    have "loop_left (\<sigma> (Suc j)) < loop_left (\<sigma> i) \<and> tl_closed (\<sigma> (Suc j)) \<and> tl_runs (\<sigma> (Suc j)) = tl_runs (\<sigma> i)"
      using closed_step [OF j(2)] run_inv [OF assms(1), of j] less.prems False unfolding j(3) by blast
    then show ?thesis using less.hyps [of "Suc j"] j(1) by (metis Suc_leD le_trans)
  qed auto
qed

lemma runs_again:
  assumes "timed_run \<sigma>" "fair_timing \<sigma>" "\<forall>i. \<not> tl_closed (\<sigma> i)"
  shows "\<exists>j\<ge>i. tl_runs (\<sigma> j) = Suc (tl_runs (\<sigma> i))"
proof (induction "loop_left (\<sigma> i)" arbitrary: i rule: less_induct)
  case less
  have pc: "tl_pc (\<sigma> i) \<noteq> Returned" using run_inv [OF assms(1)] assms(3) by blast
  obtain j where j: "j \<ge> i" "loop_step (\<sigma> j) (\<sigma> (Suc j))" "\<sigma> j = \<sigma> i \<or> \<sigma> j = (\<sigma> i)\<lparr>tl_closed := True\<rparr>"
    using next_loop_step [OF assms(1,2) pc] by blast
  have e: "\<sigma> j = \<sigma> i"
  proof (rule disjE [OF j(3)])
    assume "\<sigma> j = (\<sigma> i)\<lparr>tl_closed := True\<rparr>"
    then have "tl_closed (\<sigma> j)" by simp
    then show ?thesis using assms(3) by blast
  qed
  have "tl_runs (\<sigma> (Suc j)) = Suc (tl_runs (\<sigma> i)) \<or>
      loop_left (\<sigma> (Suc j)) < loop_left (\<sigma> i) \<and> tl_runs (\<sigma> (Suc j)) = tl_runs (\<sigma> i)"
    using open_step [OF j(2)] run_inv [OF assms(1), of j] assms(3) pc unfolding e by blast
  then show ?case using less.hyps [of "Suc j"] j(1) by (metis Suc_leD le_trans le_SucI)
qed

lemma runs_for_ever:
  assumes "timed_run \<sigma>" "fair_timing \<sigma>" "\<forall>i. \<not> tl_closed (\<sigma> i)"
  shows "\<exists>i. n \<le> tl_runs (\<sigma> i)"
proof (induction n)
  case (Suc n)
  then obtain i where "n \<le> tl_runs (\<sigma> i)" by blast
  then show ?case using runs_again [OF assms, of i] by (metis Suc_le_mono)
qed simp

section \<open>Properties\<close>

text \<open>
  C31. The timer loop never gets stuck and never runs ahead of its timer: in every interleaving with
  the timer and with the closing of the stop channel, a loop that has not returned can go on (in
  particular it never waits for a value of the timer that has already been received), and the function
  has run at most once more often than the timer has fired.
\<close>

theorem timer_loop_paced:
  assumes "timed_step\<^sup>*\<^sup>* loop_start s"
  shows "(tl_pc s = Returned \<or> (\<exists>s'. loop_step s s')) \<and> tl_runs s \<le> Suc (tl_fires s) \<and> tl_fires s \<le> tl_runs s"
proof -
  have i: "timer_inv s" using assms by (rule reachable_inv)
  have "tl_runs s \<le> Suc (tl_fires s) \<and> tl_fires s \<le> tl_runs s" using i by (cases "tl_pc s") auto
  then show ?thesis using inv_progress [OF i] by blast
qed

text \<open>The loop after its first run, with the timer set.\<close>

theorem timer_loop_paced_witness:
  "\<exists>s'. loop_step (loop_start\<lparr>tl_pc := AtSelect, tl_timer := Some \<lparr>tm_armed = True, tm_fired = False\<rparr>, tl_runs := 1\<rparr>) s'"
proof -
  let ?s1 = "loop_start\<lparr>tl_pc := AtReset, tl_runs := Suc (tl_runs loop_start)\<rparr>"
  let ?s2 = "?s1\<lparr>tl_pc := AtSelect, tl_timer := Some \<lparr>tm_armed = True, tm_fired = False\<rparr>\<rparr>"
  have "timed_step loop_start ?s1" by (rule timed_step.loop, rule loop_step.run) (simp_all add: loop_start_def)
  moreover have "timed_step ?s1 ?s2"
    by (rule timed_step.loop, rule loop_step.reset) (simp_all add: loop_start_def resetOrReuseTimer_def)
  ultimately have r: "timed_step\<^sup>*\<^sup>* loop_start ?s2" by (meson rtranclp.rtrancl_into_rtrancl rtranclp.rtrancl_refl)
  have "?s2 = loop_start\<lparr>tl_pc := AtSelect, tl_timer := Some \<lparr>tm_armed = True, tm_fired = False\<rparr>, tl_runs := 1\<rparr>"
    by (simp add: loop_start_def)
  then show ?thesis using timer_loop_paced [OF r] by (auto simp: loop_start_def)
qed


text \<open>The channel is closed after the first run, while the loop waits for its timer.\<close>

definition closing_run :: "nat \<Rightarrow> timer_loop" where
  "closing_run i =
     (let s1 = loop_start\<lparr>tl_pc := AtReset, tl_runs := 1\<rparr>;
          s2 = s1\<lparr>tl_pc := AtSelect, tl_timer := Some \<lparr>tm_armed = True, tm_fired = False\<rparr>\<rparr>;
          s3 = s2\<lparr>tl_closed := True\<rparr>;
          s4 = s3\<lparr>tl_pc := Returned\<rparr>;
          s5 = s4\<lparr>tl_timer := Some \<lparr>tm_armed = False, tm_fired = True\<rparr>, tl_fires := 1\<rparr>
      in if i = 0 then loop_start else if i = 1 then s1 else if i = 2 then s2 else if i = 3 then s3 else if i = 4 then s4 else s5)"

lemma closing_run_ok: "timed_run closing_run \<and> fair_timing closing_run"
proof
  note loops = timed_step.loop [OF loop_step.run] timed_step.loop [OF loop_step.reset] timed_step.loop [OF loop_step.stop_select]
    timed_step.loop [OF loop_step.fire]
  have "timed_step (closing_run 0) (closing_run 1)" "timed_step (closing_run 1) (closing_run 2)"
    "timed_step (closing_run 2) (closing_run 3)" "timed_step (closing_run 3) (closing_run 4)"
    "timed_step (closing_run 4) (closing_run 5)"
    using loops(1) [of loop_start] loops(2) [of "closing_run 1" "\<lparr>tm_armed = True, tm_fired = False\<rparr>"]
      timed_step.close [of "closing_run 2"] loops(3) [of "closing_run 3"]
      loops(4) [of "closing_run 4" "\<lparr>tm_armed = True, tm_fired = False\<rparr>"]
    by (simp_all add: closing_run_def loop_start_def resetOrReuseTimer_def)
  moreover have "timed_step (closing_run i) (closing_run (Suc i))" if "5 \<le> i" for i
    using that timed_step.close [of "closing_run i"] by (simp add: closing_run_def loop_start_def Let_def)
  ultimately have "timed_step (closing_run i) (closing_run (Suc i))" for i
  proof (cases "5 \<le> i")
    case False
    then have "i = 0 \<or> i = 1 \<or> i = 2 \<or> i = 3 \<or> i = 4" by arith
    then show ?thesis using \<open>timed_step (closing_run 0) (closing_run 1)\<close> \<open>timed_step (closing_run 1) (closing_run 2)\<close>
      \<open>timed_step (closing_run 2) (closing_run 3)\<close> \<open>timed_step (closing_run 3) (closing_run 4)\<close>
      \<open>timed_step (closing_run 4) (closing_run 5)\<close> by (auto simp: eval_nat_numeral)
  qed
  then show "timed_run closing_run" by (simp add: timed_run_def closing_run_def)
  have "\<not> loop_step (closing_run (i + 5)) s'" for i s'
    by (auto simp: closing_run_def loop_start_def elim!: loop_step.cases)
  then show "fair_timing closing_run" unfolding fair_timing_def by (metis le_add1)
qed


end
