(* ===== verification/Meta_Race.thy ===== *)
theory Meta_Race
  imports Meta_Store
begin

text \<open>
  Concurrent use of the meta store. \<open>AddMetaInfo\<close> and \<open>UnsetMetaInfo\<close> of metestore.go read the config
  map, change the copy and write it back: two requests to the API server, with no lock around them, so
  the requests of several handlers interleave. A step of the system here is one of the two requests
  of some handler. What saves the recorded IDs is the resource version that travels with the copy: the
  API server refuses a write whose version is no longer the current one.
\<close>

section \<open>The two halves of an operation\<close>

datatype meta_op = AddOp string | UnsetOp string

text \<open>What an operation does to its copy of the config map, and what it means for the recorded IDs.\<close>

fun edit_cm :: "meta_op \<Rightarrow> ConfigMap \<Rightarrow> ConfigMap" where
  "edit_cm (AddOp v) cm = cm\<lparr>cm_Data := Some ((case cm_Data cm of None \<Rightarrow> Map.empty | Some d \<Rightarrow> d)(v \<mapsto> ''''))\<rparr>"
| "edit_cm (UnsetOp v) cm = cm\<lparr>cm_Data := map_option (\<lambda>d. d(v := None)) (cm_Data cm)\<rparr>"

fun apply_op :: "meta_op \<Rightarrow> (string \<rightharpoonup> string) \<Rightarrow> string \<rightharpoonup> string" where
  "apply_op (AddOp v) d = d(v \<mapsto> '''')"
| "apply_op (UnsetOp v) d = d(v := None)"

fun run_op :: "'k cm_api \<Rightarrow> ConfigMapMetaStore \<Rightarrow> meta_op \<Rightarrow> 'k \<Rightarrow> apierr option \<times> 'k" where
  "run_op api c (AddOp v) k = AddMetaInfo api c v k"
| "run_op api c (UnsetOp v) k = UnsetMetaInfo api c v k"

text \<open>The handlers are exactly a read, the edit and a write.\<close>

lemma run_op_halves:
  "run_op api c m k =
     (case cm_Get api k (ms_cmNamespace c) (ms_cmName c) of
        Inl err \<Rightarrow> (Some err, k)
      | Inr cm \<Rightarrow> cm_Update api (ms_cmNamespace c) (edit_cm m cm) k)"
  by (cases m) (simp_all add: AddMetaInfo_def UnsetMetaInfo_def Let_def split: sum.split)

lemma edit_cm_simps [simp]:
  "cm_Name (edit_cm m cm) = cm_Name cm" "cm_Version (edit_cm m cm) = cm_Version cm"
  "go_map (cm_Data (edit_cm m cm)) = apply_op m (go_map (cm_Data cm))"
  by (cases m; cases "cm_Data cm"; simp add: go_map_def fun_eq_iff)+

section \<open>The system\<close>

text \<open>
  The cluster, the copies of the handlers that have read and not yet written, and the operations
  that have succeeded, in the order of their writes.
\<close>

record 'k meta_system =
  mt_cluster :: 'k
  mt_reading :: "nat \<rightharpoonup> meta_op \<times> ConfigMap"
  mt_done :: "meta_op list"

inductive meta_step :: "'k cm_api \<Rightarrow> ConfigMapMetaStore \<Rightarrow> 'k meta_system \<Rightarrow> 'k meta_system \<Rightarrow> bool"
  for api :: "'k cm_api" and c :: ConfigMapMetaStore where
  read: "mt_reading s i = None \<Longrightarrow> cm_Get api (mt_cluster s) (ms_cmNamespace c) (ms_cmName c) = Inr cm \<Longrightarrow>
    meta_step api c s (s\<lparr>mt_reading := (mt_reading s)(i \<mapsto> (m, cm))\<rparr>)"
| write_ok: "mt_reading s i = Some (m, cm) \<Longrightarrow>
    cm_Update api (ms_cmNamespace c) (edit_cm m cm) (mt_cluster s) = (None, k') \<Longrightarrow>
    meta_step api c s (s\<lparr>mt_cluster := k', mt_reading := (mt_reading s)(i := None), mt_done := mt_done s @ [m]\<rparr>)"
| write_error: "mt_reading s i = Some (m, cm) \<Longrightarrow>
    cm_Update api (ms_cmNamespace c) (edit_cm m cm) (mt_cluster s) = (Some e, k') \<Longrightarrow>
    meta_step api c s (s\<lparr>mt_cluster := k', mt_reading := (mt_reading s)(i := None)\<rparr>)"

inductive_cases meta_stepE: "meta_step api c s s'"

definition meta_init :: "'k \<Rightarrow> 'k meta_system" where
  "meta_init k = \<lparr>mt_cluster = k, mt_reading = Map.empty, mt_done = []\<rparr>"

text \<open>
  The optimistic concurrency of the API server: a write that carries a version succeeds only when the
  version is the current one, and then gives the object a later version; a write that fails changes
  nothing. (A version of 0 stands for the empty resource version of a new object, which is not checked.)
\<close>

definition api_versioned :: "'k cm_api \<Rightarrow> bool" where
  "api_versioned api \<longleftrightarrow>
     (\<forall>ns cm k k'. cm_Version cm \<noteq> 0 \<and> cm_Update api ns cm k = (None, k') \<longrightarrow>
        (\<exists>cur v. cm_Get api k ns (cm_Name cm) = Inr cur \<and> cm_Version cur = cm_Version cm \<and>
           cm_Version cm < v \<and> cm_Get api k' ns (cm_Name cm) = Inr (cm\<lparr>cm_Version := v\<rparr>))) \<and>
     (\<forall>ns cm k e k' name. cm_Update api ns cm k = (Some e, k') \<longrightarrow> cm_Get api k' ns name = cm_Get api k ns name) \<and>
     (\<forall>ns name cm k. cm_Get api k ns name = Inr cm \<longrightarrow> cm_Name cm = name)"

lemma mem_cm_versioned: "api_versioned mem_cm"
  unfolding api_versioned_def mem_cm_def
  by (intro conjI allI impI) (auto split: option.splits if_splits)

text \<open>
  The invariant: the stored map is what the successful operations make of the first one, and no copy
  is newer than it, and a copy of the same version is a copy of it.
\<close>

definition meta_inv :: "'k cm_api \<Rightarrow> ConfigMapMetaStore \<Rightarrow> (string \<rightharpoonup> string) \<Rightarrow> 'k meta_system \<Rightarrow> bool" where
  "meta_inv api c d s \<longleftrightarrow>
     (\<exists>cur. cm_Get api (mt_cluster s) (ms_cmNamespace c) (ms_cmName c) = Inr cur \<and> cm_Version cur \<noteq> 0 \<and>
        go_map (cm_Data cur) = fold apply_op (mt_done s) d \<and>
        (\<forall>i m cm. mt_reading s i = Some (m, cm) \<longrightarrow> cm_Name cm = ms_cmName c \<and> cm_Version cm \<noteq> 0 \<and>
           cm_Version cm \<le> cm_Version cur \<and> (cm_Version cm = cm_Version cur \<longrightarrow> cm = cur)))"

lemma meta_inv_step:
  assumes "api_versioned api" "meta_step api c s s'" "meta_inv api c d s"
  shows "meta_inv api c d s'"
  using assms(2)
proof cases
  case (read i cm m)
  moreover have "cm_Name cm = ms_cmName c" using assms(1) read(3) unfolding api_versioned_def by blast
  ultimately show ?thesis using assms(3) by (auto simp: meta_inv_def)
next
  case (write_ok i m cm k')
  obtain cur where cur: "cm_Get api (mt_cluster s) (ms_cmNamespace c) (ms_cmName c) = Inr cur"
    "go_map (cm_Data cur) = fold apply_op (mt_done s) d"
    and old: "\<And>i m cm. mt_reading s i = Some (m, cm) \<Longrightarrow> cm_Name cm = ms_cmName c \<and> cm_Version cm \<noteq> 0 \<and>
        cm_Version cm \<le> cm_Version cur \<and> (cm_Version cm = cm_Version cur \<longrightarrow> cm = cur)"
    using assms(3) unfolding meta_inv_def by blast
  obtain v where v: "cm_Version cur = cm_Version cm" "cm_Version cm < v"
    "cm_Get api k' (ms_cmNamespace c) (ms_cmName c) = Inr ((edit_cm m cm)\<lparr>cm_Version := v\<rparr>)"
    using assms(1) write_ok(2,3) old [OF write_ok(2)] cur(1) unfolding api_versioned_def
    by (metis Inr_inject edit_cm_simps(1,2))
  have "cm = cur" using old [OF write_ok(2)] v(1) by simp
  then have "go_map (cm_Data (edit_cm m cm)) = fold apply_op (mt_done s @ [m]) d" using cur(2) by simp
  moreover have "cm_Version cm' < v" if "mt_reading s j = Some (m', cm')" for j m' cm'
    using old [OF that] v by simp
  ultimately show ?thesis
    unfolding meta_inv_def write_ok(1) using v old by (auto split: if_splits dest!: old)
next
  case (write_error i m cm e k')
  have "cm_Get api k' ns name = cm_Get api (mt_cluster s) ns name" if "ns = ms_cmNamespace c" for ns name
    using assms(1) write_error(3) that unfolding api_versioned_def by blast
  then show ?thesis using assms(3) by (auto simp: meta_inv_def write_error(1) split: if_splits)
qed

lemma meta_inv_run:
  assumes "api_versioned api" "(meta_step api c)\<^sup>*\<^sup>* (meta_init k) s"
    and "cm_Get api k (ms_cmNamespace c) (ms_cmName c) = Inr cm0" "cm_Version cm0 \<noteq> 0"
  shows "meta_inv api c (go_map (cm_Data cm0)) s"
  using assms(2)
proof (induction rule: rtranclp_induct)
  case base
  then show ?case using assms(3,4) by (simp add: meta_inv_def meta_init_def)
next
  case (step s s')
  then show ?case by (blast intro: meta_inv_step [OF assms(1)])
qed

section \<open>Properties\<close>

text \<open>
  C6. No recorded volume ID is lost to a race: under every interleaving of the reads and writes of
  any number of \<open>AddMetaInfo\<close> and \<open>UnsetMetaInfo\<close> calls, the meta store holds exactly what the
  calls that succeeded would have left one after the other, in the order of their writes.
\<close>

theorem meta_store_linearizable:
  assumes "api_versioned api" "(meta_step api c)\<^sup>*\<^sup>* (meta_init k) s"
    and "cm_Get api k (ms_cmNamespace c) (ms_cmName c) = Inr cm0" "cm_Version cm0 \<noteq> 0"
  shows "ListMetaInfos api c (mt_cluster s) = Inr (fold apply_op (mt_done s) (go_map (cm_Data cm0)))"
  using meta_inv_run [OF assms] by (auto simp: meta_inv_def ListMetaInfos_def)

text \<open>
  Two handlers read the empty map and both write: the first write wins, the second is refused, and
  the first ID is still there.
\<close>

definition race_store :: ConfigMapMetaStore where "race_store = \<lparr>ms_cmName = ''cm'', ms_cmNamespace = ''ns''\<rparr>"

definition race_api :: mem_api where
  "race_api = [(''ns'', ''cm'') \<mapsto> \<lparr>cm_Name = ''cm'', cm_Data = None, cm_Version = 1\<rparr>]"

theorem meta_store_linearizable_witness:
  "\<exists>s. (meta_step mem_cm race_store)\<^sup>*\<^sup>* (meta_init race_api) s \<and> mt_reading s = Map.empty \<and>
     mt_done s = [AddOp ''v1''] \<and> ListMetaInfos mem_cm race_store (mt_cluster s) = Inr [''v1'' \<mapsto> '''']"
proof -
  let ?cm = "\<lparr>cm_Name = ''cm'', cm_Data = None, cm_Version = 1\<rparr>"
  let ?k = "race_api((''ns'', ''cm'') \<mapsto> (edit_cm (AddOp ''v1'') ?cm)\<lparr>cm_Version := 2\<rparr>)"
  let ?s0 = "meta_init race_api"
  let ?s1 = "?s0\<lparr>mt_reading := [1 \<mapsto> (AddOp ''v1'', ?cm)]\<rparr>"
  let ?s2 = "?s0\<lparr>mt_reading := [1 \<mapsto> (AddOp ''v1'', ?cm), 2 \<mapsto> (AddOp ''v2'', ?cm)]\<rparr>"
  let ?s3 = "\<lparr>mt_cluster = ?k, mt_reading = [2 \<mapsto> (AddOp ''v2'', ?cm)], mt_done = [AddOp ''v1'']\<rparr>"
  let ?s4 = "?s3\<lparr>mt_reading := Map.empty\<rparr>"
  have g: "cm_Get mem_cm race_api (ms_cmNamespace race_store) (ms_cmName race_store) = Inr ?cm"
    by (simp add: mem_cm_def race_api_def race_store_def)
  have "meta_step mem_cm race_store ?s0 ?s1"
    using meta_step.read [of ?s0 1 mem_cm race_store ?cm "AddOp ''v1''"] g by (simp add: meta_init_def)
  moreover have "meta_step mem_cm race_store ?s1 ?s2"
    using meta_step.read [of ?s1 2 mem_cm race_store ?cm "AddOp ''v2''"] g by (simp add: meta_init_def)
  moreover have "meta_step mem_cm race_store ?s2 ?s3"
    using meta_step.write_ok [of ?s2 1 "AddOp ''v1''" ?cm mem_cm race_store ?k]
    by (simp add: meta_init_def mem_cm_def race_api_def race_store_def fun_upd_twist numeral_2_eq_2)
  moreover have "meta_step mem_cm race_store ?s3 ?s4"
    using meta_step.write_error [of ?s3 2 "AddOp ''v2''" ?cm mem_cm race_store Conflict ?k]
    by (simp add: mem_cm_def race_api_def race_store_def)
  ultimately have r: "(meta_step mem_cm race_store)\<^sup>*\<^sup>* ?s0 ?s4"
    by (meson r_into_rtranclp rtranclp_trans)
  show ?thesis
    using r meta_store_linearizable [OF mem_cm_versioned r g]
    by (intro exI [of _ ?s4]) (simp add: go_map_def)
qed

end
