(* ===== verification/Quota_Listing.thy ===== *)
theory Quota_Listing
  imports Quota_Restore
begin

text \<open>
  The listing half of \<open>QuotaManagerInterface\<close>: what \<open>ListPathQuotaInfos\<close> returns is about volumes the
  manager has a directory for, and neither listing nor changing the state of a disk moves a directory.
  The contract extends \<open>quota_manager\<close>; the sync worker and its races rest on it.
\<close>

section \<open>The interface\<close>

locale quota_listing = quota_manager get expand rel path_of
  for get :: "VolumeId \<Rightarrow> int \<Rightarrow> 's \<Rightarrow> ('e + string) \<times> 's"
    and expand :: "VolumeId \<Rightarrow> int \<Rightarrow> 's \<Rightarrow> 'e option \<times> 's"
    and rel :: "VolumeId \<Rightarrow> 's \<Rightarrow> 'e option \<times> 's"
    and path_of :: "'s \<Rightarrow> VolumeId \<rightharpoonup> string" +
  fixes list_paths :: "'s \<Rightarrow> ('e + PathQuotaInfo list) \<times> 's"
    and list_disks :: "'s \<Rightarrow> ('e + DiskQuotaInfo list) \<times> 's"
    and set_disabled :: "string \<Rightarrow> bool \<Rightarrow> 's \<Rightarrow> 'e option \<times> 's"
    and named :: "'s \<Rightarrow> bool"
  assumes list_keeps: "path_of (snd (list_paths s)) = path_of s"
    and list_known: "named s \<Longrightarrow> list_paths s = (Inr infos, s') \<Longrightarrow> q \<in> set infos \<Longrightarrow> path_of s (pq_VolumeId q) \<noteq> None"
    and list_complete: "named s \<Longrightarrow> list_paths s = (Inr infos, s') \<Longrightarrow> path_of s v \<noteq> None \<Longrightarrow> v \<in> pq_VolumeId ` set infos"
    and disks_keep: "path_of (snd (list_disks s)) = path_of s"
    and disabled_keeps: "path_of (snd (set_disabled mp b s)) = path_of s"
    and named_get: "named s \<Longrightarrow> named (snd (get v c s))"
    and named_expand: "named s \<Longrightarrow> named (snd (expand v c s))"
    and named_rel: "named s \<Longrightarrow> named (snd (rel v s))"
    and named_list: "named s \<Longrightarrow> named (snd (list_paths s))"
    and named_disks: "named s \<Longrightarrow> named (snd (list_disks s))"
    and named_disabled: "named s \<Longrightarrow> named (snd (set_disabled mp b s))"
begin

text \<open>Whether the listing succeeds or not, the worker only learns of volumes with a directory.\<close>

lemma listed_known:
  assumes "named s" "list_paths s = (r, s')" "q \<in> set (case r of Inl _ \<Rightarrow> [] | Inr infos \<Rightarrow> infos)"
  shows "path_of s' (pq_VolumeId q) \<noteq> None"
proof (cases r)
  case (Inr infos)
  then show ?thesis using list_known [OF assms(1), of infos s' q] list_keeps [of s] assms(2,3) by simp
qed (use assms(3) in simp)

text \<open>A volume with a directory keeps it through every operation but its own release.\<close>

lemma get_keeps: "path_of s v = Some p \<Longrightarrow> path_of (snd (get u c s)) v = Some p"
  using exec_keeps [of s v p "OpGet u c"] by simp

lemma get_only: "path_of (snd (get u c s)) v \<noteq> path_of s v \<Longrightarrow> v = u"
  using get_records [of u c s] get_fails [of u c s]
  by (cases "get u c s"; cases "fst (get u c s)") (auto split: if_splits)

lemma rel_only: "path_of (snd (rel u s)) v \<noteq> path_of s v \<Longrightarrow> v = u \<and> path_of (snd (rel u s)) v = None"
  using rel_forgets [of u s] rel_fails [of u s]
  by (cases "rel u s"; cases "fst (rel u s)") (auto split: if_splits)

end

section \<open>The model's quota managers\<close>

text \<open>The records of the XFS manager carry the ID they are filed under.\<close>

definition quotas_named :: "XFSQuotaManager \<Rightarrow> bool" where
  "quotas_named m \<longleftrightarrow> (\<forall>e\<in>set (quotas m). pq_VolumeId (snd e) = fst e)"

definition qm_named :: "QuotaManager \<times> 'w \<Rightarrow> bool" where
  "qm_named s \<longleftrightarrow> (case fst s of FakeQuotaManager \<Rightarrow> True | XFS m \<Rightarrow> quotas_named m)"

lemma qm_named_simps [simp]: "qm_named (FakeQuotaManager, w)" "qm_named (XFS m, w) = quotas_named m"
  by (simp_all add: qm_named_def)

lemma quotas_named_put: "quotas_named m \<Longrightarrow> pq_VolumeId q = v \<Longrightarrow> quotas m' = al_put v q (quotas m) \<Longrightarrow> quotas_named m'"
  unfolding quotas_named_def by (auto dest!: set_al_put_subset)

lemma Get_named:
  assumes "quotas_named m" "GetVolumeQuotaPath sys v c m w = (r, m', w')"
  shows "quotas_named m'"
proof (cases r)
  case (Inl e)
  have "quotas m' = quotas m" using Get_error [OF assms(2) [unfolded Inl]] provider_only by blast
  then show ?thesis using assms(1) by (simp add: quotas_named_def)
next
  case (Inr p)
  show ?thesis
  proof (cases "map_of (quotas m) v")
    case None
    show ?thesis
      by (rule Get_new [OF assms(2) [unfolded Inr] None]) (rule quotas_named_put [OF assms(1)], auto simp: new_info_def)
  next
    case (Some q)
    then show ?thesis using assms Get_old [OF Some, of sys c w] by simp
  qed
qed

lemma Expand_named:
  assumes "quotas_named m" "ExpandVolume sys v c m w = (r, m', w')"
  shows "quotas_named m'"
proof (cases r)
  case None
  show ?thesis
  proof (rule Expand_ok [OF assms(2) [unfolded None]])
    fix q d pv
    assume "map_of (quotas m) v = Some q"
      and m': "m' = m\<lparr>quotaProvider := pv,
            quotas := al_put v (q\<lparr>pq_Quota := (pq_Quota q)\<lparr>SoftQuota := u64_of_i64 c,
              HardQuota := u64_of_i64 c\<rparr>\<rparr>) (quotas m),
            diskQuotaInfos := al_put (pq_DeviceName q)
              (rebook (disk_QuotaSize d + u64_of_i64 c - HardQuota (pq_Quota q)) d) (diskQuotaInfos m)\<rparr>"
    then have "pq_VolumeId q = v" using assms(1) by (force simp: quotas_named_def dest: map_of_SomeD)
    then show ?thesis by (intro quotas_named_put [OF assms(1)]) (auto simp: m')
  qed
next
  case (Some e)
  have "quotas m' = quotas m" using Expand_error [OF assms(2) [unfolded Some]] provider_only by blast
  then show ?thesis using assms(1) by (simp add: quotas_named_def)
qed

lemma Release_named:
  assumes "quotas_named m" "ReleaseVolumePath sys v m w = (r, m', w')"
  shows "quotas_named m'"
proof -
  have "set (quotas m') \<subseteq> set (quotas m)"
    using assms(2) by (auto simp: ReleaseVolumePath_def Let_def set_al_del split: option.splits prod.splits)
  then show ?thesis using assms(1) by (auto simp: quotas_named_def)
qed

lemma same_vol_path: "list_all2 same_vol qs qs' \<Longrightarrow> map_option pq_Path (map_of qs' v) = map_option pq_Path (map_of qs v)"
  by (induction qs qs' rule: list_all2_induct) (auto simp: same_vol_def)

lemma same_vol_named:
  "list_all2 same_vol qs qs' \<Longrightarrow> \<forall>e\<in>set qs. pq_VolumeId (snd e) = fst e \<Longrightarrow> \<forall>e\<in>set qs'. pq_VolumeId (snd e) = fst e"
  by (induction qs qs' rule: list_all2_induct) (auto simp: same_vol_def)

lemma list_paths_listed: "list_paths_loop sys w mx v qs = (Inr infos, qs', v') \<Longrightarrow> infos = map snd qs'"
  by (induction sys w mx v qs arbitrary: infos qs' v' rule: list_paths_loop.induct)
    (auto simp: Let_def map_sum_def split: if_splits sum.splits prod.splits)

lemma ListPaths_facts:
  assumes "ListPathQuotaInfos sys w m = (r, m')"
  shows "xq_path (m', w') = xq_path (m, w)" "quotas_named m \<Longrightarrow> quotas_named m'"
    "r = Inr infos \<Longrightarrow> infos = map snd (quotas m')"
proof -
  obtain r0 qs v where l: "list_paths_loop sys w (maxCacheTime m) (quotaProvider m) (quotas m) = (r0, qs, v)"
    by (metis prod_cases3)
  then have m': "m' = m\<lparr>quotas := qs, quotaProvider := v\<rparr>" "r = map_sum ErrProvider id r0"
    using assms by (auto simp: ListPathQuotaInfos_def)
  have same: "list_all2 same_vol (quotas m) qs" using list_paths_same [OF l] by blast
  show "xq_path (m', w') = xq_path (m, w)" using same_vol_path [OF same] by (simp add: xq_path_def m' fun_eq_iff)
  show "quotas_named m \<Longrightarrow> quotas_named m'" using same_vol_named [OF same] by (simp add: quotas_named_def m')
  show "r = Inr infos \<Longrightarrow> infos = map snd (quotas m')"
    using m' l by (cases r0) (auto dest: list_paths_listed)
qed

lemma SetDisabled_quotas: "SetQuotaDiskDisabledState sys mp b m w = (r, m', w') \<Longrightarrow> quotas m' = quotas m"
  by (auto simp: SetQuotaDiskDisabledState_def split: option.splits prod.splits)

lemma ListDisks_quotas: "ListQuotaDiskInfos sys w m = (r, m') \<Longrightarrow> quotas m' = quotas m"
  by (auto simp: ListQuotaDiskInfos_def split: prod.splits)

lemma quotas_named_cong: "quotas_named m \<Longrightarrow> quotas m' = quotas m \<Longrightarrow> quotas_named m'"
  by (simp add: quotas_named_def)

interpretation ql: quota_listing
  "qm_GetVolumeQuotaPath sys" "qm_ExpandVolume sys" "qm_ReleaseVolumePath sys" qm_path
  "qm_ListPathQuotaInfos sys" "qm_ListQuotaDiskInfos sys" "qm_SetQuotaDiskDisabledState sys" qm_named for sys
proof (unfold_locales, goal_cases)
  case (1 s)
  then show ?case by (cases s; cases "fst s") (auto simp: qm_ListPathQuotaInfos_def ListPaths_facts(1) split: prod.splits)
next
  case (2 s infos s' q)
  then obtain m w where s: "s = (XFS m, w)" by (cases s; cases "fst s") (auto simp: qm_ListPathQuotaInfos_def)
  then obtain m' where l: "ListPathQuotaInfos sys w m = (Inr infos, m')"
    using 2(2) by (auto simp: qm_ListPathQuotaInfos_def split: prod.splits)
  obtain e where e: "e \<in> set (quotas m')" "q = snd e" using 2(3) ListPaths_facts(3) [OF l refl] by auto
  have "pq_VolumeId q = fst e" using ListPaths_facts(2) [OF l] 2(1) e by (auto simp: s quotas_named_def)
  then have "map_of (quotas m') (pq_VolumeId q) \<noteq> None" using e by (simp add: map_of_eq_None_iff)
  then have "xq_path (m', w) (pq_VolumeId q) \<noteq> None" by (simp add: xq_path_def)
  then show ?case using ListPaths_facts(1) [OF l, of w] by (simp add: s)
next
  case (3 s infos s' v)
  then obtain m w where s: "s = (XFS m, w)" by (cases s; cases "fst s") (auto simp: qm_ListPathQuotaInfos_def)
  then obtain m' where l: "ListPathQuotaInfos sys w m = (Inr infos, m')"
    using 3(2) by (auto simp: qm_ListPathQuotaInfos_def split: prod.splits)
  have "xq_path (m', w) v \<noteq> None" using 3(3) ListPaths_facts(1) [OF l, of w] by (simp add: s)
  then have "map_of (quotas m') v \<noteq> None" by (auto simp: xq_path_def)
  then obtain i where i: "(v, i) \<in> set (quotas m')" by (auto dest: map_of_SomeD)
  then have "pq_VolumeId i = v" using ListPaths_facts(2) [OF l] 3(1) by (auto simp: s quotas_named_def)
  then show ?case using i ListPaths_facts(3) [OF l refl] by force
next
  case (4 s)
  then show ?case
    by (cases s; cases "fst s") (auto simp: qm_ListQuotaDiskInfos_def split: prod.splits intro!: xq_path_quotas dest: ListDisks_quotas)
next
  case (5 mp b s)
  then show ?case
    by (cases s; cases "fst s")
      (auto simp: qm_SetQuotaDiskDisabledState_def split: prod.splits intro!: xq_path_quotas dest: SetDisabled_quotas)
next
  case (6 s v c)
  then show ?case by (cases s; cases "fst s") (auto simp: qm_GetVolumeQuotaPath_def split: prod.splits dest: Get_named)
next
  case (7 s v c)
  then show ?case by (cases s; cases "fst s") (auto simp: qm_ExpandVolume_def split: prod.splits dest: Expand_named)
next
  case (8 s v)
  then show ?case by (cases s; cases "fst s") (auto simp: qm_ReleaseVolumePath_def split: prod.splits dest: Release_named)
next
  case (9 s)
  then show ?case by (cases s; cases "fst s") (auto simp: qm_ListPathQuotaInfos_def split: prod.splits dest: ListPaths_facts(2))
next
  case (10 s)
  then show ?case
    by (cases s; cases "fst s") (auto simp: qm_ListQuotaDiskInfos_def split: prod.splits elim!: quotas_named_cong dest: ListDisks_quotas)
next
  case (11 s mp b)
  then show ?case
    by (cases s; cases "fst s")
      (auto simp: qm_SetQuotaDiskDisabledState_def split: prod.splits elim!: quotas_named_cong dest: SetDisabled_quotas)
qed

section \<open>A volume keeps its directory\<close>

text \<open>
  Everything that can happen to a manager: the six operations of its interface, for any volume and disk,
  and any change of the system by others.
\<close>

datatype 'w qm_event =
    EvGet VolumeId int
  | EvExpand VolumeId int
  | EvRelease VolumeId
  | EvListPaths
  | EvListDisks
  | EvSetDisabled string bool
  | EvWorld 'w

fun qm_apply :: "'w os \<Rightarrow> 'w qm_event \<Rightarrow> QuotaManager \<times> 'w \<Rightarrow> QuotaManager \<times> 'w" where
  "qm_apply sys (EvGet v c) s = snd (qm_GetVolumeQuotaPath sys v c s)"
| "qm_apply sys (EvExpand v c) s = snd (qm_ExpandVolume sys v c s)"
| "qm_apply sys (EvRelease v) s = snd (qm_ReleaseVolumePath sys v s)"
| "qm_apply sys EvListPaths s = snd (qm_ListPathQuotaInfos sys s)"
| "qm_apply sys EvListDisks s = snd (qm_ListQuotaDiskInfos sys s)"
| "qm_apply sys (EvSetDisabled mp b) s = snd (qm_SetQuotaDiskDisabledState sys mp b s)"
| "qm_apply sys (EvWorld w) s = (fst s, w)"

lemma qm_path_at: "qm_path (fst s, w) = qm_path s"
  by (simp add: qm_path_def xq_path_def fun_eq_iff split: QuotaManager.split)

lemma qm_apply_keeps:
  assumes "qm_path s v = Some p" "ev \<noteq> EvRelease v"
  shows "qm_path (qm_apply sys ev s) v = Some p"
proof (cases ev)
  case (EvGet u c)
  then show ?thesis using ql.get_keeps [OF assms(1)] by simp
next
  case (EvRelease u)
  then show ?thesis using ql.rel_only [of sys u s v] assms by auto
qed (use assms(1) in \<open>simp_all add: qm.expand_keeps ql.list_keeps ql.disks_keep ql.disabled_keeps qm_path_at\<close>)

lemma qm_run_keeps: "qm_path s v = Some p \<Longrightarrow> EvRelease v \<notin> set evs \<Longrightarrow> qm_path (fold (qm_apply sys) evs s) v = Some p"
proof (induction evs arbitrary: s)
  case (Cons ev evs)
  then show ?case using Cons.IH [OF qm_apply_keeps [OF Cons.prems(1), of ev]] by auto
qed simp

section \<open>Properties\<close>

text \<open>
  C25. A volume keeps its directory: once \<open>GetVolumeQuotaPath\<close> has answered with a path, it answers
  with the same path, and changes nothing, after every sequence of operations of the manager (placements,
  expansions, releases of other volumes, listings of volumes and disks, disks being disabled and enabled)
  and of changes of the system by others that does not release this volume, whether they fail or not.
\<close>

theorem volume_path_stable:
  assumes "qm_GetVolumeQuotaPath sys v c s = (Inr p, s')" "EvRelease v \<notin> set evs"
  shows "qm_GetVolumeQuotaPath sys v c' (fold (qm_apply sys) evs s') = (Inr p, fold (qm_apply sys) evs s')"
proof -
  have "qm_path s' v = Some p" using qm.get_records [OF assms(1)] by simp
  then show ?thesis by (intro qm.get_found qm_run_keeps [OF _ assms(2)])
qed

theorem volume_path_stable_witness:
  "\<exists>s'. fst (qm_GetVolumeQuotaPath mem_os ''v1'' 42
      (fold (qm_apply mem_os) [EvGet ''v2'' 4096, EvListPaths, EvSetDisabled ''/xfs/d2'' True, EvExpand ''v1'' 2147483648,
         EvRelease ''v2'', EvWorld mem1, EvListDisks] s')) =
     Inr ''/xfs/d2/k8squota_v1''"
proof -
  obtain m' w' where "GetVolumeQuotaPath mem_os ''v1'' 1610612736 manager0 mem0 = (Inr ''/xfs/d2/k8squota_v1'', m', w')"
    using manager0_get by blast
  then have "qm_GetVolumeQuotaPath mem_os ''v1'' 1610612736 (XFS manager0, mem0) =
      (Inr ''/xfs/d2/k8squota_v1'', XFS m', w')"
    by (simp add: qm_GetVolumeQuotaPath_def)
  from volume_path_stable [OF this, of "[EvGet ''v2'' 4096, EvListPaths, EvSetDisabled ''/xfs/d2'' True, EvExpand ''v1'' 2147483648,
         EvRelease ''v2'', EvWorld mem1, EvListDisks]" 42]
  show ?thesis by (intro exI [of _ "(XFS m', w')"]) simp
qed

end
