(* ===== verification/Node_Race.thy ===== *)
theory Node_Race
  imports Quota_Listing Controller_Server Node_Server Sync_Worker
begin

text \<open>
  The sync worker beside the other users of a node's quota manager. A round of the worker is no
  atomic step: it takes neither the volume locks nor one lock for the whole round, so between listing
  the volumes, releasing each of them and reading the meta store, volumes are created, published,
  expanded, unpublished and deleted. Here a round is split at every call that lists or releases
  directories or reads the meta store (pkg/csi-plugin/hostpath/syncworker.go), and its steps interleave
  with the handlers of controllerserver.go and nodeserver.go, each of which touches the manager or the
  meta store once. The two reports, \<open>syncQuotaPathUsage\<close> and \<open>syncNodeQuotaStatus\<close>, are one step each:
  their calls write volume and node objects and set the disabled state of disks, and touch neither a
  directory nor the meta store.
\<close>

section \<open>A round in steps\<close>

text \<open>
  Where the worker is: releasing the volumes of the retry list (with the listed volumes, the rest of
  the list, and what has failed so far), releasing the orphans, publishing the use of the volumes,
  listing the disks, publishing the status of the node.
\<close>

datatype round_phase =
    Waiting
  | Retrying "PathQuotaInfo list" "VolumeId list" "VolumeId list"
  | Cleaning "PathQuotaInfo list" "VolumeId list" "VolumeId list"
  | Reporting "PathQuotaInfo list"
  | Listing_disks
  | Syncing_node "DiskQuotaInfo list"

text \<open>
  The system of one node: the cluster, the quota manager with the world, the worker; and, as history,
  the IDs recorded in the meta store and the IDs deleted so far.
\<close>

record ('k, 'w) node_system =
  nd_cluster :: 'k
  nd_manager :: "QuotaManager \<times> 'w"
  nd_worker :: SyncWorker
  nd_phase :: round_phase
  nd_ids :: "string set"
  nd_deleted :: "string set"

inductive worker_step ::
    "'w os \<Rightarrow> 'k kube \<Rightarrow> 'k cm_api \<Rightarrow> json \<Rightarrow> ConfigMapMetaStore
       \<Rightarrow> ('k, 'w) node_system \<Rightarrow> ('k, 'w) node_system \<Rightarrow> bool"
  for sys :: "'w os" and api :: "'k kube" and capi :: "'k cm_api" and js :: json and store :: ConfigMapMetaStore where
  list: "nd_phase s = Waiting \<Longrightarrow> qm_ListPathQuotaInfos sys (nd_manager s) = (l, q) \<Longrightarrow>
    worker_step sys api capi js store s (s\<lparr>nd_manager := q,
      nd_phase := Retrying (case l of Inl _ \<Rightarrow> [] | Inr infos \<Rightarrow> infos) (shouldDeleteVolIds (nd_worker s)) []\<rparr>)"
| retry: "nd_phase s = Retrying infos (v # todo) failed \<Longrightarrow> qm_ReleaseVolumePath sys v (nd_manager s) = (err, q) \<Longrightarrow>
    worker_step sys api capi js store s (s\<lparr>nd_manager := q,
      nd_phase := Retrying infos todo (if err = None then failed else failed @ [v])\<rparr>)"
| read: "nd_phase s = Retrying infos [] failed \<Longrightarrow> ListMetaInfos capi store (nd_cluster s) = Inr metaInfos \<Longrightarrow>
    worker_step sys api capi js store s (s\<lparr>nd_phase :=
      Cleaning infos (map pq_VolumeId (filter (\<lambda>q. metaInfos (pq_VolumeId q) = None) infos)) failed\<rparr>)"
| read_error: "nd_phase s = Retrying infos [] failed \<Longrightarrow> ListMetaInfos capi store (nd_cluster s) = Inl err \<Longrightarrow>
    worker_step sys api capi js store s (s\<lparr>nd_phase := Reporting infos\<rparr>)"
| clean: "nd_phase s = Cleaning infos (v # todo) failed \<Longrightarrow> qm_ReleaseVolumePath sys v (nd_manager s) = (err, q) \<Longrightarrow>
    worker_step sys api capi js store s (s\<lparr>nd_manager := q,
      nd_phase := Cleaning infos todo (if err = None then failed else failed @ [v])\<rparr>)"
| cleaned: "nd_phase s = Cleaning infos [] failed \<Longrightarrow>
    worker_step sys api capi js store s (s\<lparr>nd_worker := (nd_worker s)\<lparr>shouldDeleteVolIds := failed\<rparr>,
      nd_phase := Reporting infos\<rparr>)"
| report: "nd_phase s = Reporting infos \<Longrightarrow>
    syncQuotaPathUsage api js infos (nd_worker s) (nd_cluster s) = (Some res, r, k) \<Longrightarrow>
    worker_step sys api capi js store s (s\<lparr>nd_worker := r, nd_cluster := k, nd_phase := Listing_disks\<rparr>)"
| disks: "nd_phase s = Listing_disks \<Longrightarrow> qm_ListQuotaDiskInfos sys (nd_manager s) = (l, q) \<Longrightarrow>
    worker_step sys api capi js store s (s\<lparr>nd_manager := q,
      nd_phase := Syncing_node (case l of Inl _ \<Rightarrow> [] | Inr infos \<Rightarrow> infos)\<rparr>)"
| node: "nd_phase s = Syncing_node infos \<Longrightarrow>
    syncNodeQuotaStatus sys api js infos (nd_worker s) (nd_manager s) (nd_cluster s) = (Some res, r, q, k) \<Longrightarrow>
    worker_step sys api capi js store s (s\<lparr>nd_worker := r, nd_manager := q, nd_cluster := k, nd_phase := Waiting\<rparr>)"

section \<open>The other users\<close>

text \<open>Whenever the config map can be read, it has exactly these IDs.\<close>

definition recorded :: "'k cm_api \<Rightarrow> ConfigMapMetaStore \<Rightarrow> string set \<Rightarrow> 'k \<Rightarrow> bool" where
  "recorded capi store ids k \<longleftrightarrow> (\<forall>m. ListMetaInfos capi store k = Inr m \<longrightarrow> dom m = ids)"

text \<open>
  What happens on the node and in the cluster besides the worker's round. A volume is created or
  deleted, a request reaches the node, or anything else happens to the cluster. Nothing is assumed of
  these steps: requests fail or not, locks are held by whatever other requests run, and the cluster
  changes in any way.
\<close>

datatype 'k client_event =
    Creates string
  | Deletes string
  | Changes 'k
  | Publishes NodePublishVolumeRequest
  | Unpublishes string string
  | Expands NodeExpandVolumeRequest

inductive client_step ::
    "'w os \<Rightarrow> 'k kube \<Rightarrow> 'k cm_api \<Rightarrow> json \<Rightarrow> ConfigMapMetaStore \<Rightarrow> CSIDriver \<Rightarrow> 'k client_event
       \<Rightarrow> ('k, 'w) node_system \<Rightarrow> ('k, 'w) node_system \<Rightarrow> bool"
  for sys :: "'w os" and api :: "'k kube" and capi :: "'k cm_api" and js :: json and store :: ConfigMapMetaStore
    and d :: CSIDriver where
  create: "CreateVolume capi d store req l (nd_cluster s) = (Inr resp, l', k) \<Longrightarrow>
    client_step sys api capi js store d (Creates (cr_VolumeId resp)) s
      (s\<lparr>nd_cluster := k, nd_ids := insert (cr_VolumeId resp) (nd_ids s)\<rparr>)"
| delete: "DeleteVolume capi d store vol (nd_cluster s) = (None, k) \<Longrightarrow>
    client_step sys api capi js store d (Deletes vol) s
      (s\<lparr>nd_cluster := k, nd_ids := nd_ids s - {vol}, nd_deleted := insert vol (nd_deleted s)\<rparr>)"
| cluster: "client_step sys api capi js store d (Changes k) s (s\<lparr>nd_cluster := k\<rparr>)"
| publish: "NodePublishVolume sys api js (nd_cluster s) req l (nd_manager s) = (res, l', q) \<Longrightarrow>
    client_step sys api capi js store d (Publishes req) s (s\<lparr>nd_manager := q\<rparr>)"
| unpublish: "NodeUnpublishVolume sys vol target l (nd_manager s) = (res, l', q) \<Longrightarrow>
    client_step sys api capi js store d (Unpublishes vol target) s (s\<lparr>nd_manager := q\<rparr>)"
| expand: "NodeExpandVolume sys ereq l (nd_manager s) = (res, l', q) \<Longrightarrow>
    client_step sys api capi js store d (Expands ereq) s (s\<lparr>nd_manager := q\<rparr>)"

text \<open>
  How Kubernetes uses the plugin, as a condition on a step and the state before it. A volume is not
  created under an ID that was deleted before (the provisioner names volumes after the UID of the
  claim); a volume that a publish finds in the cluster is recorded (its object exists from the creation
  to the deletion of the volume only); and nobody but the plugin changes the IDs in the config map, or
  the config map stops to be readable. The first condition matters: the retry list releases what it
  holds without reading the meta store (see \<open>retry_ignores_meta_store\<close> of \<open>Sync_Worker\<close>).
\<close>

fun client_allowed ::
    "'k kube \<Rightarrow> 'k cm_api \<Rightarrow> json \<Rightarrow> ConfigMapMetaStore \<Rightarrow> 'k client_event \<Rightarrow> ('k, 'w) node_system \<Rightarrow> bool" where
  "client_allowed api capi js store (Creates volID) s \<longleftrightarrow> volID \<notin> nd_deleted s"
| "client_allowed api capi js store (Changes k) s \<longleftrightarrow> recorded capi store (nd_ids s) k"
| "client_allowed api capi js store (Publishes req) s \<longleftrightarrow>
     (case GetHostPathPVByVolumeId api js (nd_cluster s) (np_VolumeId req) of
        Some (Some hpv) \<Rightarrow> hpv_volId hpv \<in> nd_ids s
      | _ \<Rightarrow> True)"
| "client_allowed api capi js store _ s \<longleftrightarrow> True"

definition node_step ::
    "'w os \<Rightarrow> 'k kube \<Rightarrow> 'k cm_api \<Rightarrow> json \<Rightarrow> ConfigMapMetaStore \<Rightarrow> CSIDriver
       \<Rightarrow> ('k, 'w) node_system \<Rightarrow> ('k, 'w) node_system \<Rightarrow> bool" where
  "node_step sys api capi js store d s s' \<longleftrightarrow>
     worker_step sys api capi js store s s' \<or>
     (\<exists>ev. client_step sys api capi js store d ev s s' \<and> client_allowed api capi js store ev s)"

text \<open>A patch of a volume or of a node does not change the config map.\<close>

definition patches_apart :: "'k kube \<Rightarrow> 'k cm_api \<Rightarrow> ConfigMapMetaStore \<Rightarrow> bool" where
  "patches_apart api capi store \<longleftrightarrow>
     (\<forall>name p k. ListMetaInfos capi store (snd (pv_Patch api name p k)) = ListMetaInfos capi store k \<and>
        ListMetaInfos capi store (snd (node_Patch api name p k)) = ListMetaInfos capi store k)"

section \<open>What the handlers do to the directories\<close>

lemma qm_path_fst: "fst s = fst s' \<Longrightarrow> qm_path s = qm_path s'"
  by (simp add: qm_path_def xq_path_def fun_eq_iff split: QuotaManager.split)

lemma qm_named_fst: "fst s = fst s' \<Longrightarrow> qm_named s = qm_named s'"
  by (simp add: qm_named_def split: QuotaManager.split)

lemma publish_mount_manager:
  assumes "publish_mount sys api js k req s = (res, s')"
  shows "fst s' = fst s \<or> (\<exists>hpv. GetHostPathPVByVolumeId api js k (np_VolumeId req) = Some (Some hpv) \<and>
     fst s' = fst (snd (qm_GetVolumeQuotaPath sys (hpv_volId hpv) (hpv_capacity hpv) s)))"
  using assms by (auto simp: publish_mount_def split: option.splits prod.splits sum.splits)

lemma publish_manager:
  assumes "NodePublishVolume sys api js k req l s = (res, l', s')"
  shows "fst s' = fst s \<or> (\<exists>hpv w. GetHostPathPVByVolumeId api js k (np_VolumeId req) = Some (Some hpv) \<and>
     fst s' = fst (snd (qm_GetVolumeQuotaPath sys (hpv_volId hpv) (hpv_capacity hpv) (fst s, w))))"
proof (cases "fst s' = fst s")
  case False
  obtain r where p: "publish_locked sys api js k req s = (r, s')"
    using assms False by (auto simp: NodePublishVolume_def split: option.splits prod.splits bool.splits)
  then obtain w r' where "publish_mount sys api js k req (fst s, w) = (r', s')"
    using False by (cases s) (auto simp: publish_locked_def split: sum.splits if_splits prod.splits option.splits)
  from publish_mount_manager [OF this] show ?thesis by auto
qed simp

lemma publish_path:
  assumes "NodePublishVolume sys api js k req l s = (res, l', s')" "qm_named s"
  shows "qm_named s'" "qm_path s v = Some p \<Longrightarrow> qm_path s' v = Some p"
    "qm_path s' v \<noteq> qm_path s v \<Longrightarrow>
       \<exists>hpv. GetHostPathPVByVolumeId api js k (np_VolumeId req) = Some (Some hpv) \<and> hpv_volId hpv = v"
proof -
  have "qm_named s' \<and> (qm_path s v = Some p \<longrightarrow> qm_path s' v = Some p) \<and>
    (qm_path s' v \<noteq> qm_path s v \<longrightarrow>
       (\<exists>hpv. GetHostPathPVByVolumeId api js k (np_VolumeId req) = Some (Some hpv) \<and> hpv_volId hpv = v))"
    using publish_manager [OF assms(1)]
  proof (elim disjE exE conjE)
    assume "fst s' = fst s"
    then show ?thesis using qm_path_fst [of s' s] qm_named_fst [of s' s] assms(2) by simp
  next
    fix hpv :: PersistentVolume and w
    assume h: "GetHostPathPVByVolumeId api js k (np_VolumeId req) = Some (Some hpv)"
      and "fst s' = fst (snd (qm_GetVolumeQuotaPath sys (hpv_volId hpv) (hpv_capacity hpv) (fst s, w)))"
    then have e: "qm_path s' = qm_path (snd (qm_GetVolumeQuotaPath sys (hpv_volId hpv) (hpv_capacity hpv) (fst s, w)))"
      "qm_named s' = qm_named (snd (qm_GetVolumeQuotaPath sys (hpv_volId hpv) (hpv_capacity hpv) (fst s, w)))"
      by - (rule qm_path_fst qm_named_fst, assumption)+
    have o: "qm_path (fst s, w) = qm_path s" "qm_named (fst s, w) = qm_named s" by (rule qm_path_fst qm_named_fst, simp)+
    show ?thesis
      using ql.named_get [of "(fst s, w)" sys] ql.get_keeps [of "(fst s, w)" v p sys] ql.get_only [of sys _ _ "(fst s, w)" v]
        h assms(2) unfolding e o by blast
  qed
  then show "qm_named s'" "qm_path s v = Some p \<Longrightarrow> qm_path s' v = Some p"
    "qm_path s' v \<noteq> qm_path s v \<Longrightarrow>
       \<exists>hpv. GetHostPathPVByVolumeId api js k (np_VolumeId req) = Some (Some hpv) \<and> hpv_volId hpv = v" by blast+
qed

lemma unpublish_manager:
  assumes "NodeUnpublishVolume sys vol target l s = (res, l', s')"
  shows "fst s' = fst s \<or> (\<exists>w. fst s' = fst (snd (qm_ReleaseVolumePath sys vol (fst s, w))))"
proof (cases "fst s' = fst s")
  case False
  obtain r eph where u: "unpublish_locked sys vol target eph s = (r, s')"
    using assms False by (auto simp: NodeUnpublishVolume_def split: option.splits prod.splits bool.splits)
  obtain q w where s: "s = (q, w)" by fastforce
  have "\<exists>w. fst s' = fst (snd (qm_ReleaseVolumePath sys vol (q, w)))"
    using u False unfolding s
    by (auto simp: unpublish_locked_def split: sum.splits if_splits prod.splits option.splits) (metis fst_conv snd_conv)+
  then show ?thesis by (simp add: s)
qed simp

lemma unpublish_path:
  assumes "NodeUnpublishVolume sys vol target l s = (res, l', s')" "qm_named s"
  shows "qm_named s' \<and> (qm_path s' v = qm_path s v \<or> v = vol \<and> qm_path s' v = None)"
  using unpublish_manager [OF assms(1)]
proof (elim disjE exE)
  assume "fst s' = fst s"
  then show ?thesis using qm_path_fst [of s' s] qm_named_fst [of s' s] assms(2) by simp
next
  fix w
  assume "fst s' = fst (snd (qm_ReleaseVolumePath sys vol (fst s, w)))"
  then have e: "qm_path s' = qm_path (snd (qm_ReleaseVolumePath sys vol (fst s, w)))"
    "qm_named s' = qm_named (snd (qm_ReleaseVolumePath sys vol (fst s, w)))" by - (rule qm_path_fst qm_named_fst, assumption)+
  have o: "qm_path (fst s, w) = qm_path s" "qm_named (fst s, w) = qm_named s" by (rule qm_path_fst qm_named_fst, simp)+
  show ?thesis
    using ql.named_rel [of "(fst s, w)" sys vol] ql.rel_only [of sys vol "(fst s, w)" v] assms(2) unfolding e o by blast
qed

lemma expand_path:
  assumes "NodeExpandVolume sys ereq l s = (res, l', s')" "qm_named s"
  shows "qm_named s' \<and> qm_path s' = qm_path s"
proof -
  have "s' = s \<or> (\<exists>c. s' = snd (qm_ExpandVolume sys (ne_VolumeId ereq) c s))"
    using assms(1) by (auto simp: NodeExpandVolume_def split: if_splits prod.splits bool.splits option.splits) (metis snd_conv)+
  then show ?thesis using ql.named_expand [OF assms(2)] qm.expand_keeps [where s = s] assms(2) by auto
qed

lemma sync_disabled_path:
  "qm_path (fold (sync_disabled sys ds) disks s) = qm_path s \<and> (qm_named s \<longrightarrow> qm_named (fold (sync_disabled sys ds) disks s))"
proof (induction disks arbitrary: s)
  case (Cons disk disks)
  have "qm_path (sync_disabled sys ds disk s) = qm_path s \<and> (qm_named s \<longrightarrow> qm_named (sync_disabled sys ds disk s))"
    by (simp add: sync_disabled_def ql.disabled_keeps ql.named_disabled)
  then show ?case using Cons.IH [of "sync_disabled sys ds disk s"] by simp
qed simp

lemma sync_node_path:
  "syncNodeQuotaStatus sys api js infos r s k = (res, r', s', k') \<Longrightarrow>
   qm_path s' = qm_path s \<and> (qm_named s \<longrightarrow> qm_named s') \<and> shouldDeleteVolIds r' = shouldDeleteVolIds r"
  using sync_disabled_path [where s = s] by (auto simp: syncNodeQuotaStatus_def Let_def split: sum.splits option.splits bool.splits prod.splits)

section \<open>What the worker does to the cluster\<close>

lemma sync_usage_meta:
  assumes "patches_apart api capi store"
  shows "sync_usage_loop api js n infos cache k = (res, cache', k') \<Longrightarrow> ListMetaInfos capi store k' = ListMetaInfos capi store k"
proof (induction infos arbitrary: cache k)
  case (Cons info infos)
  have p: "ListMetaInfos capi store k1 = ListMetaInfos capi store k" if "UpdateHostPathPVUsageInfo api js name hpv k = (e, k1)" for name hpv e k1
    using assms that unfolding patches_apart_def UpdateHostPathPVUsageInfo_def by (metis snd_conv)
  show ?case
    using Cons.prems Cons.IH p
    by (auto simp: Let_def split: if_splits option.splits prod.splits)
qed simp

lemma sync_node_meta:
  assumes "patches_apart api capi store" "syncNodeQuotaStatus sys api js infos r s k = (res, r', s', k')"
  shows "ListMetaInfos capi store k' = ListMetaInfos capi store k"
proof -
  have "ListMetaInfos capi store k1 = ListMetaInfos capi store k" if "UpdateNodeHostPathPVUsageInfo api js name u k = (e, k1)" for name u e k1
    using assms(1) that unfolding patches_apart_def UpdateNodeHostPathPVUsageInfo_def by (metis snd_conv)
  then show ?thesis
    using assms(2) by (auto simp: syncNodeQuotaStatus_def Let_def split: sum.splits option.splits bool.splits prod.splits)
qed

section \<open>The invariant\<close>

text \<open>
  A volume with a directory is recorded or was deleted, and whatever the worker is about to release was
  deleted: it listed the directories before it read the meta store, so a listed volume the meta store
  does not know has been deleted and not merely not been created yet.
\<close>

fun phase_ok :: "string set \<Rightarrow> string set \<Rightarrow> round_phase \<Rightarrow> bool" where
  "phase_ok ids deleted (Retrying infos todo failed) \<longleftrightarrow>
     pq_VolumeId ` set infos \<subseteq> ids \<union> deleted \<and> set todo \<subseteq> deleted \<and> set failed \<subseteq> deleted"
| "phase_ok ids deleted (Cleaning infos todo failed) \<longleftrightarrow> set todo \<subseteq> deleted \<and> set failed \<subseteq> deleted"
| "phase_ok ids deleted _ \<longleftrightarrow> True"

definition node_inv :: "'k cm_api \<Rightarrow> ConfigMapMetaStore \<Rightarrow> ('k, 'w) node_system \<Rightarrow> bool" where
  "node_inv capi store s \<longleftrightarrow> nd_ids s \<inter> nd_deleted s = {} \<and> recorded capi store (nd_ids s) (nd_cluster s) \<and>
     qm_named (nd_manager s) \<and> (\<forall>v. qm_path (nd_manager s) v \<noteq> None \<longrightarrow> v \<in> nd_ids s \<union> nd_deleted s) \<and>
     set (shouldDeleteVolIds (nd_worker s)) \<subseteq> nd_deleted s \<and> phase_ok (nd_ids s) (nd_deleted s) (nd_phase s)"

text \<open>The plugin has started: no round is running, nothing is left to retry.\<close>

definition node_start :: "'k cm_api \<Rightarrow> ConfigMapMetaStore \<Rightarrow> ('k, 'w) node_system \<Rightarrow> bool" where
  "node_start capi store s \<longleftrightarrow> nd_phase s = Waiting \<and> shouldDeleteVolIds (nd_worker s) = [] \<and>
     nd_ids s \<inter> nd_deleted s = {} \<and> recorded capi store (nd_ids s) (nd_cluster s) \<and>
     qm_named (nd_manager s) \<and> (\<forall>v. qm_path (nd_manager s) v \<noteq> None \<longrightarrow> v \<in> nd_ids s \<union> nd_deleted s)"

lemma node_start_inv: "node_start capi store s \<Longrightarrow> node_inv capi store s"
  by (simp add: node_start_def node_inv_def)

lemma release_step:
  assumes "qm_ReleaseVolumePath sys v q = (err, q')" "qm_named q"
  shows "qm_named q'" "qm_path q' u \<noteq> None \<Longrightarrow> qm_path q u \<noteq> None" "u \<noteq> v \<Longrightarrow> qm_path q' u = qm_path q u"
proof -
  have "qm_path q' u = qm_path q u \<or> u = v \<and> qm_path q' u = None"
    using ql.rel_only [of sys v q u] assms(1) by auto
  then show "qm_path q' u \<noteq> None \<Longrightarrow> qm_path q u \<noteq> None" "u \<noteq> v \<Longrightarrow> qm_path q' u = qm_path q u" by auto
  show "qm_named q'" using ql.named_rel [OF assms(2), of sys v] assms(1) by simp
qed

lemma recorded_change:
  assumes "recorded capi store ids k" "ListMetaInfos capi store k = Inr m" "ListMetaInfos capi store k' = Inr m'"
  shows "dom m' = (dom m - B) \<union> A \<Longrightarrow> recorded capi store ((ids - B) \<union> A) k'"
  using assms by (auto simp: recorded_def)

lemma phase_ok_more: "phase_ok ids deleted p \<Longrightarrow> ids \<union> deleted \<subseteq> ids' \<union> deleted' \<Longrightarrow> deleted \<subseteq> deleted' \<Longrightarrow> phase_ok ids' deleted' p"
  by (cases p) auto

lemma worker_step_inv:
  assumes "patches_apart api capi store" "worker_step sys api capi js store s s'" "node_inv capi store s"
  shows "node_inv capi store s' \<and> nd_ids s' = nd_ids s \<and>
    (\<forall>v\<in>nd_ids s. qm_path (nd_manager s') v = qm_path (nd_manager s) v)"
  using assms(2)
proof cases
  case (list l q)
  then have l: "qm_path q = qm_path (nd_manager s)" "qm_named q"
    using ql.list_keeps [of sys "nd_manager s"] ql.named_list [of "nd_manager s" sys] assms(3) by (auto simp: node_inv_def)
  moreover have "pq_VolumeId i \<in> nd_ids s \<union> nd_deleted s" if "i \<in> set (case l of Inl _ \<Rightarrow> [] | Inr infos \<Rightarrow> infos)" for i
    using ql.listed_known [of "nd_manager s" sys l q i] list(3) that l assms(3) by (auto simp: node_inv_def)
  ultimately show ?thesis using assms(3) by (auto simp: list(1) node_inv_def)
next
  case (retry infos v todo failed err q)
  then have v: "v \<notin> nd_ids s" and n: "qm_named (nd_manager s)" using assms(3) by (auto simp: node_inv_def)
  note r = release_step [OF retry(3) n]
  have "qm_path q u = qm_path (nd_manager s) u" if "u \<in> nd_ids s" for u using v that by (intro r(3)) auto
  then show ?thesis using assms(3) r(1,2) retry(2) by (auto simp: retry(1) node_inv_def)
next
  case (read infos failed metaInfos)
  then have "dom metaInfos = nd_ids s" using assms(3) by (simp add: node_inv_def recorded_def)
  then have "v \<notin> nd_ids s" if "metaInfos v = None" for v using that by (metis domIff)
  moreover have "pq_VolumeId ` set infos \<subseteq> nd_ids s \<union> nd_deleted s" using assms(3) read(2) by (simp add: node_inv_def)
  ultimately have "set (map pq_VolumeId (filter (\<lambda>q. metaInfos (pq_VolumeId q) = None) infos)) \<subseteq> nd_deleted s" by auto
  then show ?thesis using assms(3) read(2) by (simp add: read(1) node_inv_def)
next
  case (clean infos v todo failed err q)
  then have v: "v \<notin> nd_ids s" and n: "qm_named (nd_manager s)" using assms(3) by (auto simp: node_inv_def)
  note r = release_step [OF clean(3) n]
  have "qm_path q u = qm_path (nd_manager s) u" if "u \<in> nd_ids s" for u using v that by (intro r(3)) auto
  then show ?thesis using assms(3) r(1,2) clean(2) by (auto simp: clean(1) node_inv_def)
next
  case (report infos res r k)
  then obtain cache where u: "sync_usage_loop api js (nodeName (nd_worker s)) infos (lastSyncQuotaInfoCache (nd_worker s)) (nd_cluster s) =
      (Some res, cache, k)" and r: "r = (nd_worker s)\<lparr>lastSyncQuotaInfoCache := cache\<rparr>"
    by (auto simp: syncQuotaPathUsage_def split: prod.splits)
  show ?thesis
    using assms(3) sync_usage_meta [OF assms(1) u] by (auto simp: report(1) r node_inv_def recorded_def)
next
  case (disks l q)
  then show ?thesis
    using ql.disks_keep [of sys "nd_manager s"] ql.named_disks [of "nd_manager s" sys] assms(3) by (auto simp: node_inv_def)
next
  case (node infos res r q k)
  show ?thesis
    using assms(3) sync_node_path [OF node(3)] sync_node_meta [OF assms(1) node(3)]
    by (auto simp: node(1) node_inv_def recorded_def)
qed (use assms(3) in \<open>auto simp: node_inv_def\<close>)

lemma client_step_inv:
  assumes "api_stores capi" "client_step sys api capi js store d ev s s'" "client_allowed api capi js store ev s"
    and "node_inv capi store s"
  shows "node_inv capi store s'"
  using assms(2)
proof cases
  case (create req l resp l' k)
  have "create_locked capi store req (nd_cluster s) = (Inr resp, k)" using CreateVolume_ok [OF create(3)] by blast
  then have "AddMetaInfo capi store (cr_VolumeId resp) (nd_cluster s) = (None, k)" by (rule create_locked_ok)
  from AddMetaInfo_list [OF assms(1) this] have "recorded capi store (nd_ids s - {} \<union> {cr_VolumeId resp}) k"
    using assms(4) by (elim exE conjE) (rule recorded_change [of _ _ _ "nd_cluster s"], auto simp: node_inv_def)
  then show ?thesis
    using assms(3,4) by (auto simp: create(1,2) node_inv_def elim: phase_ok_more)
next
  case (delete vol k)
  have "UnsetMetaInfo capi store vol (nd_cluster s) = (None, k)"
    using delete(3) by (auto simp: DeleteVolume_def split: option.splits if_splits prod.splits)
  from UnsetMetaInfo_list [OF assms(1) this] have "recorded capi store (nd_ids s - {vol} \<union> {}) k"
    using assms(4) by (elim exE conjE) (rule recorded_change [of _ _ _ "nd_cluster s"], auto simp: node_inv_def split: if_splits)
  then show ?thesis
    using assms(4) by (auto simp: delete(1,2) node_inv_def elim: phase_ok_more)
next
  case (publish req l res l' q)
  have n: "qm_named (nd_manager s)" using assms(4) by (simp add: node_inv_def)
  have "v \<in> nd_ids s \<union> nd_deleted s" if "qm_path q v \<noteq> None" for v
  proof (cases "qm_path q v = qm_path (nd_manager s) v")
    case True
    then show ?thesis using that assms(4) by (simp add: node_inv_def)
  next
    case False
    then show ?thesis using publish_path(3) [OF publish(3) n False] assms(3) publish(1) by auto
  qed
  then show ?thesis using assms(4) publish_path(1) [OF publish(3) n] by (simp add: publish(2) node_inv_def)
next
  case (unpublish vol target l res l' q)
  have "qm_named q \<and> (qm_path q v = qm_path (nd_manager s) v \<or> v = vol \<and> qm_path q v = None)" for v
    using unpublish_path [OF unpublish(3)] assms(4) by (simp add: node_inv_def)
  then have "qm_named q" "\<And>v. qm_path q v \<noteq> None \<Longrightarrow> qm_path (nd_manager s) v \<noteq> None" by metis+
  then show ?thesis using assms(4) by (simp add: unpublish(2) node_inv_def)
next
  case (expand ereq l res l' q)
  then show ?thesis using assms(4) expand_path [OF expand(3)] by (simp add: node_inv_def)
qed (use assms(3,4) in \<open>auto simp: node_inv_def\<close>)

lemma node_run_inv:
  assumes "api_stores capi" "patches_apart api capi store" "(node_step sys api capi js store d)\<^sup>*\<^sup>* s0 s" "node_start capi store s0"
  shows "node_inv capi store s"
  using assms(3)
proof (induction rule: rtranclp_induct)
  case base
  then show ?case using assms(4) by (rule node_start_inv)
next
  case (step s s')
  then show ?case
    using worker_step_inv [OF assms(2)] client_step_inv [OF assms(1)] unfolding node_step_def by blast
qed

section \<open>A round of the code is a run of the steps\<close>

lemma release_steps:
  fixes s :: "('k, 'w) node_system"
  assumes "\<And>s v todo failed err q. nd_phase s = P (v # todo) failed \<Longrightarrow> qm_ReleaseVolumePath sys v (nd_manager s) = (err, q) \<Longrightarrow>
      R s (s\<lparr>nd_manager := q, nd_phase := P todo (if err = None then failed else failed @ [v])\<rparr>)"
    and "nd_phase s = P todo failed" "release_each sys todo (nd_manager s) = (f, q)"
  shows "R\<^sup>*\<^sup>* s (s\<lparr>nd_manager := q, nd_phase := P [] (failed @ f)\<rparr>)"
  using assms(2,3)
proof (induction todo arbitrary: s failed f)
  case Nil
  then have "s\<lparr>nd_manager := q, nd_phase := P [] (failed @ f)\<rparr> = s" by simp
  then show ?case by simp
next
  case (Cons v todo)
  obtain err q1 where v: "qm_ReleaseVolumePath sys v (nd_manager s) = (err, q1)" by (metis surj_pair)
  obtain f1 where f: "release_each sys todo q1 = (f1, q)" "f = (if err = None then f1 else v # f1)"
    using Cons.prems(2) v by (auto split: prod.splits)
  let ?s = "s\<lparr>nd_manager := q1, nd_phase := P todo (if err = None then failed else failed @ [v])\<rparr>"
  have "R s ?s" by (rule assms(1) [OF Cons.prems(1) v])
  moreover have "R\<^sup>*\<^sup>* ?s (?s\<lparr>nd_manager := q, nd_phase := P [] ((if err = None then failed else failed @ [v]) @ f1)\<rparr>)"
    using f(1) by (intro Cons.IH) simp_all
  ultimately show ?case using f(2) by (cases err) (auto intro: converse_rtranclp_into_rtranclp)
qed

lemma clean_in_steps:
  fixes s :: "('k, 'w) node_system"
  assumes "nd_phase s = Retrying infos (shouldDeleteVolIds (nd_worker s)) []"
    and "cleanOrphanQuotaPath sys capi store (nd_cluster s) infos (nd_worker s) (nd_manager s) = (err, r, q)"
  shows "(worker_step sys api capi js store)\<^sup>*\<^sup>* s (s\<lparr>nd_worker := r, nd_manager := q, nd_phase := Reporting infos\<rparr>)"
proof -
  let ?R = "worker_step sys api capi js store"
  obtain f1 q1 where f1: "release_each sys (shouldDeleteVolIds (nd_worker s)) (nd_manager s) = (f1, q1)" by (metis surj_pair)
  let ?s1 = "s\<lparr>nd_manager := q1, nd_phase := Retrying infos [] ([] @ f1)\<rparr>"
  have "?R\<^sup>*\<^sup>* s ?s1"
    by (rule release_steps [where P = "Retrying infos" and R = ?R, OF _ assms(1) f1]) (rule worker_step.retry)
  moreover have "?R\<^sup>*\<^sup>* ?s1 (s\<lparr>nd_worker := r, nd_manager := q, nd_phase := Reporting infos\<rparr>)"
  proof (cases "ListMetaInfos capi store (nd_cluster s)")
    case (Inl e)
    then have "r = nd_worker s" "q = q1" using assms(2) f1 by (simp_all add: cleanOrphanQuotaPath_def)
    then show ?thesis using worker_step.read_error [of ?s1 infos "[] @ f1" capi store e sys api js] Inl by auto
  next
    case (Inr metaInfos)
    let ?todo = "map pq_VolumeId (filter (\<lambda>q. metaInfos (pq_VolumeId q) = None) infos)"
    obtain f2 where f2: "release_each sys ?todo q1 = (f2, q)"
      and r: "r = (nd_worker s)\<lparr>shouldDeleteVolIds := f1 @ f2\<rparr>"
      using assms(2) f1 Inr by (auto simp: cleanOrphanQuotaPath_def split: prod.splits)
    let ?s2 = "?s1\<lparr>nd_phase := Cleaning infos ?todo f1\<rparr>"
    let ?s3 = "?s2\<lparr>nd_manager := q, nd_phase := Cleaning infos [] (f1 @ f2)\<rparr>"
    have "?R ?s1 ?s2" using worker_step.read [of ?s1 infos f1 capi store metaInfos sys api js] Inr by simp
    moreover have "?R\<^sup>*\<^sup>* ?s2 ?s3"
      by (rule release_steps [where P = "Cleaning infos" and R = ?R and todo = ?todo]) (rule worker_step.clean, use f2 in simp_all)
    moreover have "?R ?s3 (s\<lparr>nd_worker := r, nd_manager := q, nd_phase := Reporting infos\<rparr>)"
      using worker_step.cleaned [of ?s3 infos "f1 @ f2" sys api capi js store] by (cases s) (simp add: r)
    ultimately show ?thesis by (meson converse_rtranclp_into_rtranclp rtranclp.rtrancl_into_rtrancl)
  qed
  ultimately show ?thesis by (rule rtranclp_trans)
qed

lemma round_in_steps:
  fixes s :: "('k, 'w) node_system"
  assumes "nd_phase s = Waiting"
    and "populatorLoopFunc sys api capi js store (nd_worker s) (nd_manager s) (nd_cluster s) = (True, r, q, k)"
  shows "(worker_step sys api capi js store)\<^sup>*\<^sup>* s (s\<lparr>nd_worker := r, nd_manager := q, nd_cluster := k\<rparr>)"
proof -
  let ?R = "worker_step sys api capi js store"
  obtain l q1 where l: "qm_ListPathQuotaInfos sys (nd_manager s) = (l, q1)" by (metis surj_pair)
  define infos where "infos = (case l of Inl _ \<Rightarrow> [] | Inr infos \<Rightarrow> infos)"
  obtain e r1 q2 where c: "cleanOrphanQuotaPath sys capi store (nd_cluster s) infos (nd_worker s) q1 = (e, r1, q2)"
    by (metis prod_cases3)
  obtain res r2 k2 where u: "syncQuotaPathUsage api js infos r1 (nd_cluster s) = (Some res, r2, k2)"
    using assms(2) l c by (auto simp: populatorLoopFunc_def infos_def split: prod.splits option.splits)
  obtain l2 q3 where l2: "qm_ListQuotaDiskInfos sys q2 = (l2, q3)" by (metis surj_pair)
  obtain res2 where n: "syncNodeQuotaStatus sys api js (case l2 of Inl _ \<Rightarrow> [] | Inr infos \<Rightarrow> infos) r2 q3 k2 = (Some res2, r, q, k)"
    using assms(2) l c u l2 by (auto simp: populatorLoopFunc_def infos_def split: prod.splits option.splits)
  let ?s1 = "s\<lparr>nd_manager := q1, nd_phase := Retrying infos (shouldDeleteVolIds (nd_worker s)) []\<rparr>"
  let ?s2 = "?s1\<lparr>nd_worker := r1, nd_manager := q2, nd_phase := Reporting infos\<rparr>"
  let ?s3 = "?s2\<lparr>nd_worker := r2, nd_cluster := k2, nd_phase := Listing_disks\<rparr>"
  let ?s4 = "?s3\<lparr>nd_manager := q3, nd_phase := Syncing_node (case l2 of Inl _ \<Rightarrow> [] | Inr infos \<Rightarrow> infos)\<rparr>"
  have "?R s ?s1" using worker_step.list [OF assms(1) l] by (simp add: infos_def)
  moreover have "?R\<^sup>*\<^sup>* ?s1 ?s2" using c by (intro clean_in_steps) simp_all
  moreover have "?R ?s2 ?s3" using u by (intro worker_step.report) simp_all
  moreover have "?R ?s3 ?s4" using l2 by (intro worker_step.disks) simp_all
  moreover have "?R ?s4 (s\<lparr>nd_worker := r, nd_manager := q, nd_cluster := k\<rparr>)"
    using worker_step.node [of ?s4 _ sys api js res2 r q k capi store] n assms(1) by (cases s) simp
  ultimately show ?thesis by (meson converse_rtranclp_into_rtranclp rtranclp.rtrancl_into_rtrancl rtranclp_trans)
qed

section \<open>Properties\<close>

text \<open>
  C2. Cleaning does not race with the life of a volume: however the steps of the worker's rounds
  interleave with creations, deletions, publications, expansions and other changes of the cluster, no
  step of the worker touches the directory of a volume that is recorded, provided that Kubernetes keeps
  to \<open>client_allowed\<close>: no ID is created again after its deletion, only recorded volumes are published,
  and nobody else edits the config map. A round of \<open>populatorLoopFunc\<close> is a run of these steps.
\<close>

theorem cleaning_spares_live_volumes:
  assumes "api_stores capi" "patches_apart api capi store" "node_start capi store s0"
    and "(node_step sys api capi js store d)\<^sup>*\<^sup>* s0 s" "worker_step sys api capi js store s s'" "v \<in> nd_ids s"
  shows "qm_path (nd_manager s') v = qm_path (nd_manager s) v"
  using worker_step_inv [OF assms(2,5) node_run_inv [OF assms(1,2,4,3)]] assms(6) by blast

text \<open>
  A cluster with a config map and volume objects, a node with one recorded volume; between listing
  the directories and reading the meta store, another volume is deleted.
\<close>

definition both_cm :: "(mem_api \<times> CorePV list) cm_api" where
  "both_cm = \<lparr>
     cm_Get = (\<lambda>k. cm_Get mem_cm (fst k)),
     cm_Create = (\<lambda>ns cm k. apsnd (\<lambda>c. (c, snd k)) (cm_Create mem_cm ns cm (fst k))),
     cm_Update = (\<lambda>ns cm k. apsnd (\<lambda>c. (c, snd k)) (cm_Update mem_cm ns cm (fst k)))\<rparr>"

definition both_kube :: "(mem_api \<times> CorePV list) kube" where
  "both_kube = \<lparr>
     pv_Get = (\<lambda>k. pv_Get pv_kube (snd k)), node_Get = (\<lambda>k. node_Get pv_kube (snd k)),
     pv_Patch = (\<lambda>name p k. apsnd (Pair (fst k)) (pv_Patch pv_kube name p (snd k))),
     node_Patch = (\<lambda>name p k. apsnd (Pair (fst k)) (node_Patch pv_kube name p (snd k))),
     pod_Bind = (\<lambda>pod n k. apsnd (Pair (fst k)) (pod_Bind pv_kube pod n (snd k)))\<rparr>"

lemma both_cm_stores: "api_stores both_cm"
proof -
  have "\<exists>v. cm_Get both_cm k' ns (cm_Name cm) = Inr (cm\<lparr>cm_Version := v\<rparr>)"
    if "cm_Update both_cm ns cm k = (None, k') \<or> cm_Create both_cm ns cm k = (None, k')" for ns cm k k'
    using that mem_cm_stores unfolding api_stores_def
    by (auto simp: both_cm_def apsnd_def map_prod_def split: prod.splits)
  moreover have "cm_Name cm = name" if "cm_Get both_cm k ns name = Inr cm" for k ns name cm
    using that api_stores_name [OF mem_cm_stores] by (simp add: both_cm_def)
  ultimately show ?thesis unfolding api_stores_def by blast
qed

lemma both_apart: "patches_apart both_kube both_cm store"
  by (simp add: patches_apart_def ListMetaInfos_def both_cm_def both_kube_def)

definition race_start :: "(mem_api \<times> CorePV list, mem) node_system" where
  "race_start = \<lparr>nd_cluster = ([(''kube-system'', ''meta'') \<mapsto>
       \<lparr>cm_Name = ''meta'', cm_Data = Some [vol7 \<mapsto> ''''], cm_Version = 1\<rparr>], [pv7]),
     nd_manager = (XFS manager7, mem0), nd_worker = worker0, nd_phase = Waiting, nd_ids = {vol7}, nd_deleted = {}\<rparr>"

lemma race_start_ok: "node_start both_cm store0 race_start"
  by (auto simp: node_start_def race_start_def worker0_def recorded_def ListMetaInfos_def both_cm_def mem_cm_def store0_def
      go_map_def quotas_named_def manager7_def new_info_def xq_path_def split: if_splits)

theorem cleaning_spares_live_volumes_witness:
  "\<exists>s s'. (node_step mem_os both_kube both_cm json0 store0 driver0)\<^sup>*\<^sup>* race_start s \<and>
     worker_step mem_os both_kube both_cm json0 store0 s s' \<and> nd_deleted s = {''gone''} \<and>
     qm_path (nd_manager s') vol7 = qm_path (nd_manager s) vol7"
proof -
  let ?R = "worker_step mem_os both_kube both_cm json0 store0" and ?N = "node_step mem_os both_kube both_cm json0 store0 driver0"
  obtain l q where l: "qm_ListPathQuotaInfos mem_os (nd_manager race_start) = (l, q)" by (metis surj_pair)
  define infos where "infos = (case l of Inl _ \<Rightarrow> [] | Inr infos \<Rightarrow> infos)"
  let ?s1 = "race_start\<lparr>nd_manager := q, nd_phase := Retrying infos [] []\<rparr>"
  have s1: "?N race_start ?s1"
    using worker_step.list [of race_start mem_os l q both_kube both_cm json0 store0] l
    by (simp add: node_step_def infos_def) (simp add: race_start_def worker0_def)
  obtain k where k: "DeleteVolume both_cm driver0 store0 ''gone'' (nd_cluster ?s1) = (None, k)"
    by (simp add: DeleteVolume_def driver0_def ValidateControllerServiceRequest_def UnsetMetaInfo_def both_cm_def mem_cm_def
        race_start_def store0_def)
  let ?s2 = "?s1\<lparr>nd_cluster := k, nd_ids := nd_ids ?s1 - {''gone''}, nd_deleted := insert ''gone'' (nd_deleted ?s1)\<rparr>"
  have "client_step mem_os both_kube both_cm json0 store0 driver0 (Deletes ''gone'') ?s1 ?s2" by (rule client_step.delete [OF k])
  then have s2: "?N ?s1 ?s2" unfolding node_step_def by (metis client_allowed.simps(4))
  have "UnsetMetaInfo both_cm store0 ''gone'' (nd_cluster ?s1) = (None, k)"
    using k by (auto simp: DeleteVolume_def split: option.splits if_splits prod.splits)
  from UnsetMetaInfo_list [OF both_cm_stores this] obtain m where "ListMetaInfos both_cm store0 k = Inr m" by blast
  then obtain s3 where s3: "?R ?s2 s3" using worker_step.read [of ?s2 infos "[]" both_cm store0 m] by fastforce
  have r: "?N\<^sup>*\<^sup>* race_start ?s2" using s1 s2 by (meson r_into_rtranclp rtranclp_trans)
  have v: "vol7 \<in> nd_ids ?s2" by (simp add: race_start_def vol7_def)
  have "nd_deleted ?s2 = {''gone''}" by (simp add: race_start_def)
  then show ?thesis
    using r s3 cleaning_spares_live_volumes [OF both_cm_stores both_apart race_start_ok r s3 v] by blast
qed

end
