(* ===== verification/Request_Race.thy ===== *)
theory Request_Race
  imports Node_Race
begin

text \<open>
  The requests of a node beside each other. A request of nodeserver.go is no atomic step either: it
  takes the lock of its volume, looks at the target, reads the volume object, asks the quota manager
  for a directory and mounts it, and between any two of these calls other requests, the sync worker
  and the rest of the cluster go on. Here every handler is split at each of its calls
  (pkg/csi-plugin/hostpath/nodeserver.go); the lock of \<^verbatim>\<open>pkg/util/idlocker.go\<close> is held from the first
  to the last of them.
\<close>

section \<open>A request in steps\<close>

datatype node_request =
    PublishRequest NodePublishVolumeRequest
  | UnpublishRequest string string
  | ExpandRequest NodeExpandVolumeRequest

text \<open>What the three handlers return; \<open>None\<close> in the outer option is a panic.\<close>

datatype request_result =
    Published "node_error option option"
  | Unpublished "node_status option option"
  | Expanded "node_status option"

text \<open>Where a request that holds its lock is, named after the call it makes next.\<close>

datatype request_phase =
    Checking NodePublishVolumeRequest
  | Creating NodePublishVolumeRequest
  | Looking NodePublishVolumeRequest
  | Getting NodePublishVolumeRequest PersistentVolume
  | Mounting NodePublishVolumeRequest PersistentVolume string
  | Probing string string bool
  | Unmounting string string bool
  | Releasing string string
  | Removing string string
  | Expanding string "int option"
  | Returning string request_result

text \<open>The volume whose lock the request holds.\<close>

fun phase_volume :: "request_phase \<Rightarrow> string" where
  "phase_volume (Checking req) = np_VolumeId req"
| "phase_volume (Creating req) = np_VolumeId req"
| "phase_volume (Looking req) = np_VolumeId req"
| "phase_volume (Getting req _) = np_VolumeId req"
| "phase_volume (Mounting req _ _) = np_VolumeId req"
| "phase_volume (Probing volID _ _) = volID"
| "phase_volume (Unmounting volID _ _) = volID"
| "phase_volume (Releasing volID _) = volID"
| "phase_volume (Removing volID _) = volID"
| "phase_volume (Expanding volID _) = volID"
| "phase_volume (Returning volID _) = volID"

text \<open>The checks of the request and the lock: a result at once, or the first call under the lock.\<close>

fun request_begin :: "node_request \<Rightarrow> VolumeLocks \<Rightarrow> (request_result + request_phase) \<times> VolumeLocks" where
  "request_begin (PublishRequest req) l =
     (case ValidateNodePublishVolumeRequest req of
        Some err \<Rightarrow> (Inl (Published (Some (Some (Grpc err)))), l)
      | None \<Rightarrow>
          (case TryAcquire (np_VolumeId req) l of
             (False, l) \<Rightarrow> (Inl (Published (Some (Some (Grpc (operation_exists (np_VolumeId req)))))), l)
           | (True, l) \<Rightarrow> (Inr (Checking req), l)))"
| "request_begin (UnpublishRequest volID targetPath) l =
     (case ValidateNodeUnpublishVolumeRequest volID targetPath of
        Some err \<Rightarrow> (Inl (Unpublished (Some (Some err))), l)
      | None \<Rightarrow>
          (case DecomposeCSIID zero_CSIIdentifier volID of
             None \<Rightarrow> (Inl (Unpublished None), l)
           | Some (_, Some err) \<Rightarrow>
               (Inl (Unpublished (Some (Some (status_Error Internal (''failed decode volId '' @ volID @ '' ''))))), l)
           | Some (vi, None) \<Rightarrow>
               (case TryAcquire volID l of
                  (False, l) \<Rightarrow> (Inl (Unpublished (Some (Some (operation_exists volID)))), l)
                | (True, l) \<Rightarrow> (Inr (Probing volID targetPath (Ephemeral vi)), l))))"
| "request_begin (ExpandRequest req) l =
     (if length (ne_VolumeId req) = 0 then
        (Inl (Expanded (Some (status_Error InvalidArgument ''volume ID must be provided''))), l)
      else if length (ne_VolumePath req) = 0 then
        (Inl (Expanded (Some (status_Error InvalidArgument ''volume path must be provided''))), l)
      else case TryAcquire (ne_VolumeId req) l of
             (False, l) \<Rightarrow> (Inl (Expanded (Some (operation_exists (ne_VolumeId req)))), l)
           | (True, l) \<Rightarrow> (Inr (Expanding (ne_VolumeId req) (ne_RequiredBytes req)), l))"

text \<open>One call of a publish under the lock, and of the other two handlers.\<close>

definition internal_os :: "oserr \<Rightarrow> node_status" where
  "internal_os err = status_of Internal (CauseOs err)"

fun request_next ::
    "'w os \<Rightarrow> 'k kube \<Rightarrow> json \<Rightarrow> 'k \<Rightarrow> request_phase \<Rightarrow> QuotaManager \<times> 'w \<Rightarrow> request_phase \<times> QuotaManager \<times> 'w" where
  "request_next sys api js k (Checking req) (qm, w) =
     (case mnt_IsNotMountPoint sys w (np_TargetPath req) of
        Inl err \<Rightarrow>
          (if err = ENOENT then Creating req
           else Returning (np_VolumeId req) (Published (Some (Some (Grpc (internal_os err))))), qm, w)
      | Inr notMnt \<Rightarrow>
          (if \<not> notMnt then Returning (np_VolumeId req) (Published (Some None)) else Looking req, qm, w))"
| "request_next sys api js k (Creating req) (qm, w) =
     (case CreateNewDir sys (np_TargetPath req) w of
        (Some err, w) \<Rightarrow> (Returning (np_VolumeId req) (Published (Some (Some (Grpc (internal_os err))))), qm, w)
      | (None, w) \<Rightarrow> (Looking req, qm, w))"
| "request_next sys api js k (Looking req) s =
     (case GetHostPathPVByVolumeId api js k (np_VolumeId req) of
        None \<Rightarrow> Returning (np_VolumeId req) (Published None)
      | Some None \<Rightarrow>
          Returning (np_VolumeId req)
            (Published (Some (Some (Grpc (status_Error Internal (''volume '' @ np_VolumeId req @ '' not found''))))))
      | Some (Some volume) \<Rightarrow> Getting req volume, s)"
| "request_next sys api js k (Getting req volume) s =
     (case qm_GetVolumeQuotaPath sys (hpv_volId volume) (hpv_capacity volume) s of
        (Inl err, s) \<Rightarrow> (Returning (np_VolumeId req) (Published (Some (Some (Raw err)))), s)
      | (Inr quotaPath, s) \<Rightarrow> (Mounting req volume quotaPath, s))"
| "request_next sys api js k (Mounting req volume quotaPath) (qm, w) =
     (case mountVolume sys quotaPath req w of
        (err, w) \<Rightarrow> (Returning (np_VolumeId req) (Published (Some (map_option Grpc err))), qm, w))"
| "request_next sys api js k (Probing volID targetPath ephemeral) (qm, w) =
     (case mnt_IsNotMountPoint sys w targetPath of
        Inl err \<Rightarrow>
          (Returning volID (Unpublished (Some (if err = ENOENT then None else Some (internal_os err)))), qm, w)
      | Inr notMnt \<Rightarrow>
          (if \<not> notMnt then Unmounting volID targetPath ephemeral
           else if ephemeral then Releasing volID targetPath else Removing volID targetPath, qm, w))"
| "request_next sys api js k (Unmounting volID targetPath ephemeral) (qm, w) =
     (case mnt_Unmount sys targetPath w of
        (Some err, w) \<Rightarrow> (Returning volID (Unpublished (Some (Some (internal_os err)))), qm, w)
      | (None, w) \<Rightarrow> (if ephemeral then Releasing volID targetPath else Removing volID targetPath, qm, w))"
| "request_next sys api js k (Releasing volID targetPath) s =
     (case qm_ReleaseVolumePath sys volID s of
        (Some err, s) \<Rightarrow> (Returning volID (Unpublished (Some (Some (status_of Internal (CauseQm err))))), s)
      | (None, s) \<Rightarrow> (Removing volID targetPath, s))"
| "request_next sys api js k (Removing volID targetPath) (qm, w) =
     (case os_RemoveAll sys targetPath w of
        (Some err, w) \<Rightarrow> (Returning volID (Unpublished (Some (Some (internal_os err)))), qm, w)
      | (None, w) \<Rightarrow> (Returning volID (Unpublished (Some None)), qm, w))"
| "request_next sys api js k (Expanding volID None) s =
     (Returning volID (Expanded (Some (status_Error InvalidArgument ''capacityRange cannot be empty''))), s)"
| "request_next sys api js k (Expanding volID (Some bytes)) s =
     (case qm_ExpandVolume sys volID bytes s of
        (Some err, s) \<Rightarrow>
          (Returning volID (Expanded (Some (Status Internal (''failed expand volume '' @ volID @ '' ,err '') (Some (CauseQm err))))), s)
      | (None, s) \<Rightarrow> (Returning volID (Expanded None), s))"
| "request_next sys api js k (Returning volID res) s = (Returning volID res, s)"

text \<open>How many calls are left at most.\<close>

fun calls_left :: "request_phase \<Rightarrow> nat" where
  "calls_left (Checking _) = 5"
| "calls_left (Creating _) = 4"
| "calls_left (Looking _) = 3"
| "calls_left (Getting _ _) = 2"
| "calls_left (Mounting _ _ _) = 1"
| "calls_left (Probing _ _ _) = 4"
| "calls_left (Unmounting _ _ _) = 3"
| "calls_left (Releasing _ _) = 2"
| "calls_left (Removing _ _) = 1"
| "calls_left (Expanding _ _) = 1"
| "calls_left (Returning _ _) = 0"

lemma request_next_less:
  "request_next sys api js k ph s = (ph', s') \<Longrightarrow> 0 < calls_left ph \<Longrightarrow> calls_left ph' < calls_left ph"
  by (induction sys api js k ph s rule: request_next.induct)
    (auto split: sum.splits option.splits prod.splits if_splits)

lemma request_next_volume [simp]: "phase_volume (fst (request_next sys api js k ph s)) = phase_volume ph"
  by (induction sys api js k ph s rule: request_next.induct)
    (auto split: sum.splits option.splits prod.splits)

text \<open>The calls of one request that runs alone, up to its result.\<close>

function run_request ::
    "'w os \<Rightarrow> 'k kube \<Rightarrow> json \<Rightarrow> 'k \<Rightarrow> request_phase \<Rightarrow> QuotaManager \<times> 'w \<Rightarrow> request_result \<times> QuotaManager \<times> 'w" where
  "run_request sys api js k ph s =
     (case ph of
        Returning volID res \<Rightarrow> (res, s)
      | _ \<Rightarrow> run_request sys api js k (fst (request_next sys api js k ph s)) (snd (request_next sys api js k ph s)))"
  by pat_completeness auto

termination
proof (relation "measure (\<lambda>(sys, api, js, k, ph, s). calls_left ph)", goal_cases)
  case 1
  show ?case by simp
qed (simp only: in_measure case_prod_conv, rule request_next_less [OF surjective_pairing], simp)+

declare run_request.simps [simp del]


section \<open>The handlers are runs of their steps\<close>

text \<open>The three handlers of the node server as one operation.\<close>

fun handle_request ::
    "'w os \<Rightarrow> 'k kube \<Rightarrow> json \<Rightarrow> 'k \<Rightarrow> node_request \<Rightarrow> VolumeLocks \<Rightarrow> QuotaManager \<times> 'w
       \<Rightarrow> request_result \<times> VolumeLocks \<times> QuotaManager \<times> 'w" where
  "handle_request sys api js k (PublishRequest req) l s = apfst Published (NodePublishVolume sys api js k req l s)"
| "handle_request sys api js k (UnpublishRequest volID targetPath) l s =
     apfst Unpublished (NodeUnpublishVolume sys volID targetPath l s)"
| "handle_request sys api js k (ExpandRequest req) l s = apfst Expanded (NodeExpandVolume sys req l s)"

lemma run_returning [simp]: "run_request sys api js k (Returning volID res) s = (res, s)"
  by (simp add: run_request.simps)

lemma run_next:
  "0 < calls_left ph \<Longrightarrow> request_next sys api js k ph s = (ph', s') \<Longrightarrow>
   run_request sys api js k ph s = run_request sys api js k ph' s'"
  by (subst run_request.simps) (cases ph; simp)

lemma run_looking: "run_request sys api js k (Looking req) s = apfst Published (publish_mount sys api js k req s)"
proof -
  have mount: "run_request sys api js k (Mounting req volume p) (qm, w) =
      (case mountVolume sys p req w of (err, w) \<Rightarrow> (Published (Some (map_option Grpc err)), qm, w))" for volume p qm w
    by (subst run_next [OF _ surjective_pairing]) (simp_all split: prod.split)
  have "run_request sys api js k (Getting req volume) s =
      (case qm_GetVolumeQuotaPath sys (hpv_volId volume) (hpv_capacity volume) s of
         (Inl err, s) \<Rightarrow> (Published (Some (Some (Raw err))), s)
       | (Inr p, s) \<Rightarrow> run_request sys api js k (Mounting req volume p) s)" for volume
    by (subst run_next [OF _ surjective_pairing]) (simp_all split: prod.split sum.split)
  with mount show ?thesis
    by (subst run_next [OF _ surjective_pairing])
      (auto simp: publish_mount_def split: prod.splits option.splits sum.splits)
qed

lemma run_checking: "run_request sys api js k (Checking req) s = apfst Published (publish_locked sys api js k req s)"
proof -
  obtain qm w where s: "s = (qm, w)" by (metis surj_pair)
  have "run_request sys api js k (Creating req) (qm, w) =
      (case CreateNewDir sys (np_TargetPath req) w of
         (Some err, w) \<Rightarrow> (Published (Some (Some (Grpc (internal_os err)))), qm, w)
       | (None, w) \<Rightarrow> run_request sys api js k (Looking req) (qm, w))"
    by (subst run_next [OF _ surjective_pairing]) (simp_all split: prod.split option.split)
  then show ?thesis
    unfolding s
    by (subst run_next [OF _ surjective_pairing])
      (auto simp: publish_locked_def run_looking internal_os_def split: prod.splits option.splits sum.splits)
qed

lemma run_probing:
  "run_request sys api js k (Probing volID targetPath ephemeral) s =
     apfst (\<lambda>r. Unpublished (Some r)) (unpublish_locked sys volID targetPath ephemeral s)"
proof -
  obtain qm w where s: "s = (qm, w)" by (metis surj_pair)
  have remove: "run_request sys api js k (Removing volID targetPath) (qm, w) =
      (case os_RemoveAll sys targetPath w of
         (Some err, w) \<Rightarrow> (Unpublished (Some (Some (internal_os err))), qm, w)
       | (None, w) \<Rightarrow> (Unpublished (Some None), qm, w))" for qm w
    by (subst run_next [OF _ surjective_pairing]) (simp_all split: prod.split option.split)
  have rel: "run_request sys api js k (Releasing volID targetPath) s =
      (case qm_ReleaseVolumePath sys volID s of
         (Some err, s) \<Rightarrow> (Unpublished (Some (Some (status_of Internal (CauseQm err)))), s)
       | (None, s) \<Rightarrow> run_request sys api js k (Removing volID targetPath) s)" for s
    by (subst run_next [OF _ surjective_pairing]) (simp_all split: prod.split option.split)
  have "run_request sys api js k (Unmounting volID targetPath ephemeral) (qm, w) =
      (case mnt_Unmount sys targetPath w of
         (Some err, w) \<Rightarrow> (Unpublished (Some (Some (internal_os err))), qm, w)
       | (None, w) \<Rightarrow> run_request sys api js k (if ephemeral then Releasing volID targetPath else Removing volID targetPath) (qm, w))"
    by (subst run_next [OF _ surjective_pairing]) (simp_all split: prod.split option.split)
  then show ?thesis
    unfolding s
    by (subst run_next [OF _ surjective_pairing])
      (auto simp: unpublish_locked_def remove rel internal_os_def split: prod.splits option.splits sum.splits)
qed

lemma run_expanding:
  "run_request sys api js k (Expanding volID bytes) s =
     (case bytes of
        None \<Rightarrow> (Expanded (Some (status_Error InvalidArgument ''capacityRange cannot be empty'')), s)
      | Some n \<Rightarrow>
          (case qm_ExpandVolume sys volID n s of
             (Some err, s) \<Rightarrow>
               (Expanded (Some (Status Internal (''failed expand volume '' @ volID @ '' ,err '') (Some (CauseQm err)))), s)
           | (None, s) \<Rightarrow> (Expanded None, s)))"
  by (subst run_next [OF _ surjective_pairing]) (simp_all split: prod.split option.split)


lemma request_begin_volume:
  "request_begin r l = (Inr ph, l') \<Longrightarrow> TryAcquire (phase_volume ph) l = (True, l') \<and> 0 < calls_left ph"
  by (cases r) (auto split: option.splits prod.splits bool.splits if_splits)

lemma request_begin_refused: "request_begin r l = (Inl res, l') \<Longrightarrow> l' = l"
  using unlock_after(2) by (cases r) (auto split: option.splits prod.splits bool.splits if_splits)

lemma handle_request_steps:
  "handle_request sys api js k r l s =
     (case request_begin r l of
        (Inl res, l) \<Rightarrow> (res, l, s)
      | (Inr ph, l) \<Rightarrow>
          (case run_request sys api js k ph s of (res, s) \<Rightarrow> (res, ReleaseLock (phase_volume ph) l, s)))"
proof (cases r)
  case (PublishRequest req)
  then show ?thesis
    by (auto simp: NodePublishVolume_def run_checking split: option.splits prod.splits bool.splits)
next
  case (UnpublishRequest volID targetPath)
  then show ?thesis
    by (auto simp: NodeUnpublishVolume_def run_probing split: option.splits prod.splits bool.splits)
next
  case (ExpandRequest req)
  then show ?thesis
    by (auto simp: NodeExpandVolume_def run_expanding split: option.splits prod.splits bool.splits)
qed

section \<open>Requests beside each other, the worker and the cluster\<close>

record ('k, 'w) request_system =
  rq_node :: "('k, 'w) node_system"
  rq_locks :: VolumeLocks
  rq_threads :: "nat \<Rightarrow> request_phase option"

text \<open>
  A request comes in and is refused or starts, makes its next call, or returns, whereupon the
  deferred release runs; the worker takes a step; the other clients change the cluster (the steps of
  \<open>client_step\<close> that do not touch this node's quota manager: volumes are created and deleted, and
  objects change). The steps assume nothing of the cluster.
\<close>

datatype 'k request_event =
    Arrives nat node_request
  | Calls nat
  | Returns nat
  | Works
  | Elsewhere "'k client_event"

fun cluster_event :: "'k client_event \<Rightarrow> bool" where
  "cluster_event (Publishes _) \<longleftrightarrow> False"
| "cluster_event (Unpublishes _ _) \<longleftrightarrow> False"
| "cluster_event (Expands _) \<longleftrightarrow> False"
| "cluster_event _ \<longleftrightarrow> True"

inductive request_step ::
    "'w os \<Rightarrow> 'k kube \<Rightarrow> 'k cm_api \<Rightarrow> json \<Rightarrow> ConfigMapMetaStore \<Rightarrow> CSIDriver \<Rightarrow> 'k request_event
       \<Rightarrow> ('k, 'w) request_system \<Rightarrow> ('k, 'w) request_system \<Rightarrow> bool"
  for sys :: "'w os" and api :: "'k kube" and capi :: "'k cm_api" and js :: json and store :: ConfigMapMetaStore
    and d :: CSIDriver where
  refused: "rq_threads s t = None \<Longrightarrow> request_begin r (rq_locks s) = (Inl res, l) \<Longrightarrow>
    request_step sys api capi js store d (Arrives t r) s (s\<lparr>rq_locks := l\<rparr>)"
| started: "rq_threads s t = None \<Longrightarrow> request_begin r (rq_locks s) = (Inr ph, l) \<Longrightarrow>
    request_step sys api capi js store d (Arrives t r) s (s\<lparr>rq_locks := l, rq_threads := (rq_threads s)(t \<mapsto> ph)\<rparr>)"
| called: "rq_threads s t = Some ph \<Longrightarrow> 0 < calls_left ph \<Longrightarrow>
    request_next sys api js (nd_cluster (rq_node s)) ph (nd_manager (rq_node s)) = (ph', q) \<Longrightarrow>
    request_step sys api capi js store d (Calls t) s
      (s\<lparr>rq_node := (rq_node s)\<lparr>nd_manager := q\<rparr>, rq_threads := (rq_threads s)(t \<mapsto> ph')\<rparr>)"
| returned: "rq_threads s t = Some (Returning volID res) \<Longrightarrow>
    request_step sys api capi js store d (Returns t) s
      (s\<lparr>rq_locks := ReleaseLock volID (rq_locks s), rq_threads := (rq_threads s)(t := None)\<rparr>)"
| worked: "worker_step sys api capi js store (rq_node s) n \<Longrightarrow>
    request_step sys api capi js store d Works s (s\<lparr>rq_node := n\<rparr>)"
| changed: "client_step sys api capi js store d ev (rq_node s) n \<Longrightarrow> cluster_event ev \<Longrightarrow>
    request_step sys api capi js store d (Elsewhere ev) s (s\<lparr>rq_node := n\<rparr>)"

definition any_step ::
    "'w os \<Rightarrow> 'k kube \<Rightarrow> 'k cm_api \<Rightarrow> json \<Rightarrow> ConfigMapMetaStore \<Rightarrow> CSIDriver
       \<Rightarrow> ('k, 'w) request_system \<Rightarrow> ('k, 'w) request_system \<Rightarrow> bool" where
  "any_step sys api capi js store d s s' \<longleftrightarrow> (\<exists>ev. request_step sys api capi js store d ev s s')"

text \<open>
  How Kubernetes uses the node, as a condition on a step: the kubelet publishes a volume under the handle
  of its volume object, and only while its ID is recorded, and the cluster changes as
  \<open>client_allowed\<close> says.
\<close>

fun lookup_ok :: "'k kube \<Rightarrow> json \<Rightarrow> string set \<Rightarrow> 'k \<Rightarrow> request_phase \<Rightarrow> bool" where
  "lookup_ok api js ids k (Looking req) \<longleftrightarrow>
     (case GetHostPathPVByVolumeId api js k (np_VolumeId req) of
        Some (Some volume) \<Rightarrow> hpv_volId volume = np_VolumeId req \<and> np_VolumeId req \<in> ids
      | _ \<Rightarrow> True)"
| "lookup_ok api js ids k _ \<longleftrightarrow> True"

fun request_allowed ::
    "'k kube \<Rightarrow> 'k cm_api \<Rightarrow> json \<Rightarrow> ConfigMapMetaStore \<Rightarrow> 'k request_event \<Rightarrow> ('k, 'w) request_system \<Rightarrow> bool" where
  "request_allowed api capi js store (Calls t) s \<longleftrightarrow>
     (case rq_threads s t of
        None \<Rightarrow> True
      | Some ph \<Rightarrow> lookup_ok api js (nd_ids (rq_node s)) (nd_cluster (rq_node s)) ph)"
| "request_allowed api capi js store (Elsewhere ev) s \<longleftrightarrow> client_allowed api capi js store ev (rq_node s)"
| "request_allowed api capi js store _ s \<longleftrightarrow> True"

definition kube_step ::
    "'w os \<Rightarrow> 'k kube \<Rightarrow> 'k cm_api \<Rightarrow> json \<Rightarrow> ConfigMapMetaStore \<Rightarrow> CSIDriver
       \<Rightarrow> ('k, 'w) request_system \<Rightarrow> ('k, 'w) request_system \<Rightarrow> bool" where
  "kube_step sys api capi js store d s s' \<longleftrightarrow>
     (\<exists>ev. request_step sys api capi js store d ev s s' \<and> request_allowed api capi js store ev s)"

lemma any_stepI: "request_step sys api capi js store d ev s s' \<Longrightarrow> any_step sys api capi js store d s s'"
  by (auto simp: any_step_def)

lemma kube_any: "kube_step sys api capi js store d s s' \<Longrightarrow> any_step sys api capi js store d s s'"
  by (auto simp: any_step_def kube_step_def)

lemma kube_any_run: "(kube_step sys api capi js store d)\<^sup>*\<^sup>* s s' \<Longrightarrow> (any_step sys api capi js store d)\<^sup>*\<^sup>* s s'"
  by (rule rtranclp_mono [THEN predicate2D]) (auto intro: kube_any)

definition request_start :: "'k cm_api \<Rightarrow> ConfigMapMetaStore \<Rightarrow> ('k, 'w) request_system \<Rightarrow> bool" where
  "request_start capi store s \<longleftrightarrow>
     node_start capi store (rq_node s) \<and> rq_locks s = NewVolumeLocks \<and> rq_threads s = (\<lambda>_. None)"

section \<open>The requests as users of the lock\<close>

text \<open>What of a system the lock sees: the handlers with the volumes they work on.\<close>

definition lock_view :: "('k, 'w) request_system \<Rightarrow> lock_system" where
  "lock_view s = \<lparr>ls_locks = rq_locks s, ls_running = (\<lambda>t. map_option phase_volume (rq_threads s t))\<rparr>"

lemma lock_view_step:
  assumes "request_step sys api capi js store d ev s s'"
  shows "lock_view s' = lock_view s \<or> handler_step (lock_view s) (lock_view s')"
  using assms
proof cases
  case (refused t r res l)
  then show ?thesis using request_begin_refused [OF refused(4)] by (simp add: lock_view_def)
next
  case (started t r ph l)
  have "TryAcquire (phase_volume ph) (ls_locks (lock_view s)) = (True, l)"
    using request_begin_volume [OF started(4)] by (simp add: lock_view_def)
  moreover have "ls_running (lock_view s) t = None" using started(3) by (simp add: lock_view_def)
  ultimately have "handler_step (lock_view s)
      ((lock_view s)\<lparr>ls_locks := l, ls_running := (ls_running (lock_view s))(t \<mapsto> phase_volume ph)\<rparr>)"
    by (intro handler_start)
  moreover have "lock_view s' = (lock_view s)\<lparr>ls_locks := l, ls_running := (ls_running (lock_view s))(t \<mapsto> phase_volume ph)\<rparr>"
    by (simp add: lock_view_def started(2) fun_eq_iff)
  ultimately show ?thesis by simp
next
  case (called t ph ph' q)
  have "phase_volume ph' = phase_volume ph"
    using request_next_volume [of sys api js "nd_cluster (rq_node s)" ph "nd_manager (rq_node s)"] called(5) by simp
  then show ?thesis using called(3) by (simp add: lock_view_def called(2) fun_eq_iff)
next
  case (returned t volID res)
  have "ls_running (lock_view s) t = Some volID" using returned(3) by (simp add: lock_view_def)
  then have "handler_step (lock_view s) ((lock_view s)\<lparr>ls_locks := ReleaseLock volID (ls_locks (lock_view s)),
      ls_running := (ls_running (lock_view s))(t := None)\<rparr>)"
    by (rule handler_return)
  moreover have "lock_view s' = (lock_view s)\<lparr>ls_locks := ReleaseLock volID (ls_locks (lock_view s)),
      ls_running := (ls_running (lock_view s))(t := None)\<rparr>"
    by (simp add: lock_view_def returned(2) fun_eq_iff)
  ultimately show ?thesis by simp
qed (simp_all add: lock_view_def)

lemma lock_view_reachable:
  assumes "(any_step sys api capi js store d)\<^sup>*\<^sup>* s0 s" "request_start capi store s0"
  shows "lock_reachable (lock_view s)"
  using assms(1)
proof (induction rule: rtranclp_induct)
  case base
  then show ?case using assms(2) lock_init by (simp add: lock_view_def request_start_def)
next
  case (step s s')
  then show ?case using lock_view_step lock_step unfolding any_step_def by metis
qed

lemma one_request_per_volume:
  assumes "lock_inv (lock_view s)" "rq_threads s t = Some ph" "rq_threads s t' = Some ph'" "phase_volume ph = phase_volume ph'"
  shows "t = t'"
  using assms by (auto simp: lock_inv_def lock_view_def)


section \<open>The directory between getting and mounting it\<close>

text \<open>
  A request that has its directory still has it when it mounts: no other request of the volume runs,
  and the worker releases deleted volumes only.
\<close>

fun path_ok :: "('k, 'w) node_system \<Rightarrow> request_phase \<Rightarrow> bool" where
  "path_ok n (Getting req volume) \<longleftrightarrow>
     hpv_volId volume = np_VolumeId req \<and> np_VolumeId req \<in> nd_ids n \<union> nd_deleted n"
| "path_ok n (Mounting req volume p) \<longleftrightarrow>
     np_VolumeId req \<in> nd_ids n \<union> nd_deleted n \<and>
     (np_VolumeId req \<in> nd_deleted n \<or> qm_path (nd_manager n) (np_VolumeId req) = Some p)"
| "path_ok n _ \<longleftrightarrow> True"

definition request_inv :: "'k cm_api \<Rightarrow> ConfigMapMetaStore \<Rightarrow> ('k, 'w) request_system \<Rightarrow> bool" where
  "request_inv capi store s \<longleftrightarrow> node_inv capi store (rq_node s) \<and> lock_inv (lock_view s) \<and>
     (\<forall>ph \<in> ran (rq_threads s). path_ok (rq_node s) ph)"

lemma request_invD:
  assumes "request_inv capi store s"
  shows "node_inv capi store (rq_node s)" "lock_inv (lock_view s)" "rq_threads s t = Some ph \<Longrightarrow> path_ok (rq_node s) ph"
    "ph \<in> ran (rq_threads s) \<Longrightarrow> path_ok (rq_node s) ph"
  using assms by (auto simp: request_inv_def ran_def)

lemma path_ok_stable:
  assumes "path_ok n ph" "nd_ids n \<union> nd_deleted n \<subseteq> nd_ids n' \<union> nd_deleted n'" "nd_deleted n \<subseteq> nd_deleted n'"
    and "phase_volume ph \<in> nd_ids n \<Longrightarrow> qm_path (nd_manager n') (phase_volume ph) = qm_path (nd_manager n) (phase_volume ph)"
  shows "path_ok n' ph"
  using assms by (cases ph) auto

lemma worker_step_sets:
  "worker_step sys api capi js store n n' \<Longrightarrow> nd_ids n' = nd_ids n \<and> nd_deleted n' = nd_deleted n"
  by (erule worker_step.cases) simp_all

lemma client_step_sets:
  "client_step sys api capi js store d ev n n' \<Longrightarrow>
   nd_ids n \<union> nd_deleted n \<subseteq> nd_ids n' \<union> nd_deleted n' \<and> nd_deleted n \<subseteq> nd_deleted n'"
  by (erule client_step.cases) auto

lemma cluster_event_manager:
  "client_step sys api capi js store d ev n n' \<Longrightarrow> cluster_event ev \<Longrightarrow> nd_manager n' = nd_manager n"
  by (erule client_step.cases) simp_all

text \<open>What a call does to the directories: only that of the request's own volume changes.\<close>

lemma request_next_manager:
  assumes "request_next sys api js k ph s = (ph', s')"
  shows "fst s' = fst s \<or> (\<exists>req volume. ph = Getting req volume \<and>
       s' = snd (qm_GetVolumeQuotaPath sys (hpv_volId volume) (hpv_capacity volume) s)) \<or>
     (\<exists>t. ph = Releasing (phase_volume ph) t \<and> s' = snd (qm_ReleaseVolumePath sys (phase_volume ph) s)) \<or>
     (\<exists>b. ph = Expanding (phase_volume ph) (Some b) \<and> s' = snd (qm_ExpandVolume sys (phase_volume ph) b s))"
  using assms
  by (induction sys api js k ph s rule: request_next.induct)
    (auto split: sum.splits option.splits prod.splits if_splits)

lemma request_next_paths:
  assumes "request_next sys api js k ph s = (ph', s')" "qm_named s"
    and "\<forall>req volume. ph = Getting req volume \<longrightarrow> hpv_volId volume = phase_volume ph"
  shows "qm_named s'" "v \<noteq> phase_volume ph \<Longrightarrow> qm_path s' v = qm_path s v"
    "qm_path s' v \<noteq> None \<Longrightarrow> qm_path s v \<noteq> None \<or> v = phase_volume ph \<and> (\<exists>req volume. ph = Getting req volume)"
proof -
  have "qm_named s' \<and> (qm_path s' v = qm_path s v \<or>
      v = phase_volume ph \<and> (qm_path s' v = None \<or> (\<exists>req volume. ph = Getting req volume)))"
    using request_next_manager [OF assms(1)]
  proof (elim disjE exE conjE)
    assume "fst s' = fst s"
    then show ?thesis using qm_path_fst [of s' s] qm_named_fst [of s' s] assms(2) by simp
  next
    fix req volume
    assume g: "ph = Getting req volume" "s' = snd (qm_GetVolumeQuotaPath sys (hpv_volId volume) (hpv_capacity volume) s)"
    then show ?thesis
      using ql.named_get [OF assms(2)] ql.get_only [of sys "hpv_volId volume" "hpv_capacity volume" s v] assms(3) by auto
  next
    fix t
    assume "s' = snd (qm_ReleaseVolumePath sys (phase_volume ph) s)"
    then show ?thesis using ql.named_rel [OF assms(2)] ql.rel_only [of sys "phase_volume ph" s v] by auto
  next
    fix b
    assume "s' = snd (qm_ExpandVolume sys (phase_volume ph) b s)"
    then show ?thesis using ql.named_expand [OF assms(2)] qm.expand_keeps [where s = s] by auto
  qed
  then show "qm_named s'" "v \<noteq> phase_volume ph \<Longrightarrow> qm_path s' v = qm_path s v"
    "qm_path s' v \<noteq> None \<Longrightarrow> qm_path s v \<noteq> None \<or> v = phase_volume ph \<and> (\<exists>req volume. ph = Getting req volume)" by auto
qed

lemma request_begin_path: "request_begin r l = (Inr ph, l') \<Longrightarrow> path_ok n ph"
  by (cases r) (auto split: option.splits prod.splits bool.splits if_splits)

lemma request_next_own:
  assumes "request_next sys api js (nd_cluster n) ph (nd_manager n) = (ph', q)" "path_ok n ph"
    and "lookup_ok api js (nd_ids n) (nd_cluster n) ph"
  shows "path_ok (n\<lparr>nd_manager := q\<rparr>) ph'"
proof (cases ph)
  case (Checking req)
  then show ?thesis using assms by (cases "nd_manager n") (auto split: sum.splits if_splits)
next
  case (Creating req)
  then show ?thesis using assms by (cases "nd_manager n") (auto split: prod.splits option.splits)
next
  case (Looking req)
  then show ?thesis using assms by (auto split: option.splits)
next
  case (Getting req volume)
  then show ?thesis using assms qm.get_records [of sys "hpv_volId volume" "hpv_capacity volume" "nd_manager n"]
    by (auto split: prod.splits sum.splits)
next
  case (Expanding volID b)
  then show ?thesis using assms by (cases b) (auto split: prod.splits option.splits)
qed (use assms in \<open>cases "nd_manager n"; auto split: prod.splits sum.splits option.splits if_splits\<close>)+


lemma called_inv:
  assumes "request_inv capi store s" "rq_threads s t = Some ph"
    and "lookup_ok api js (nd_ids (rq_node s)) (nd_cluster (rq_node s)) ph"
    and "request_next sys api js (nd_cluster (rq_node s)) ph (nd_manager (rq_node s)) = (ph', q)"
  shows "node_inv capi store ((rq_node s)\<lparr>nd_manager := q\<rparr>)"
    "rq_threads s t' = Some ph2 \<Longrightarrow> t' \<noteq> t \<Longrightarrow> path_ok ((rq_node s)\<lparr>nd_manager := q\<rparr>) ph2"
proof -
  note inv = request_invD [OF assms(1)]
  have named: "qm_named (nd_manager (rq_node s))" using inv(1) by (simp add: node_inv_def)
  have own: "\<forall>req volume. ph = Getting req volume \<longrightarrow> hpv_volId volume = phase_volume ph"
    using inv(3) [OF assms(2)] by auto
  note paths = request_next_paths [OF assms(4) named own]
  have "v \<in> nd_ids (rq_node s) \<union> nd_deleted (rq_node s)" if "qm_path q v \<noteq> None" for v
    using paths(3) [OF that]
  proof (elim disjE conjE exE)
    assume "qm_path (nd_manager (rq_node s)) v \<noteq> None"
    then show ?thesis using inv(1) by (simp add: node_inv_def)
  qed (use inv(3) [OF assms(2)] in simp)
  then show "node_inv capi store ((rq_node s)\<lparr>nd_manager := q\<rparr>)"
    using inv(1) paths(1) by (simp add: node_inv_def)
  assume o: "rq_threads s t' = Some ph2" "t' \<noteq> t"
  then have "phase_volume ph2 \<noteq> phase_volume ph" using one_request_per_volume [OF inv(2) o(1) assms(2)] by auto
  then show "path_ok ((rq_node s)\<lparr>nd_manager := q\<rparr>) ph2"
    using paths(2) by (intro path_ok_stable [OF inv(3) [OF o(1)]]) simp_all
qed

lemma request_step_inv:
  assumes "api_stores capi" "patches_apart api capi store" "request_step sys api capi js store d ev s s'" "request_allowed api capi js store ev s"
    and "request_inv capi store s"
  shows "node_inv capi store (rq_node s') \<and> (\<forall>ph \<in> ran (rq_threads s'). path_ok (rq_node s') ph)"
  using assms(3)
proof cases
  case (started t r ph l)
  then show ?thesis
    using assms(5) request_begin_path [OF started(4)] by (auto simp: started(2) request_inv_def ran_def)
next
  case (called t ph ph' q)
  have ok: "lookup_ok api js (nd_ids (rq_node s)) (nd_cluster (rq_node s)) ph" using assms(4) called(1,3) by simp
  have "path_ok ((rq_node s)\<lparr>nd_manager := q\<rparr>) ph'"
    by (rule request_next_own [OF called(5) request_invD(3) [OF assms(5) called(3)] ok])
  then show ?thesis
    using called_inv [OF assms(5) called(3) ok called(5)] by (auto simp: called(2) ran_def)
next
  case (returned t volID res)
  then show ?thesis using assms(5) by (auto simp: request_inv_def ran_def split: if_splits)
next
  case (worked n)
  have w: "node_inv capi store n" "\<And>v. v \<in> nd_ids (rq_node s) \<Longrightarrow> qm_path (nd_manager n) v = qm_path (nd_manager (rq_node s)) v"
    using worker_step_inv [OF assms(2) worked(3) request_invD(1) [OF assms(5)]] by blast+
  moreover have "path_ok n ph" if "ph \<in> ran (rq_threads s)" for ph
    using w(2) worker_step_sets [OF worked(3)] by (intro path_ok_stable [OF request_invD(4) [OF assms(5) that]]) simp_all
  ultimately show ?thesis by (simp add: worked(2))
next
  case (changed ev' n)
  have "path_ok n ph" if "ph \<in> ran (rq_threads s)" for ph
    using cluster_event_manager [OF changed(3,4)] client_step_sets [OF changed(3)] by (intro path_ok_stable [OF request_invD(4) [OF assms(5) that]]) simp_all
  then show ?thesis
    using client_step_inv [OF assms(1) changed(3) _ request_invD(1) [OF assms(5)]] assms(4) by (simp add: changed(1,2))
qed (use assms(5) in \<open>auto simp: request_inv_def\<close>)

lemma request_run_inv:
  assumes "api_stores capi" "patches_apart api capi store" "request_start capi store s0"
    and "(kube_step sys api capi js store d)\<^sup>*\<^sup>* s0 s"
  shows "request_inv capi store s"
  using assms(4)
proof (induction rule: rtranclp_induct)
  case base
  have "lock_inv (lock_view s0)" by (rule lock_reachable_inv [OF lock_view_reachable [OF rtranclp.rtrancl_refl assms(3)]])
  then show ?case using assms(3) node_start_inv by (auto simp: request_inv_def request_start_def)
next
  case (step s s')
  have "lock_inv (lock_view s')"
    by (rule lock_reachable_inv [OF lock_view_reachable [OF kube_any_run [OF rtranclp.rtrancl_into_rtrancl [OF step(1,2)]] assms(3)]])
  then show ?case using request_step_inv [OF assms(1,2) _ _ step.IH] step(2) by (auto simp: request_inv_def kube_step_def)
qed

text \<open>A request that runs without interruption makes its calls as steps of the system.\<close>

lemma run_in_steps:
  assumes "rq_threads s t = Some ph"
    and "run_request sys api js (nd_cluster (rq_node s)) ph (nd_manager (rq_node s)) = (res, q)"
  shows "(any_step sys api capi js store d)\<^sup>*\<^sup>* s
     (s\<lparr>rq_node := (rq_node s)\<lparr>nd_manager := q\<rparr>, rq_threads := (rq_threads s)(t \<mapsto> Returning (phase_volume ph) res)\<rparr>)"
  using assms
proof (induction "calls_left ph" arbitrary: s ph rule: less_induct)
  case less
  show ?case
  proof (cases "calls_left ph")
    case 0
    then obtain v where "ph = Returning v res" "q = nd_manager (rq_node s)" using less.prems(2) by (cases ph) auto
    then show ?thesis using less.prems(1) by (cases s) (auto simp: fun_upd_idem)
  next
    case (Suc n)
    obtain ph' q' where n: "request_next sys api js (nd_cluster (rq_node s)) ph (nd_manager (rq_node s)) = (ph', q')"
      by (metis surj_pair)
    let ?s = "s\<lparr>rq_node := (rq_node s)\<lparr>nd_manager := q'\<rparr>, rq_threads := (rq_threads s)(t \<mapsto> ph')\<rparr>"
    have step: "any_step sys api capi js store d s ?s"
      using less.prems(1) Suc n by (intro any_stepI [OF request_step.called]) simp_all
    have "phase_volume ph' = phase_volume ph"
      using request_next_volume [of sys api js "nd_cluster (rq_node s)" ph "nd_manager (rq_node s)"] n by simp
    moreover have "run_request sys api js (nd_cluster (rq_node s)) ph' q' = (res, q)"
      using run_next [OF _ n] Suc less.prems(2) by simp
    ultimately show ?thesis
      using less.hyps [of ph' ?s] request_next_less [OF n] Suc step
      by (auto intro: converse_rtranclp_into_rtranclp)
  qed
qed


lemma handler_in_steps:
  assumes "rq_threads s t = None"
    and "handle_request sys api js (nd_cluster (rq_node s)) r (rq_locks s) (nd_manager (rq_node s)) = (res, l, q)"
  shows "(any_step sys api capi js store d)\<^sup>*\<^sup>* s (s\<lparr>rq_node := (rq_node s)\<lparr>nd_manager := q\<rparr>, rq_locks := l\<rparr>)"
proof (cases "request_begin r (rq_locks s)")
  case (Pair b l1)
  show ?thesis
  proof (cases b)
    case (Inl x)
    then have "l = l1" "q = nd_manager (rq_node s)" using assms(2) Pair by (simp_all add: handle_request_steps)
    then show ?thesis using any_stepI [OF request_step.refused [OF assms(1)]] Pair Inl by auto
  next
    case (Inr ph)
    note b = request_begin_volume [OF Pair [unfolded Inr]]
    have run: "run_request sys api js (nd_cluster (rq_node s)) ph (nd_manager (rq_node s)) = (res, q)"
      and l: "l = ReleaseLock (phase_volume ph) l1"
      using assms(2) Pair Inr by (simp_all add: handle_request_steps split: prod.splits)
    let ?s1 = "s\<lparr>rq_locks := l1, rq_threads := (rq_threads s)(t \<mapsto> ph)\<rparr>"
    let ?s2 = "?s1\<lparr>rq_node := (rq_node s)\<lparr>nd_manager := q\<rparr>, rq_threads := (rq_threads ?s1)(t \<mapsto> Returning (phase_volume ph) res)\<rparr>"
    have "any_step sys api capi js store d s ?s1"
      by (rule any_stepI [OF request_step.started [OF assms(1) Pair [unfolded Inr]]])
    moreover have "(any_step sys api capi js store d)\<^sup>*\<^sup>* ?s1 ?s2"
      using run_in_steps [of ?s1 t ph sys api js res q capi store d] run by simp
    moreover have "any_step sys api capi js store d ?s2 (s\<lparr>rq_node := (rq_node s)\<lparr>nd_manager := q\<rparr>, rq_locks := l\<rparr>)"
      using any_stepI [OF request_step.returned [of ?s2 t "phase_volume ph" res sys api capi js store d]] assms(1) l
      by (cases s) (simp add: fun_upd_idem)
    ultimately show ?thesis by (meson converse_rtranclp_into_rtranclp rtranclp.rtrancl_into_rtrancl)
  qed
qed


section \<open>Properties\<close>

text \<open>
  C12. However the calls of the requests interleave, with each other, with the sync worker and with the
  rest of the cluster, the requests use the volume locks as \<open>VolumeLocks\<close> is meant to be used (their
  runs are runs of the lock and its holders), and while a request works on a volume every other request
  for this volume is answered at once.
\<close>

theorem requests_refine_volume_locks:
  assumes "request_start capi store s0" "(any_step sys api capi js store d)\<^sup>*\<^sup>* s0 s"
    and "rq_threads s t = Some ph" "request_begin r (rq_locks s) = (Inr ph', l)"
  shows "lock_reachable (lock_view s) \<and> phase_volume ph' \<noteq> phase_volume ph"
proof
  show r: "lock_reachable (lock_view s)" by (rule lock_view_reachable [OF assms(2,1)])
  have "phase_volume ph \<in> vl_locks (rq_locks s)"
    using lock_reachable_inv [OF r] assms(3) by (force simp: lock_inv_def lock_view_def)
  moreover have "phase_volume ph' \<notin> vl_locks (rq_locks s)"
    using request_begin_volume [OF assms(4)] unlock_after(3) by blast
  ultimately show "phase_volume ph' \<noteq> phase_volume ph" by auto
qed

text \<open>
  C5. However the requests, the rounds of the sync worker and the changes of the cluster interleave, the
  directory a publish bind-mounts is the one the quota manager records for the volume at that moment,
  unless the volume has been deleted since the request looked it up: between getting the directory and
  mounting it, neither another request nor the worker gives it back. Provided that Kubernetes keeps to
  \<open>request_allowed\<close>.
\<close>

theorem publish_mounts_held_directory:
  assumes "api_stores capi" "patches_apart api capi store" "request_start capi store s0"
    and "(kube_step sys api capi js store d)\<^sup>*\<^sup>* s0 s" "rq_threads s t = Some (Mounting req volume p)"
    and "request_next sys api js (nd_cluster (rq_node s)) (Mounting req volume p) (nd_manager (rq_node s)) =
      (Returning v (Published (Some None)), q)"
    and "np_VolumeId req \<notin> nd_deleted (rq_node s)"
  shows "qm_path q (np_VolumeId req) = Some p \<and>
    mnt_Mount sys p (np_TargetPath req) '''' (mount_options req) (snd (nd_manager (rq_node s))) = (None, snd q)"
proof
  have "path_ok (rq_node s) (Mounting req volume p)"
    by (rule request_invD(3) [OF request_run_inv [OF assms(1-4)] assms(5)])
  then have "qm_path (nd_manager (rq_node s)) (np_VolumeId req) = Some p" using assms(7) by simp
  moreover have "fst q = fst (nd_manager (rq_node s))" using request_next_manager [OF assms(6)] by auto
  ultimately show "qm_path q (np_VolumeId req) = Some p" using qm_path_fst [of q] by metis
  show "mnt_Mount sys p (np_TargetPath req) '''' (mount_options req) (snd (nd_manager (rq_node s))) = (None, snd q)"
    using assms(6)
    by (cases "nd_manager (rq_node s)") (auto simp: mountVolume_def split: prod.splits option.splits)
qed


text \<open>
  The example: a publish of the ephemeral volume. A worker's round begins between the call that gets
  the directory and the mount.
\<close>

definition race_thread :: "request_phase \<Rightarrow> QuotaManager \<times> mem \<Rightarrow> (mem_api \<times> CorePV list, mem) request_system" where
  "race_thread ph m = \<lparr>rq_node = race_start\<lparr>nd_manager := m\<rparr>, rq_locks = \<lparr>vl_locks = {vol7}\<rparr>, rq_threads = [0 \<mapsto> ph]\<rparr>"

definition race_idle :: "(mem_api \<times> CorePV list, mem) request_system" where
  "race_idle = \<lparr>rq_node = race_start, rq_locks = NewVolumeLocks, rq_threads = (\<lambda>_. None)\<rparr>"

lemma race_idle_ok: "request_start both_cm store0 race_idle"
  by (simp add: request_start_def race_idle_def race_start_ok)

lemma race_step:
  assumes "request_next mem_os both_kube json0 (nd_cluster race_start) ph m = (ph', m')" "0 < calls_left ph"
  shows "request_step mem_os both_kube both_cm json0 store0 driver0 (Calls 0) (race_thread ph m) (race_thread ph' m')"
  using request_step.called [of "race_thread ph m" 0 ph mem_os both_kube json0 ph' m' both_cm store0 driver0] assms
  by (simp add: race_thread_def race_start_def)

lemma race_called:
  assumes "request_next mem_os both_kube json0 (nd_cluster race_start) ph m = (ph', m')" "0 < calls_left ph"
    and "lookup_ok both_kube json0 {vol7} (nd_cluster race_start) ph"
  shows "kube_step mem_os both_kube both_cm json0 store0 driver0 (race_thread ph m) (race_thread ph' m')"
proof -
  have "request_allowed both_kube both_cm json0 store0 (Calls 0) (race_thread ph m)"
    using assms(3) by (simp add: race_thread_def race_start_def)
  then show ?thesis using race_step [OF assms(1,2)] unfolding kube_step_def by blast
qed

lemma race_begun:
  "kube_step mem_os both_kube both_cm json0 store0 driver0 race_idle (race_thread (Checking publish7) (XFS manager7, mem0))"
proof -
  have b: "request_begin (PublishRequest publish7) NewVolumeLocks = (Inr (Checking publish7), \<lparr>vl_locks = {vol7}\<rparr>)"
    by (simp add: ValidateNodePublishVolumeRequest_def publish7_def TryAcquire_def NewVolumeLocks_def vol7_def)
  have "race_thread (Checking publish7) (XFS manager7, mem0) =
      race_idle\<lparr>rq_locks := \<lparr>vl_locks = {vol7}\<rparr>, rq_threads := (rq_threads race_idle)(0 \<mapsto> Checking publish7)\<rparr>"
    by (simp add: race_thread_def race_idle_def race_start_def)
  then have "request_step mem_os both_kube both_cm json0 store0 driver0 (Arrives 0 (PublishRequest publish7)) race_idle
      (race_thread (Checking publish7) (XFS manager7, mem0))"
    using request_step.started [of race_idle 0 "PublishRequest publish7"] b by (simp add: race_idle_def)
  then show ?thesis unfolding kube_step_def by (meson request_allowed.simps(3))
qed

lemma race_lookup:
  "\<exists>volume. GetHostPathPVByVolumeId both_kube json0 (nd_cluster race_start) vol7 = Some (Some volume) \<and> hpv_volId volume = vol7"
  using vol7_found by (simp add: GetHostPathPVByVolumeId_def vol7_decoded both_kube_def race_start_def)

lemma race_mounting:
  "\<exists>volume p m. (kube_step mem_os both_kube both_cm json0 store0 driver0)\<^sup>*\<^sup>* race_idle
     (race_thread (Mounting publish7 volume p) m)"
proof -
  let ?R = "kube_step mem_os both_kube both_cm json0 store0 driver0"
  obtain volume where v: "GetHostPathPVByVolumeId both_kube json0 (nd_cluster race_start) vol7 = Some (Some volume)" "hpv_volId volume = vol7"
    using race_lookup by blast
  have ids: "np_VolumeId publish7 = vol7" "np_TargetPath publish7 = ''/t''" by (simp_all add: publish7_def)
  obtain w1 where w1: "CreateNewDir mem_os ''/t'' mem0 = (None, w1)" by (simp add: CreateNewDir_def mem_calls)
  obtain p m where g: "qm_GetVolumeQuotaPath mem_os vol7 (hpv_capacity volume) (XFS manager7, w1) = (Inr p, m)"
    by (simp add: qm_GetVolumeQuotaPath_def Get_old [of _ _ "new_info ''/xfs/d1/k8squota_7'' ''/dev/sdb'' 4096 0 vol7"]
        manager7_def new_info_def)
  have "?R race_idle (race_thread (Checking publish7) (XFS manager7, mem0))" by (rule race_begun)
  moreover have "?R (race_thread (Checking publish7) (XFS manager7, mem0)) (race_thread (Creating publish7) (XFS manager7, mem0))"
    by (rule race_called) (simp_all add: ids mem_calls)
  moreover have "?R (race_thread (Creating publish7) (XFS manager7, mem0)) (race_thread (Looking publish7) (XFS manager7, w1))"
    by (rule race_called) (simp_all add: ids w1)
  moreover have "?R (race_thread (Looking publish7) (XFS manager7, w1)) (race_thread (Getting publish7 volume) (XFS manager7, w1))"
    by (rule race_called) (simp_all add: ids v)
  moreover have "?R (race_thread (Getting publish7 volume) (XFS manager7, w1)) (race_thread (Mounting publish7 volume p) m)"
    by (rule race_called) (simp_all add: v g)
  ultimately show ?thesis by (meson converse_rtranclp_into_rtranclp r_into_rtranclp)
qed

theorem publish_mounts_held_directory_witness:
  "\<exists>s volume p q. (kube_step mem_os both_kube both_cm json0 store0 driver0)\<^sup>*\<^sup>* race_idle s \<and>
     nd_phase (rq_node s) \<noteq> Waiting \<and> rq_threads s 0 = Some (Mounting publish7 volume p) \<and> qm_path q vol7 = Some p \<and>
     mnt_Mount mem_os p ''/t'' '''' (mount_options publish7) (snd (nd_manager (rq_node s))) = (None, snd q)"
proof -
  let ?R = "kube_step mem_os both_kube both_cm json0 store0 driver0"
  obtain volume p m where r: "?R\<^sup>*\<^sup>* race_idle (race_thread (Mounting publish7 volume p) m)" using race_mounting by blast
  define s1 where "s1 = race_thread (Mounting publish7 volume p) m"
  obtain l q where l: "qm_ListPathQuotaInfos mem_os (nd_manager (rq_node s1)) = (l, q)" by (metis surj_pair)
  have wait: "nd_phase (rq_node s1) = Waiting" by (simp add: s1_def race_thread_def race_start_def)
  define n where "n = (rq_node s1)\<lparr>nd_manager := q, nd_phase := Retrying (case l of Inl _ \<Rightarrow> [] | Inr infos \<Rightarrow> infos)
    (shouldDeleteVolIds (nd_worker (rq_node s1))) []\<rparr>"
  let ?s = "s1\<lparr>rq_node := n\<rparr>"
  have "worker_step mem_os both_kube both_cm json0 store0 (rq_node s1) n"
    using worker_step.list [OF wait l, of both_kube both_cm json0 store0] by (simp add: n_def)
  then have "request_step mem_os both_kube both_cm json0 store0 driver0 Works s1 ?s" by (rule request_step.worked)
  then have "?R s1 ?s" unfolding kube_step_def by (metis request_allowed.simps(5))
  with r have run: "?R\<^sup>*\<^sup>* race_idle ?s" unfolding s1_def by (rule rtranclp.rtrancl_into_rtrancl)
  have t: "rq_threads ?s 0 = Some (Mounting publish7 volume p)" by (simp add: s1_def race_thread_def)
  obtain q' where m: "request_next mem_os both_kube json0 (nd_cluster (rq_node ?s)) (Mounting publish7 volume p) (nd_manager (rq_node ?s)) =
      (Returning vol7 (Published (Some None)), q')"
    by (cases "nd_manager (rq_node ?s)") (auto simp: mountVolume_def mem_calls publish7_def)
  have d: "np_VolumeId publish7 \<notin> nd_deleted (rq_node ?s)" by (simp add: n_def s1_def race_thread_def race_start_def)
  have "np_VolumeId publish7 = vol7" "np_TargetPath publish7 = ''/t''" by (simp_all add: publish7_def)
  then have "qm_path q' vol7 = Some p"
      "mnt_Mount mem_os p ''/t'' '''' (mount_options publish7) (snd (nd_manager (rq_node ?s))) = (None, snd q')"
    using publish_mounts_held_directory [OF both_cm_stores both_apart race_idle_ok run t m d] by simp_all
  moreover have "nd_phase (rq_node ?s) \<noteq> Waiting" by (simp add: n_def)
  ultimately show ?thesis using run t by blast
qed

theorem requests_refine_volume_locks_witness:
  "lock_reachable (lock_view (race_thread (Checking publish7) (XFS manager7, mem0))) \<and> ''other'' \<noteq> vol7 \<and>
   fst (request_begin (ExpandRequest \<lparr>ne_VolumeId = ''other'', ne_VolumePath = ''/v'', ne_RequiredBytes = Some 1\<rparr>)
     (rq_locks (race_thread (Checking publish7) (XFS manager7, mem0)))) = Inr (Expanding ''other'' (Some 1))"
proof -
  let ?s = "race_thread (Checking publish7) (XFS manager7, mem0)"
    and ?r = "ExpandRequest \<lparr>ne_VolumeId = ''other'', ne_VolumePath = ''/v'', ne_RequiredBytes = Some 1\<rparr>"
  have b: "request_begin ?r (rq_locks ?s) = (Inr (Expanding ''other'' (Some 1)), \<lparr>vl_locks = {''other'', vol7}\<rparr>)"
    by (simp add: race_thread_def TryAcquire_def vol7_def)
  have t: "rq_threads ?s 0 = Some (Checking publish7)" by (simp add: race_thread_def)
  show ?thesis
    using requests_refine_volume_locks [OF race_idle_ok kube_any_run [OF r_into_rtranclp [where r = "kube_step mem_os both_kube both_cm json0 store0 driver0", OF race_begun]] t b] b
    by (simp add: publish7_def)
qed

end
