(* ===== verification/Request_Liveness.thy ===== *)
theory Request_Liveness
  imports Request_Race
begin

text \<open>
  Every node request returns. The handlers take their lock by \<open>TryAcquire\<close>, which never blocks, and make
  at most five calls, so a request can always take its next step and comes to its deferred release,
  whatever the other requests, the worker and the cluster do meanwhile. The steps are those of
  \<open>Request_Race\<close>, without any condition on the cluster; a single call of the kernel, the mounter or the
  API server is one step, so it is taken to come back.
\<close>

section \<open>Runs, and when they are fair to a request\<close>

text \<open>An endless run of the system with the events that happen in it.\<close>

definition endless_run ::
    "'w os \<Rightarrow> 'k kube \<Rightarrow> 'k cm_api \<Rightarrow> json \<Rightarrow> ConfigMapMetaStore \<Rightarrow> CSIDriver
       \<Rightarrow> (nat \<Rightarrow> 'k request_event) \<Rightarrow> (nat \<Rightarrow> ('k, 'w) request_system) \<Rightarrow> bool" where
  "endless_run sys api capi js store d evs \<sigma> \<longleftrightarrow>
     (\<forall>i. request_step sys api capi js store d (evs i) (\<sigma> i) (\<sigma> (Suc i)))"

text \<open>The events that are steps of a request's own goroutine while it works.\<close>

fun own_event :: "nat \<Rightarrow> 'k request_event \<Rightarrow> bool" where
  "own_event t (Calls u) \<longleftrightarrow> u = t"
| "own_event t (Returns u) \<longleftrightarrow> u = t"
| "own_event t _ \<longleftrightarrow> False"

definition can_run ::
    "'w os \<Rightarrow> 'k kube \<Rightarrow> 'k cm_api \<Rightarrow> json \<Rightarrow> ConfigMapMetaStore \<Rightarrow> CSIDriver \<Rightarrow> nat \<Rightarrow> ('k, 'w) request_system \<Rightarrow> bool" where
  "can_run sys api capi js store d t s \<longleftrightarrow> (\<exists>ev s'. own_event t ev \<and> request_step sys api capi js store d ev s s')"

text \<open>Weak fairness: a goroutine that can go on from some point of the run on does go on.\<close>

definition fair_run ::
    "'w os \<Rightarrow> 'k kube \<Rightarrow> 'k cm_api \<Rightarrow> json \<Rightarrow> ConfigMapMetaStore \<Rightarrow> CSIDriver \<Rightarrow> nat
       \<Rightarrow> (nat \<Rightarrow> 'k request_event) \<Rightarrow> (nat \<Rightarrow> ('k, 'w) request_system) \<Rightarrow> bool" where
  "fair_run sys api capi js store d t evs \<sigma> \<longleftrightarrow>
     (\<forall>i. (\<forall>j\<ge>i. can_run sys api capi js store d t (\<sigma> j)) \<longrightarrow> (\<exists>j\<ge>i. own_event t (evs j)))"

section \<open>A request can always go on\<close>

lemma request_can_run:
  assumes "rq_threads s t = Some ph"
  shows "can_run sys api capi js store d t s"
proof (cases "calls_left ph")
  case 0
  then obtain v res where "ph = Returning v res" by (cases ph) auto
  then show ?thesis using request_step.returned [of s t v res] assms unfolding can_run_def by (metis own_event.simps(2))
next
  case (Suc n)
  obtain ph' q where "request_next sys api js (nd_cluster (rq_node s)) ph (nd_manager (rq_node s)) = (ph', q)" by (metis surj_pair)
  then have "request_step sys api capi js store d (Calls t) s
      (s\<lparr>rq_node := (rq_node s)\<lparr>nd_manager := q\<rparr>, rq_threads := (rq_threads s)(t \<mapsto> ph')\<rparr>)"
    using assms Suc by (intro request_step.called) simp_all
  then show ?thesis unfolding can_run_def by (metis own_event.simps(1))
qed

text \<open>Its own step brings it closer to its return; no other step moves it.\<close>

lemma own_step:
  assumes "request_step sys api capi js store d ev s s'" "rq_threads s t = Some ph" "own_event t ev"
  shows "(\<exists>ph'. rq_threads s' t = Some ph' \<and> calls_left ph' < calls_left ph \<and> phase_volume ph' = phase_volume ph) \<or>
    (\<exists>res. ph = Returning (phase_volume ph) res \<and> rq_threads s' t = None \<and> rq_locks s' = ReleaseLock (phase_volume ph) (rq_locks s))"
  using assms(1)
proof cases
  case (called u phu ph' q)
  then have "u = t" "phu = ph" using assms(2,3) by simp_all
  moreover have "phase_volume ph' = phase_volume phu"
    using request_next_volume [of sys api js "nd_cluster (rq_node s)" phu "nd_manager (rq_node s)"] called(5) by simp
  ultimately show ?thesis using called request_next_less [OF called(5,4)] by simp
next
  case (returned u volID res)
  then have "u = t" "ph = Returning volID res" using assms(2,3) by simp_all
  then show ?thesis by (simp add: returned(2))
qed (use assms(3) in simp_all)

lemma other_step:
  assumes "request_step sys api capi js store d ev s s'" "rq_threads s t = Some ph" "\<not> own_event t ev"
  shows "rq_threads s' t = Some ph"
  using assms by cases auto

text \<open>The request's next step from \<open>i\<close> on.\<close>

lemma next_own_step:
  assumes "endless_run sys api capi js store d evs \<sigma>" "fair_run sys api capi js store d t evs \<sigma>" "rq_threads (\<sigma> i) t = Some ph"
  obtains j where "j \<ge> i" "rq_threads (\<sigma> j) t = Some ph" "own_event t (evs j)"
proof -
  have steps: "request_step sys api capi js store d (evs j) (\<sigma> j) (\<sigma> (Suc j))" for j
    using assms(1) by (simp add: endless_run_def)
  have stays: "rq_threads (\<sigma> k) t = Some ph" if "i \<le> k" "\<And>j. i \<le> j \<Longrightarrow> j < k \<Longrightarrow> \<not> own_event t (evs j)" for k
    using that
  proof (induction k rule: nat_induct_at_least)
    case (Suc k)
    then show ?case using other_step [OF steps] by simp
  qed (use assms(3) in simp)
  have "\<exists>j\<ge>i. own_event t (evs j)"
  proof (rule ccontr)
    assume none: "\<not> ?thesis"
    then have "rq_threads (\<sigma> k) t = Some ph" if "i \<le> k" for k using stays [OF that] by blast
    then have "\<forall>k\<ge>i. can_run sys api capi js store d t (\<sigma> k)" using request_can_run by blast
    then show False using assms(2) none unfolding fair_run_def by blast
  qed
  then have ex: "\<exists>j. i \<le> j \<and> own_event t (evs j)" by blast
  define j where "j = (LEAST j. i \<le> j \<and> own_event t (evs j))"
  have j: "i \<le> j" "own_event t (evs j)" using LeastI_ex [OF ex] by (simp_all add: j_def)
  have "\<not> own_event t (evs k)" if "i \<le> k" "k < j" for k using not_less_Least that unfolding j_def by blast
  then show ?thesis using that [OF j(1) stays [OF j(1)] j(2)] by blast
qed

lemma request_returns:
  assumes "endless_run sys api capi js store d evs \<sigma>" "fair_run sys api capi js store d t evs \<sigma>" "rq_threads (\<sigma> i) t = Some ph"
  shows "\<exists>j\<ge>i. \<exists>res. rq_threads (\<sigma> j) t = Some (Returning (phase_volume ph) res) \<and> rq_threads (\<sigma> (Suc j)) t = None \<and>
    rq_locks (\<sigma> (Suc j)) = ReleaseLock (phase_volume ph) (rq_locks (\<sigma> j))"
  using assms(3)
proof (induction "calls_left ph" arbitrary: i ph rule: less_induct)
  case less
  obtain j where j: "j \<ge> i" "rq_threads (\<sigma> j) t = Some ph" "own_event t (evs j)"
    using next_own_step [OF assms(1,2) less.prems] by blast
  have "request_step sys api capi js store d (evs j) (\<sigma> j) (\<sigma> (Suc j))" using assms(1) by (simp add: endless_run_def)
  from own_step [OF this j(2,3)] consider
      ph' where "rq_threads (\<sigma> (Suc j)) t = Some ph'" "calls_left ph' < calls_left ph" "phase_volume ph' = phase_volume ph"
    | res where "ph = Returning (phase_volume ph) res" "rq_threads (\<sigma> (Suc j)) t = None"
        "rq_locks (\<sigma> (Suc j)) = ReleaseLock (phase_volume ph) (rq_locks (\<sigma> j))" by blast
  then show ?case
  proof cases
    case 1
    from less.hyps [OF 1(2,1)] show ?thesis using 1(3) j(1) by (metis Suc_leD le_trans)
  next
    case 2
    then show ?thesis using j(1,2) by metis
  qed
qed

section \<open>Properties\<close>


text \<open>An expansion without a capacity; the system is idle afterwards.\<close>

definition expand_run :: "request_result \<Rightarrow> nat \<Rightarrow> (mem_api \<times> CorePV list, mem) request_system" where
  "expand_run res i =
     (if i = 0 then race_thread (Expanding vol7 None) (nd_manager race_start)
      else if i = 1 then race_thread (Returning vol7 res) (nd_manager race_start)
      else race_idle)"

definition expand_events :: "nat \<Rightarrow> (mem_api \<times> CorePV list) request_event" where
  "expand_events i = (if i = 0 then Calls 0 else if i = 1 then Returns 0 else Elsewhere (Changes (nd_cluster race_start)))"

lemma idle_step:
  "request_step mem_os both_kube both_cm json0 store0 driver0 (Elsewhere (Changes (nd_cluster race_start))) race_idle race_idle"
proof -
  have "client_step mem_os both_kube both_cm json0 store0 driver0 (Changes (nd_cluster race_start)) race_start
      (race_start\<lparr>nd_cluster := nd_cluster race_start\<rparr>)" by (rule client_step.cluster)
  then show ?thesis
    using request_step.changed [of mem_os both_kube both_cm json0 store0 driver0 "Changes (nd_cluster race_start)" race_idle race_start]
    by (simp add: race_idle_def)
qed

lemma expand_run_endless:
  "\<exists>res. endless_run mem_os both_kube both_cm json0 store0 driver0 expand_events (expand_run res)"
proof -
  obtain res where n: "request_next mem_os both_kube json0 (nd_cluster race_start) (Expanding vol7 None) (nd_manager race_start) =
      (Returning vol7 res, nd_manager race_start)" by simp
  have "request_step mem_os both_kube both_cm json0 store0 driver0 (Calls 0) (race_thread (Expanding vol7 None) (nd_manager race_start))
      (race_thread (Returning vol7 res) (nd_manager race_start))"
    by (rule race_step [OF n]) simp_all
  moreover have "request_step mem_os both_kube both_cm json0 store0 driver0 (Returns 0)
      (race_thread (Returning vol7 res) (nd_manager race_start)) race_idle"
    using request_step.returned [of "race_thread (Returning vol7 res) (nd_manager race_start)" 0 vol7 res]
    by (simp add: race_thread_def race_idle_def ReleaseLock_def NewVolumeLocks_def fun_upd_idem_iff)
  ultimately have "request_step mem_os both_kube both_cm json0 store0 driver0 (expand_events i) (expand_run res i) (expand_run res (Suc i))" for i
    using idle_step by (simp add: expand_run_def expand_events_def)
  then show ?thesis by (auto simp: endless_run_def)
qed

lemma expand_run_fair: "fair_run mem_os both_kube both_cm json0 store0 driver0 0 expand_events (expand_run res)"
proof -
  have "\<not> can_run mem_os both_kube both_cm json0 store0 driver0 0 race_idle"
    by (auto simp: can_run_def race_idle_def elim!: request_step.cases)
  then have "\<not> can_run mem_os both_kube both_cm json0 store0 driver0 0 (expand_run res (i + 2))" for i
    by (simp add: expand_run_def)
  then show ?thesis unfolding fair_run_def by (metis le_add1)
qed


end
