(* ===== verification/Sync_Convergence.thy ===== *)
theory Sync_Convergence
  imports Quota_Listing Sync_Worker Node_Server
begin

text \<open>
  What repeated rounds of the sync worker (pkg/csi-plugin/hostpath/syncworker.go) achieve: the directory
  of a deleted volume is gone after the first round in which listing, reading the meta store and removing
  the directory all work, whatever failed before; and a round over unchanged volumes and disks writes
  nothing.
\<close>

section \<open>Removing directories\<close>

text \<open>Every record is on a disk the manager knows.\<close>

definition disks_known :: "QuotaManager \<times> 'w \<Rightarrow> bool" where
  "disks_known s \<longleftrightarrow> (case fst s of
     FakeQuotaManager \<Rightarrow> True
   | XFS m \<Rightarrow> \<forall>e\<in>set (quotas m). map_of (diskQuotaInfos m) (pq_DeviceName (snd e)) \<noteq> None)"

lemma disks_known_simps [simp]:
  "disks_known (FakeQuotaManager, w)"
  "disks_known (XFS m, w) \<longleftrightarrow> (\<forall>e\<in>set (quotas m). map_of (diskQuotaInfos m) (pq_DeviceName (snd e)) \<noteq> None)"
  by (simp_all add: disks_known_def)

lemma books_disks_known: "books m \<Longrightarrow> disks_known (XFS m, w)"
  by (auto simp: books_def vols_ok_def map_of_eq_None_iff)

text \<open>The file system lets directories be removed.\<close>

definition removable :: "'w os \<Rightarrow> bool" where
  "removable sys \<longleftrightarrow> (\<forall>p w. fst (os_RemoveAll sys p w) = None)"

lemma release_known:
  assumes "disks_known s" "qm_ReleaseVolumePath sys v s = (err, s')"
  shows "disks_known s'"
proof (cases "fst s")
  case FakeQuotaManager
  then show ?thesis using assms by (cases s) (auto simp: qm_ReleaseVolumePath_def)
next
  case (XFS m)
  then obtain m' w w' where s: "s = (XFS m, w)" "s' = (XFS m', w')" "ReleaseVolumePath sys v m w = (err, m', w')"
    using assms(2) by (cases s) (auto simp: qm_ReleaseVolumePath_def split: prod.splits)
  have "set (quotas m') \<subseteq> set (quotas m)" "\<And>dev. map_of (diskQuotaInfos m) dev \<noteq> None \<Longrightarrow> map_of (diskQuotaInfos m') dev \<noteq> None"
    using s(3) by (auto simp: ReleaseVolumePath_def Let_def set_al_del split: option.splits prod.splits)
  then show ?thesis using assms(1) unfolding s(1,2) disks_known_simps by blast
qed

lemma release_works:
  assumes "disks_known s" "removable sys" "qm_path s v \<noteq> None"
  shows "fst (qm_ReleaseVolumePath sys v s) = None"
proof -
  obtain m w where s: "s = (XFS m, w)" using assms(3) by (cases s; cases "fst s") auto
  obtain q where q: "map_of (quotas m) v = Some q" using assms(3) by (auto simp: s xq_path_def)
  obtain d where d: "map_of (diskQuotaInfos m) (pq_DeviceName q) = Some d"
    using assms(1) map_of_SomeD [OF q] by (fastforce simp: s)
  have "fst (DeleteProjectQuota sys p v w) = None" for p v w
    using assms(2) by (auto simp: DeleteProjectQuota_def removable_def Let_def split: prod.split) (metis fst_conv)+
  then show ?thesis
    by (auto simp: s qm_ReleaseVolumePath_def ReleaseVolumePath_def q d Let_def split: prod.splits option.splits) (metis fst_conv option.distinct(1))
qed

lemma release_each_works:
  assumes "disks_known s" "removable sys" "release_each sys vols s = (failed, s')"
  shows "disks_known s' \<and> (\<forall>v\<in>set vols. qm_path s' v = None)"
  using assms(1,3)
proof (induction vols arbitrary: s failed)
  case (Cons u vols)
  obtain err s1 where u: "qm_ReleaseVolumePath sys u s = (err, s1)" by (metis surj_pair)
  obtain f where f: "release_each sys vols s1 = (f, s')" using Cons.prems(2) u by (auto split: prod.splits)
  have "qm_path s1 u = None"
  proof (cases "qm_path s u")
    case None
    then show ?thesis using qm.rel_forgets [of sys u s s1] qm.rel_fails [of sys u s _ s1] u by (cases err) auto
  next
    case (Some p)
    then have "err = None" using release_works [OF Cons.prems(1) assms(2), of u] u by simp
    then show ?thesis using qm.rel_forgets [of sys u s s1] u by simp
  qed
  then have "qm_path s' u = None" using release_each_paths [OF f] by blast
  then show ?case using Cons.IH [OF release_known [OF Cons.prems(1) u] f] by auto
qed simp

section \<open>A cleaning round\<close>

definition cleaning_round ::
    "'w os \<Rightarrow> 'k cm_api \<Rightarrow> ConfigMapMetaStore \<Rightarrow> 'k \<Rightarrow> SyncWorker \<Rightarrow> QuotaManager \<times> 'w
       \<Rightarrow> apierr option \<times> SyncWorker \<times> QuotaManager \<times> 'w" where
  "cleaning_round sys capi store k r s =
     (case qm_ListPathQuotaInfos sys s of
        (l, s) \<Rightarrow> cleanOrphanQuotaPath sys capi store k (case l of Inl _ \<Rightarrow> [] | Inr infos \<Rightarrow> infos) r s)"

lemma populator_cleans:
  "populatorLoopFunc sys api capi js store r s k =
     (case qm_ListPathQuotaInfos sys s of
        (l, _) \<Rightarrow>
          (case cleaning_round sys capi store k r s of
             (_, r, s) \<Rightarrow>
               (case syncQuotaPathUsage api js (case l of Inl _ \<Rightarrow> [] | Inr infos \<Rightarrow> infos) r k of
                  (None, r, k) \<Rightarrow> (False, r, s, k)
                | (Some _, r, k) \<Rightarrow>
                    (case qm_ListQuotaDiskInfos sys s of
                       (l, s) \<Rightarrow>
                         (case syncNodeQuotaStatus sys api js (case l of Inl _ \<Rightarrow> [] | Inr infos \<Rightarrow> infos) r s k of
                            (res, r, s, k) \<Rightarrow> (res \<noteq> None, r, s, k))))))"
  by (simp add: populatorLoopFunc_def cleaning_round_def Let_def split: prod.split option.split)

lemma cleaning_round_forgotten:
  assumes "cleaning_round sys capi store k r s = (err, r', s')" "qm_path s v = None"
  shows "qm_path s' v = None"
proof -
  obtain l s1 where l: "qm_ListPathQuotaInfos sys s = (l, s1)" by (metis surj_pair)
  have s1: "qm_path s1 v = None" using ql.list_keeps [of sys s] l assms(2) by simp
  obtain n s2 where n: "release_each sys (shouldDeleteVolIds r) s1 = (n, s2)" by (metis surj_pair)
  have s2: "qm_path s2 v = None" using release_each_paths [OF n] s1 by blast
  have "s' = s2 \<or> (\<exists>vols f. release_each sys vols s2 = (f, s'))"
    using assms(1) l n by (auto simp: cleaning_round_def cleanOrphanQuotaPath_def split: sum.splits prod.splits)
  then show ?thesis using s2 release_each_paths [of sys _ s2 _ s'] by blast
qed

lemma same_vol_known:
  "list_all2 same_vol qs qs' \<Longrightarrow> \<forall>e\<in>set qs. P (pq_DeviceName (snd e)) \<Longrightarrow> \<forall>e\<in>set qs'. P (pq_DeviceName (snd e))"
  by (induction qs qs' rule: list_all2_induct) (auto simp: same_vol_def)

lemma list_disks_known:
  assumes "qm_ListPathQuotaInfos sys s = (l, s')" "disks_known s"
  shows "disks_known s'"
proof (cases "fst s")
  case FakeQuotaManager
  then show ?thesis using assms by (cases s) (auto simp: qm_ListPathQuotaInfos_def)
next
  case (XFS m)
  obtain r qs v where r: "list_paths_loop sys (snd s) (maxCacheTime m) (quotaProvider m) (quotas m) = (r, qs, v)"
    by (metis prod_cases3)
  have "s' = (XFS (m\<lparr>quotas := qs, quotaProvider := v\<rparr>), snd s)"
    using XFS assms(1) r by (cases s) (auto simp: qm_ListPathQuotaInfos_def ListPathQuotaInfos_def)
  then show ?thesis
    using assms(2) XFS same_vol_known [OF list_paths_same [OF r, THEN conjunct1], of "\<lambda>dev. map_of (diskQuotaInfos m) dev \<noteq> None"]
    by (cases s) simp
qed

lemma cleaning_round_removes:
  assumes "cleaning_round sys capi store k r s = (err, r', s')" "qm_named s" "disks_known s" "removable sys"
    and "fst (qm_ListPathQuotaInfos sys s) = Inr infos" "ListMetaInfos capi store k = Inr m" "m v = None"
  shows "qm_path s' v = None"
proof (cases "qm_path s v")
  case None
  then show ?thesis by (rule cleaning_round_forgotten [OF assms(1)])
next
  case (Some p)
  obtain s1 where l: "qm_ListPathQuotaInfos sys s = (Inr infos, s1)" using assms(5) by (metis prod.collapse)
  obtain n s2 where n: "release_each sys (shouldDeleteVolIds r) s1 = (n, s2)" by (metis surj_pair)
  let ?todo = "map pq_VolumeId (filter (\<lambda>q. m (pq_VolumeId q) = None) infos)"
  obtain f where f: "release_each sys ?todo s2 = (f, s')"
    using assms(1,6) l n by (auto simp: cleaning_round_def cleanOrphanQuotaPath_def split: prod.splits)
  have "disks_known s2"
    using release_each_works [OF list_disks_known [OF l assms(3)] assms(4) n] by blast
  moreover have "v \<in> set ?todo" using ql.list_complete [OF assms(2) l, of v] Some assms(7) by auto
  ultimately show ?thesis using release_each_works [OF _ assms(4) f] by blast
qed

lemma release_each_named: "release_each sys vols s = (f, s') \<Longrightarrow> qm_named s \<Longrightarrow> qm_named s'"
proof (induction vols arbitrary: s f)
  case (Cons v vols)
  obtain err s1 where v: "qm_ReleaseVolumePath sys v s = (err, s1)" by (metis surj_pair)
  then show ?case using Cons ql.named_rel [of s sys v] by (auto split: prod.splits)
qed simp

lemma release_each_known: "release_each sys vols s = (f, s') \<Longrightarrow> disks_known s \<Longrightarrow> disks_known s'"
proof (induction vols arbitrary: s f)
  case (Cons v vols)
  obtain err s1 where v: "qm_ReleaseVolumePath sys v s = (err, s1)" by (metis surj_pair)
  then show ?case using Cons release_known [of s sys v err s1] by (auto split: prod.splits)
qed simp

lemma cleaning_round_keeps:
  assumes "cleaning_round sys capi store k r s = (err, r', s')"
  shows "qm_named s \<Longrightarrow> qm_named s'" "disks_known s \<Longrightarrow> disks_known s'"
proof -
  obtain l s1 where l: "qm_ListPathQuotaInfos sys s = (l, s1)" by (metis surj_pair)
  obtain n s2 where n: "release_each sys (shouldDeleteVolIds r) s1 = (n, s2)" by (metis surj_pair)
  have e: "s' = s2 \<or> (\<exists>vols f. release_each sys vols s2 = (f, s'))"
    using assms l n by (auto simp: cleaning_round_def cleanOrphanQuotaPath_def split: sum.splits prod.splits)
  show "qm_named s \<Longrightarrow> qm_named s'"
    using e l ql.named_list [of s sys] release_each_named [OF n] release_each_named [of sys _ s2 _ s'] by fastforce
  show "disks_known s \<Longrightarrow> disks_known s'"
    using e list_disks_known [OF l] release_each_known [OF n] release_each_known [of sys _ s2 _ s'] by fastforce
qed

section \<open>The rounds while a volume exists\<close>

text \<open>
  The cleaning part of a sequence of rounds: the worker goes from round to round; the kernel, the
  cluster, the listing (which may be stale) and the manager each round meets are given, so that anything
  may happen in between. The result pairs what each round found with what it left.
\<close>

fun clean_rounds ::
    "'k cm_api \<Rightarrow> ConfigMapMetaStore \<Rightarrow> ('w os \<times> 'k \<times> PathQuotaInfo list \<times> QuotaManager \<times> 'w) list \<Rightarrow> SyncWorker
       \<Rightarrow> SyncWorker \<times> ((QuotaManager \<times> 'w) \<times> QuotaManager \<times> 'w) list" where
  "clean_rounds capi store [] r = (r, [])"
| "clean_rounds capi store ((sys, k, infos, s) # rounds) r =
     (case cleanOrphanQuotaPath sys capi store k infos r s of
        (_, r, s') \<Rightarrow> apsnd (Cons (s, s')) (clean_rounds capi store rounds r))"

definition keeps_id :: "'k cm_api \<Rightarrow> ConfigMapMetaStore \<Rightarrow> string \<Rightarrow> 'k \<Rightarrow> bool" where
  "keeps_id capi store v k \<longleftrightarrow> (\<forall>m. ListMetaInfos capi store k = Inr m \<longrightarrow> m v \<noteq> None)"

lemma clean_spares:
  assumes "cleanOrphanQuotaPath sys capi store k infos r s = (err, r', s')"
    and "keeps_id capi store v k" "v \<notin> set (shouldDeleteVolIds r)"
  shows "qm_path s' v = qm_path s v \<and> v \<notin> set (shouldDeleteVolIds r')"
proof -
  obtain n s1 where n: "release_each sys (shouldDeleteVolIds r) s = (n, s1)" by (metis surj_pair)
  have s1: "qm_path s1 v = qm_path s v" "set n \<subseteq> set (shouldDeleteVolIds r)"
    using release_each_paths [OF n] assms(3) by auto
  show ?thesis
  proof (cases "ListMetaInfos capi store k")
    case (Inl e)
    then show ?thesis using assms(1,3) n s1 by (simp add: cleanOrphanQuotaPath_def)
  next
    case (Inr m)
    let ?todo = "map pq_VolumeId (filter (\<lambda>q. m (pq_VolumeId q) = None) infos)"
    obtain f where f: "release_each sys ?todo s1 = (f, s')" "r' = r\<lparr>shouldDeleteVolIds := n @ f\<rparr>"
      using assms(1) n Inr by (auto simp: cleanOrphanQuotaPath_def split: prod.splits)
    have "v \<notin> set ?todo" using assms(2) Inr by (auto simp: keeps_id_def)
    then show ?thesis using release_each_paths [OF f(1)] s1 assms(3) f(2) by auto
  qed
qed

lemma clean_rounds_spare:
  assumes "clean_rounds capi store rounds r = (r', ends)" "v \<notin> set (shouldDeleteVolIds r)"
    and "\<forall>(sys, k, infos, s) \<in> set rounds. keeps_id capi store v k"
  shows "v \<notin> set (shouldDeleteVolIds r') \<and> (\<forall>(s, s') \<in> set ends. qm_path s' v = qm_path s v)"
  using assms
proof (induction rounds arbitrary: r ends)
  case (Cons x rounds)
  obtain sys k infos s where x: "x = (sys, k, infos, s)" by (metis prod_cases4)
  obtain err r1 s1 where c: "cleanOrphanQuotaPath sys capi store k infos r s = (err, r1, s1)" by (metis prod_cases3)
  obtain ends' where e: "clean_rounds capi store rounds r1 = (r', ends')" "ends = (s, s1) # ends'"
    using Cons.prems(1) c by (cases "clean_rounds capi store rounds r1") (simp add: x)
  have "qm_path s1 v = qm_path s v \<and> v \<notin> set (shouldDeleteVolIds r1)"
    using clean_spares [OF c _ Cons.prems(2)] Cons.prems(3) by (simp add: x)
  then show ?case using Cons.IH [OF e(1)] Cons.prems(3) by (simp add: e(2))
qed simp

section \<open>Properties\<close>

text \<open>
  C4. The directory of a deleted volume is eventually given back, and stays away: in every endless
  sequence of rounds, with anything but a new publication of the volume happening in between, if the
  volume is not recorded any more and one round finds the disks, the meta store and the file system
  working, then from some round on the volume has no directory. Failures of other rounds do no harm.
\<close>

theorem orphan_eventually_released:
  assumes "\<And>i. cleaning_round (sys i) capi store (k i) (r i) (s i) = (err i, r' i, s' i)"
    and "\<And>i. qm_named (s i)" "\<And>i. disks_known (s i)"
    and "\<And>i. qm_path (s' i) v = None \<Longrightarrow> qm_path (s (Suc i)) v = None"
    and "\<And>i m. ListMetaInfos capi store (k i) = Inr m \<Longrightarrow> m v = None"
    and "fst (qm_ListPathQuotaInfos (sys j) (s j)) = Inr infos" "ListMetaInfos capi store (k j) = Inr m" "removable (sys j)"
  shows "\<exists>n. \<forall>i\<ge>n. qm_path (s i) v = None"
proof -
  have "qm_path (s' j) v = None"
    by (rule cleaning_round_removes [OF assms(1,2,3,8,6,7) assms(5) [OF assms(7)]])
  then have start: "qm_path (s (Suc j)) v = None" by (rule assms(4))
  have keep: "qm_path (s (Suc i)) v = None" if "qm_path (s i) v = None" for i
    using cleaning_round_forgotten [OF assms(1) that] by (rule assms(4))
  have "qm_path (s i) v = None" if "Suc j \<le> i" for i
    using that by (induction i rule: nat_induct_at_least) (use start keep in auto)
  then show ?thesis by blast
qed

text \<open>
  The node with one volume, whose ID is not recorded; the first round works, and after that the meta
  store cannot be read.
\<close>

fun up_then_down :: "nat \<Rightarrow> mem_api" where
  "up_then_down 0 = cm_of []"
| "up_then_down (Suc _) = Map.empty"

fun round_state :: "nat \<Rightarrow> SyncWorker \<times> QuotaManager \<times> mem" where
  "round_state 0 = (worker0, XFS manager1, mem0)"
| "round_state (Suc i) = snd (cleaning_round mem_os mem_cm store1 (up_then_down i) (fst (round_state i)) (snd (round_state i)))"

lemma mem_os_removable: "removable mem_os"
  by (simp add: removable_def mem_os_def)

lemma manager1_list: "\<exists>infos. fst (qm_ListPathQuotaInfos mem_os (XFS manager1, mem0)) = Inr infos"
  by (simp add: qm_ListPathQuotaInfos_def ListPathQuotaInfos_def manager1_def path1_def new_info_def manager0_def mem_os_def mem0_def)

lemma round_state_ok: "qm_named (snd (round_state i)) \<and> disks_known (snd (round_state i))"
proof (induction i)
  case 0
  show ?case by (simp add: quotas_named_def manager1_def path1_def new_info_def manager0_def)
next
  case (Suc i)
  obtain err r' s' where c: "cleaning_round mem_os mem_cm store1 (up_then_down i) (fst (round_state i)) (snd (round_state i)) = (err, r', s')"
    by (metis prod_cases3)
  then have "snd (round_state (Suc i)) = s'" by simp
  then show ?case using cleaning_round_keeps [OF c] Suc by simp
qed

theorem orphan_eventually_released_witness:
  "qm_path (snd (round_state 0)) ''v1'' = Some ''/xfs/d1/k8squota_v1'' \<and> (\<exists>n. \<forall>i\<ge>n. qm_path (snd (round_state i)) ''v1'' = None)"
proof -
  let ?c = "\<lambda>i. cleaning_round mem_os mem_cm store1 (up_then_down i) (fst (round_state i)) (snd (round_state i))"
  obtain infos where i: "fst (qm_ListPathQuotaInfos mem_os (snd (round_state 0))) = Inr infos" using manager1_list by auto
  have m: "ListMetaInfos mem_cm store1 (up_then_down 0) = Inr Map.empty" by (simp add: list_cm_of)
  have "\<exists>n. \<forall>i\<ge>n. qm_path (snd (round_state i)) ''v1'' = None"
  proof (rule orphan_eventually_released [where s = "\<lambda>i. snd (round_state i)" and j = 0 and capi = mem_cm and store = store1 and
        infos = infos and m = Map.empty and sys = "\<lambda>_. mem_os" and k = up_then_down and r = "\<lambda>i. fst (round_state i)"
        and err = "\<lambda>i. fst (?c i)" and r' = "\<lambda>i. fst (snd (?c i))" and s' = "\<lambda>i. snd (snd (?c i))"])
    show "ListMetaInfos mem_cm store1 (up_then_down i) = Inr m \<Longrightarrow> m ''v1'' = None" for i m
      by (cases i) (auto simp: list_cm_of, simp add: ListMetaInfos_def mem_cm_def)
  qed (use i m mem_os_removable round_state_ok in simp_all)
  then show ?thesis using manager1_path by simp
qed

section \<open>Reporting what has not changed\<close>

lemma sync_usage_other:
  "sync_usage_loop api js n infos cache k = (res, cache', k') \<Longrightarrow> v \<notin> pq_VolumeId ` set infos \<Longrightarrow> cache' v = cache v"
  by (induction api js n infos cache k arbitrary: cache' k' res rule: sync_usage_loop.induct)
    (auto simp: Let_def split: if_splits option.splits prod.splits)

text \<open>After a loop without errors a volume is up to date, or it was not found and nothing was noted for it.\<close>

lemma sync_usage_done:
  "sync_usage_loop api js n infos cache k = (Some None, cache', k') \<Longrightarrow> distinct (map pq_VolumeId infos) \<Longrightarrow>
   info \<in> set infos \<Longrightarrow> shouldUpdate cache' info \<Longrightarrow> cache' (pq_VolumeId info) = cache (pq_VolumeId info)"
proof (induction infos arbitrary: cache k)
  case (Cons i infos)
  obtain cache1 k1 where l: "sync_usage_loop api js n infos cache1 k1 = (Some None, cache', k')"
    and c: "cache1 = cache \<or> cache1 = cache(pq_VolumeId i \<mapsto> i)"
    using Cons.prems(1) by (auto simp: Let_def split: if_splits option.splits prod.splits)
  show ?case
  proof (cases "info = i")
    case True
    have "cache' (pq_VolumeId i) = cache1 (pq_VolumeId i)"
      using sync_usage_other [OF l, of "pq_VolumeId i"] Cons.prems(2) by simp
    then show ?thesis using c Cons.prems(4) True by (auto simp: shouldUpdate_def)
  next
    case False
    then have "info \<in> set infos" using Cons.prems(3) by simp
    moreover from this have "pq_VolumeId info \<noteq> pq_VolumeId i" using Cons.prems(2) by (auto simp: rev_image_eqI)
    ultimately show ?thesis using Cons.IH [OF l] c Cons.prems(2,4) by auto
  qed
qed simp

lemma sync_usage_idle:
  assumes "\<And>info. info \<in> set infos \<Longrightarrow> shouldUpdate cache info \<Longrightarrow> GetHostPathPVByVolumeId api js k (pq_VolumeId info) = Some None"
  shows "sync_usage_loop api js n infos cache k = (Some None, cache, k)"
  using assms by (induction infos) auto

lemma should_node_same: "shouldNodeUpdate u u = Some False"
proof -
  have "disks_differ ds ds = Some False" for ds by (induction ds) simp_all
  then show ?thesis by (simp add: shouldNodeUpdate_def)
qed

lemma sync_node_idle:
  assumes "syncNodeQuotaStatus sys api js ds r s k = (Some None, r1, s1, k1)"
    and "syncNodeQuotaStatus sys' api js ds r1 s2 k2 = (res, r3, s3, k3)"
  shows "r3 = r1 \<and> k3 = k2"
proof -
  have "shouldNodeUpdate (lastNodeUsageInfo r1) (node_usage ds) = Some False"
    using assms(1) should_node_same
    by (auto simp: syncNodeQuotaStatus_def Let_def split: sum.splits option.splits bool.splits prod.splits)
  then show ?thesis using assms(2) by (auto simp: syncNodeQuotaStatus_def Let_def split: sum.splits)
qed

text \<open>
  C29. The reports settle: after the two report functions of a round have run without an error, running
  them again over the same volumes and disks writes nothing to the cluster and notes nothing, in
  whatever state the cluster is by then, provided that the volumes whose object was not found the first
  time are still not found. (The cleaning before them, which may change the retry list, is not part of
  this statement.)
\<close>

theorem sync_settles:
  assumes "syncQuotaPathUsage api js infos r k = (Some None, r1, k1)" "distinct (map pq_VolumeId infos)"
    and "syncNodeQuotaStatus sys api js ds r1 s k1 = (Some None, r2, s1, k2)"
    and "\<And>info. info \<in> set infos \<Longrightarrow> lastSyncQuotaInfoCache r1 (pq_VolumeId info) = lastSyncQuotaInfoCache r (pq_VolumeId info) \<Longrightarrow>
           shouldUpdate (lastSyncQuotaInfoCache r) info \<Longrightarrow> GetHostPathPVByVolumeId api js k3 (pq_VolumeId info) = Some None"
    and "syncNodeQuotaStatus sys' api js ds r2 s2 k3 = (res, r4, s3, k4)"
  shows "syncQuotaPathUsage api js infos r2 k3 = (Some None, r2, k3) \<and> r4 = r2 \<and> k4 = k3"
proof -
  obtain cache where c: "sync_usage_loop api js (nodeName r) infos (lastSyncQuotaInfoCache r) k = (Some None, cache, k1)"
    and r1: "r1 = r\<lparr>lastSyncQuotaInfoCache := cache\<rparr>"
    using assms(1) by (auto simp: syncQuotaPathUsage_def split: prod.splits)
  have r2: "lastSyncQuotaInfoCache r2 = cache"
    using assms(3) r1
    by (auto simp: syncNodeQuotaStatus_def Let_def split: sum.splits option.splits bool.splits prod.splits)
  have "GetHostPathPVByVolumeId api js k3 (pq_VolumeId info) = Some None" if "info \<in> set infos" "shouldUpdate cache info" for info
  proof -
    have e: "cache (pq_VolumeId info) = lastSyncQuotaInfoCache r (pq_VolumeId info)"
      by (rule sync_usage_done [OF c assms(2) that])
    moreover have "shouldUpdate (lastSyncQuotaInfoCache r) info" using that(2) e by (simp add: shouldUpdate_def)
    ultimately show ?thesis using assms(4) [OF that(1)] by (simp add: r1)
  qed
  then have "sync_usage_loop api js (nodeName r2) infos (lastSyncQuotaInfoCache r2) k3 = (Some None, lastSyncQuotaInfoCache r2, k3)"
    unfolding r2 by (rule sync_usage_idle)
  then show ?thesis using sync_node_idle [OF assms(3,5)] by (simp add: syncQuotaPathUsage_def)
qed

text \<open>The example volume, found and reported once.\<close>

definition node_kube :: "CorePV list kube" where
  "node_kube = pv_kube\<lparr>node_Get := (\<lambda>k name. Inr node1), node_Patch := (\<lambda>name p k. (None, k))\<rparr>"

definition report7 :: PathQuotaInfo where
  "report7 = new_info ''/xfs/d1/k8squota_7'' ''/dev/sdb'' 4096 0 vol7"

theorem sync_settles_witness:
  "\<exists>r1 r2 s1. syncQuotaPathUsage node_kube json0 [report7] worker0 [pv7] = (Some None, r1, [pv7]) \<and>
     syncNodeQuotaStatus mem_os node_kube json0 [] r1 (XFS manager7, mem0) [pv7] = (Some None, r2, s1, [pv7]) \<and>
     lastSyncQuotaInfoCache r2 vol7 = Some report7 \<and>
     syncQuotaPathUsage node_kube json0 [report7] r2 [] = (Some None, r2, [])"
proof -
  have v: "pq_VolumeId report7 = vol7" by (simp add: report7_def new_info_def)
  obtain volume :: PersistentVolume where "GetHostPathPVByVolumeId pv_kube json0 [pv7] vol7 = Some (Some volume)"
    using vol7_found by blast
  moreover have e: "pv_Get node_kube = pv_Get pv_kube" by (simp add: node_kube_def)
  ultimately have g: "GetHostPathPVByVolumeId node_kube json0 [pv7] vol7 = Some (Some volume)"
    unfolding GetHostPathPVByVolumeId_def e by simp
  let ?r1 = "worker0\<lparr>lastSyncQuotaInfoCache := [vol7 \<mapsto> report7]\<rparr>"
  have u: "syncQuotaPathUsage node_kube json0 [report7] worker0 [pv7] = (Some None, ?r1, [pv7])"
    by (simp add: syncQuotaPathUsage_def v g shouldUpdate_def worker0_def UpdateHostPathPVUsageInfo_def Let_def)
      (simp add: node_kube_def pv_kube_def v)
  have n: "\<exists>r2 s1. syncNodeQuotaStatus mem_os node_kube json0 [] ?r1 (XFS manager7, mem0) k = (Some None, r2, s1, k) \<and>
      lastSyncQuotaInfoCache r2 = [vol7 \<mapsto> report7]" for k
    by (simp add: syncNodeQuotaStatus_def GetNodeByName_def UpdateNodeHostPathPVUsageInfo_def node_kube_def Let_def worker0_def
        split: option.split bool.split) (auto simp: shouldNodeUpdate_def zero_NodeUsageInfo_def)
  then obtain r2 s1 where r2: "syncNodeQuotaStatus mem_os node_kube json0 [] ?r1 (XFS manager7, mem0) [pv7] = (Some None, r2, s1, [pv7])"
    "lastSyncQuotaInfoCache r2 = [vol7 \<mapsto> report7]" by blast
  obtain res r4 s3 k4 where e: "syncNodeQuotaStatus mem_os node_kube json0 [] r2 (XFS manager7, mem0) [] = (res, r4, s3, k4)"
    by (metis prod_cases4)
  have "syncQuotaPathUsage node_kube json0 [report7] r2 [] = (Some None, r2, [])"
    using sync_settles [OF u _ r2(1) _ e] by (simp add: v worker0_def)
  then show ?thesis using u r2 by auto
qed

end
