(* ===== verification/Filter_Placement.thy ===== *)
theory Filter_Placement
  imports Scheduler_Filter Sync_Worker
begin

text \<open>
  The scheduler's filter against the quota manager of the node. The sync worker publishes what the
  manager lists (\<open>node_usage\<close>), the filter decides on the published figures (\<open>canNodeMatch\<close>), and the manager
  has the last word when the volume is mounted (\<open>GetVolumeQuotaPath\<close>). For one volume the two decisions
  agree; for several they use different rules.
\<close>

section \<open>What is published\<close>

lemma node_usage_allocatable:
  "di_Allocatable ` set (nu_DiskStatus (node_usage ds)) = (\<lambda>d. i64_of_u64 (disk_AllocatableSize d)) ` set ds"
  by (simp add: node_usage_def add_disk_sums zero_NodeUsageInfo_def Let_def image_image)

lemma list_disks_result: "list_disks_loop sys w mx disks = (Inr ds, disks') \<Longrightarrow> ds = map snd disks'"
proof (induction sys w mx disks arbitrary: ds disks' rule: list_disks_loop.induct)
  case (2 sys w mx dev disk rest)
  then show ?case
    by (cases "list_disks_loop sys w mx rest"; cases "fst (list_disks_loop sys w mx rest)")
      (auto simp: Let_def split: if_splits sum.splits)
qed simp

lemma listed_disks: "ListQuotaDiskInfos sys w m = (Inr ds, m') \<Longrightarrow> ds = map snd (diskQuotaInfos m') \<and> quotas m' = quotas m"
  using list_disks_result [of sys w "maxCacheTime m" "diskQuotaInfos m"]
  by (cases "list_disks_loop sys w (maxCacheTime m) (diskQuotaInfos m)"; cases "fst (list_disks_loop sys w (maxCacheTime m) (diskQuotaInfos m))")
    (auto simp: ListQuotaDiskInfos_def)

lemma refused_iff:
  assumes "map_of (quotas m) vol = None"
  shows "fst (GetVolumeQuotaPath sys vol capacity m w) = Inl (ErrAllocatePath (ErrNoDiskMatch (u64_of_i64 capacity))) \<longleftrightarrow>
    (\<forall>d\<in>snd ` set (diskQuotaInfos m). disk_Disabled d \<or> disk_AllocatableSize d < u64_of_i64 capacity)"
  unfolding available_empty_iff [symmetric]
  using assms by (auto simp: GetVolumeQuotaPath_def allocateNewQuotaDir_def Let_def split: prod.splits option.splits if_splits)

lemma no_enabled_disk:
  assumes "map_of (quotas m) vol = None" "\<forall>e\<in>set (diskQuotaInfos m). disk_Disabled (snd e)"
  shows "fst (GetVolumeQuotaPath sys vol capacity m w) = Inl (ErrAllocatePath (ErrNoDiskMatch (u64_of_i64 capacity)))"
  using assms by (auto simp: refused_iff)

lemma published_size: "uint s < 2 ^ 63 \<Longrightarrow> i64_of_u64 s = uint s"
  using uint_ge_0 [of s] by (simp add: i64_of_u64_def i64_def)

lemma fits_word:
  assumes "uint s < 2 ^ 63" "0 \<le> capacity" "capacity < 2 ^ 63"
  shows "capacity \<le> i64_of_u64 s \<longleftrightarrow> u64_of_i64 capacity \<le> s"
proof -
  have "uint (u64_of_i64 capacity) = capacity" using assms(2,3) by (simp add: u64_of_i64_def uint_word_of_int)
  then show ?thesis using published_size [OF assms(1)] by (simp add: word_le_def)
qed

section \<open>Properties\<close>

text \<open>
  For one volume the scheduler and the node agree: on the usage the node publishes, the filter
  accepts the volume exactly when the quota manager finds a disk for it, as long as no disk is
  disabled and the sizes fit into the published signed numbers.
\<close>

lemma filter_agrees_with_manager:
  assumes "ListQuotaDiskInfos sys w m = (Inr ds, m')" "map_of (quotas m) vol = None"
    and "\<forall>e\<in>set (diskQuotaInfos m'). \<not> disk_Disabled (snd e) \<and> uint (disk_AllocatableSize (snd e)) < 2 ^ 63"
    and "0 \<le> capacity" "capacity < 2 ^ 63"
  shows "canNodeMatch [capacity] (nu_DiskStatus (node_usage ds)) \<longleftrightarrow>
    fst (GetVolumeQuotaPath sys' vol capacity m' w') \<noteq> Inl (ErrAllocatePath (ErrNoDiskMatch (u64_of_i64 capacity)))"
proof -
  have ds: "ds = map snd (diskQuotaInfos m')" and v: "map_of (quotas m') vol = None"
    using listed_disks [OF assms(1)] assms(2) by auto
  have "canNodeMatch [capacity] (nu_DiskStatus (node_usage ds)) \<longleftrightarrow>
      (\<exists>s\<in>di_Allocatable ` set (nu_DiskStatus (node_usage ds)). capacity \<le> s)"
    by (simp add: single_volume)
  also have "\<dots> \<longleftrightarrow> (\<exists>d\<in>snd ` set (diskQuotaInfos m'). capacity \<le> i64_of_u64 (disk_AllocatableSize d))"
    unfolding node_usage_allocatable ds by simp
  also have "\<dots> \<longleftrightarrow> (\<exists>d\<in>snd ` set (diskQuotaInfos m'). u64_of_i64 capacity \<le> disk_AllocatableSize d)"
    using assms(3) fits_word [OF _ assms(4,5)] by auto
  also have "\<dots> \<longleftrightarrow> fst (GetVolumeQuotaPath sys' vol capacity m' w') \<noteq> Inl (ErrAllocatePath (ErrNoDiskMatch (u64_of_i64 capacity)))"
    using assms(3) by (auto simp: refused_iff [OF v] not_less)
  finally show ?thesis .
qed

lemma manager0_lists: "ListQuotaDiskInfos mem_os mem0 manager0 = (Inr (map snd (diskQuotaInfos manager0)), manager0)"
  by (simp add: ListQuotaDiskInfos_def manager0_def disk0_def mem_os_def mem0_def)

lemma filter_agrees_with_manager_example:
  "canNodeMatch [1610612736] (nu_DiskStatus (node_usage (map snd (diskQuotaInfos manager0)))) \<and>
   \<not> canNodeMatch [3221225472] (nu_DiskStatus (node_usage (map snd (diskQuotaInfos manager0))))"
proof -
  have d: "\<forall>e\<in>set (diskQuotaInfos manager0). \<not> disk_Disabled (snd e) \<and> uint (disk_AllocatableSize (snd e)) < 2 ^ 63"
    "map_of (quotas manager0) ''v1'' = None"
    by (simp_all add: manager0_def disk0_def)
  note agree = filter_agrees_with_manager [OF manager0_lists d(2,1), where sys' = mem_os and w' = mem0]
  have "fst (GetVolumeQuotaPath mem_os ''v1'' 1610612736 manager0 mem0) \<noteq> Inl (ErrAllocatePath (ErrNoDiskMatch (u64_of_i64 1610612736)))"
    using manager0_get by auto
  moreover have "fst (GetVolumeQuotaPath mem_os ''v1'' 3221225472 manager0 mem0) = Inl (ErrAllocatePath (ErrNoDiskMatch (u64_of_i64 3221225472)))"
    by (simp add: refused_iff d(2)) (simp add: manager0_def disk0_def u64_of_i64_def)
  ultimately show ?thesis using agree [of 1610612736] agree [of 3221225472] by simp
qed

section \<open>Several volumes\<close>

text \<open>
  The filter packs the volumes from the largest, each on the first disk with room. The manager sees
  them one by one, as they are mounted, and takes the disk with the most space each time. So a node
  with 10 and 6 GiB free is accepted for volumes of 3, 3 and 7 GiB, and refuses the last of them.
\<close>

abbreviation GiB_int :: int where "GiB_int \<equiv> 1073741824"

lemma place_shrinks:
  assumes "books m" "diskQuotaInfos m = [(dev1, d1), (dev2, d2)]" "\<not> disk_Disabled d1" "\<not> disk_Disabled d2"
    and "disk_AllocatableSize d2 < disk_AllocatableSize d1"
    and "GetVolumeQuotaPath sys vol capacity m w = (Inr p, m', w')" "map_of (quotas m) vol = None"
  shows "\<exists>d1'. diskQuotaInfos m' = [(dev1, d1'), (dev2, d2)] \<and> \<not> disk_Disabled d1' \<and>
    disk_AllocatableSize d1' = disk_AllocatableSize d1 - u64_of_i64 capacity \<and> fst ` set (quotas m') = insert vol (fst ` set (quotas m))"
proof -
  obtain d v w1 where d: "best_disk (u64_of_i64 capacity) (diskQuotaInfos m) d"
      "map_of (diskQuotaInfos m) (disk_DeviceName d) = Some d"
      "m' = m\<lparr>quotaProvider := v, quotas := al_put vol (new_info p (disk_DeviceName d) (u64_of_i64 capacity) (os_Now sys w') vol) (quotas m),
            diskQuotaInfos := al_put (disk_DeviceName d) (rebook (disk_QuotaSize d + u64_of_i64 capacity) d) (diskQuotaInfos m)\<rparr>"
    using Get_new_disk [OF assms(1,6,7)] by metis
  have n: "dev1 \<noteq> dev2" "disk_DeviceName d1 = dev1" "disk_DeviceName d2 = dev2"
      "disk_AllocatableSize d1 = disk_Capacity d1 - disk_QuotaSize d1"
    using assms(1,2) by (auto simp: books_def al_wf_def disk_ok_def)
  have "d = d1" using d(1) assms(2-5) by (auto simp: best_disk_def)
  then show ?thesis using d(3) assms(2,3) n by (simp add: rebook_def)
qed

text \<open>
  The filter can accept a pod whose volumes the node cannot place: on a node with 10 and 6 GiB
  allocatable the filter accepts three volumes of 3, 3 and 7 GiB, but when the two small ones are
  mounted first, both go to the larger disk and the last volume is refused.
\<close>

lemma filter_admits_unplaceable:
  assumes "qm_inv m" "diskQuotaInfos m = [(dev1, d1), (dev2, d2)]" "\<not> disk_Disabled d1" "\<not> disk_Disabled d2"
    and "disk_AllocatableSize d1 = 10737418240" "disk_AllocatableSize d2 = 6442450944"
    and "{u, v, x} \<inter> fst ` set (quotas m) = {}" "distinct [u, v, x]"
    and "GetVolumeQuotaPath sys u (3 * GiB_int) m w = (Inr p, m1, w1)"
    and "GetVolumeQuotaPath sys v (3 * GiB_int) m1 w1 = (Inr q, m2, w2)"
  shows "canNodeMatch [3 * GiB_int, 3 * GiB_int, 7 * GiB_int] (nu_DiskStatus (node_usage (map snd (diskQuotaInfos m)))) \<and>
    fst (GetVolumeQuotaPath sys x (7 * GiB_int) m2 w2) = Inl (ErrAllocatePath (ErrNoDiskMatch (u64_of_i64 (7 * GiB_int))))"
proof
  have "map di_Allocatable (nu_DiskStatus (node_usage (map snd (diskQuotaInfos m)))) = [10 * GiB_int, 6 * GiB_int]"
    using assms(2,5,6)
    by (simp add: node_usage_def add_disk_def zero_NodeUsageInfo_def go_sort_def DiskInfoList_Less_def i64_of_u64_def i64_def Let_def)
  then show "canNodeMatch [3 * GiB_int, 3 * GiB_int, 7 * GiB_int] (nu_DiskStatus (node_usage (map snd (diskQuotaInfos m))))"
    by (simp add: canNodeMatch_def go_sort_def)
next
  have vols: "map_of (quotas m) u = None" using assms(7) by (simp add: map_of_None_key)
  have b: "books m" using assms(1) by (simp add: qm_inv_def)
  obtain e1 where e1: "diskQuotaInfos m1 = [(dev1, e1), (dev2, d2)]" "\<not> disk_Disabled e1"
      "disk_AllocatableSize e1 = 7516192768" "fst ` set (quotas m1) = insert u (fst ` set (quotas m))"
    using place_shrinks [OF b assms(2-4) _ assms(9) vols] assms(5,6) by (auto simp: u64_of_i64_def)
  have b1: "books m1" using Get_inv [OF assms(1,9)] by (simp add: qm_inv_def)
  have v1: "map_of (quotas m1) v = None" using assms(7,8) e1(4) by (auto simp: map_of_None_key)
  obtain e2 where e2: "diskQuotaInfos m2 = [(dev1, e2), (dev2, d2)]" "disk_AllocatableSize e2 = 4294967296"
      "fst ` set (quotas m2) = insert v (fst ` set (quotas m1))"
    using place_shrinks [OF b1 e1(1,2) assms(4) _ assms(10) v1] assms(6) e1(3) by (auto simp: u64_of_i64_def)
  have "map_of (quotas m2) x = None" using assms(7,8) e1(4) e2(3) by (auto simp: map_of_None_key)
  then show "fst (GetVolumeQuotaPath sys x (7 * GiB_int) m2 w2) = Inl (ErrAllocatePath (ErrNoDiskMatch (u64_of_i64 (7 * GiB_int))))"
    using e2 assms(6) by (subst refused_iff) (simp_all add: u64_of_i64_def)
qed

definition manager16 :: XFSQuotaManager where
  "manager16 = manager0\<lparr>diskQuotaInfos := [(''/dev/sdb'', disk0 ''/dev/sdb'' ''/xfs/d1'' 10737418240),
                       (''/dev/sdc'', disk0 ''/dev/sdc'' ''/xfs/d2'' 6442450944)]\<rparr>"

lemma manager16_gets:
  "\<exists>p m1 w1 q m2 w2. GetVolumeQuotaPath mem_os ''v1'' (3 * GiB_int) manager16 mem0 = (Inr p, m1, w1) \<and>
     GetVolumeQuotaPath mem_os ''v2'' (3 * GiB_int) m1 w1 = (Inr q, m2, w2)"
  by (simp add: manager16_def run_defs Let_def)

lemma filter_admits_unplaceable_example:
  "\<exists>m2 w2. canNodeMatch [3 * GiB_int, 3 * GiB_int, 7 * GiB_int] (nu_DiskStatus (node_usage (map snd (diskQuotaInfos manager16)))) \<and>
     fst (GetVolumeQuotaPath mem_os ''v3'' (7 * GiB_int) m2 w2) = Inl (ErrAllocatePath (ErrNoDiskMatch (u64_of_i64 (7 * GiB_int))))"
proof -
  obtain p m1 w1 q m2 w2 where g: "GetVolumeQuotaPath mem_os ''v1'' (3 * GiB_int) manager16 mem0 = (Inr p, m1, w1)"
    "GetVolumeQuotaPath mem_os ''v2'' (3 * GiB_int) m1 w1 = (Inr q, m2, w2)"
    using manager16_gets by blast
  have i: "qm_inv manager16"
    using manager0_inv by (simp add: qm_inv_def books_def vols_ok_def manager16_def manager0_def disk0_def disk_ok_def al_wf_def)
  show ?thesis
    using filter_admits_unplaceable [OF i _ _ _ _ _ _ _ g, of "''/dev/sdb''" "disk0 ''/dev/sdb'' ''/xfs/d1'' 10737418240" "''/dev/sdc''"
        "disk0 ''/dev/sdc'' ''/xfs/d2'' 6442450944" "''v3''"]
    by (auto simp: manager16_def manager0_def disk0_def)
qed

end
