(* ===== verification/Filter_Several.thy ===== *)
theory Filter_Several
  imports Filter_Placement
begin

text \<open>
  Pods with several volumes of one size: the filter of the extender and the quota manager of the node
  still agree, in every order of the mounts, although the filter packs one disk after the other and the
  manager takes the disk with the most space each time. Both count the same thing, how many volumes of
  this size the disks have room for.
\<close>

section \<open>Room for volumes of one size\<close>

definition slots :: "int \<Rightarrow> int list \<Rightarrow> nat" where
  "slots c sizes = (\<Sum>h\<leftarrow>sizes. nat (h div c))"

lemma slots_simps [simp]: "slots c [] = 0" "slots c (h # sizes) = nat (h div c) + slots c sizes"
  by (simp_all add: slots_def)

lemma slots_mset: "mset xs = mset ys \<Longrightarrow> slots c xs = slots c ys"
  unfolding slots_def by (metis mset_map sum_mset_sum_list)

lemma slots_zero: "0 < c \<Longrightarrow> \<forall>h\<in>set sizes. 0 \<le> h \<Longrightarrow> slots c sizes = 0 \<longleftrightarrow> (\<forall>h\<in>set sizes. h < c)"
proof (induction sizes)
  case (Cons h sizes)
  have "0 < h div c \<longleftrightarrow> c \<le> h" using Cons.prems(1) by (rule pos_imp_zdiv_pos_iff)
  then have "nat (h div c) = 0 \<longleftrightarrow> h < c" by auto
  then show ?case using Cons by simp
qed simp

lemma match_one_disk:
  "0 < c \<Longrightarrow> 0 \<le> h \<Longrightarrow> h < 2 ^ 63 \<Longrightarrow>
   match_loop (replicate n c) (h # sizes) = match_loop (replicate (n - nat (h div c)) c) sizes"
proof (induction n arbitrary: h)
  case (Suc n)
  show ?case
  proof (cases "c \<le> h")
    case True
    have d: "h div c = (h - c) div c + 1" using Suc.prems(1) div_add_self2 [of c "h - c"] by simp
    have p: "0 \<le> (h - c) div c" using True Suc.prems(1) by (simp add: pos_imp_zdiv_nonneg_iff)
    have "i64 (h - c) = h - c" using True Suc.prems by (intro i64_id) auto
    then show ?thesis using True Suc.IH [of "h - c"] Suc.prems d p by (simp add: nat_add_distrib)
  qed (use Suc.prems in \<open>simp add: div_pos_pos_trivial\<close>)
qed (cases sizes; simp)

lemma match_equal:
  "0 < c \<Longrightarrow> \<forall>h\<in>set sizes. 0 \<le> h \<and> h < 2 ^ 63 \<Longrightarrow> match_loop (replicate n c) sizes \<longleftrightarrow> n \<le> slots c sizes"
proof (induction sizes arbitrary: n)
  case Nil
  then show ?case by (cases n) simp_all
next
  case (Cons h sizes)
  have "match_loop (replicate n c) (h # sizes) = match_loop (replicate (n - nat (h div c)) c) sizes"
    using Cons.prems by (intro match_one_disk) auto
  also have "\<dots> \<longleftrightarrow> n - nat (h div c) \<le> slots c sizes" using Cons by simp
  finally show ?case by auto
qed

lemma sort_equal: "go_sort (>) (replicate n c) = replicate n (c :: int)"
  by (rule replicate_eqI) auto

lemma filter_counts_slots:
  assumes "0 < c" "\<forall>d\<in>set ds. uint (disk_AllocatableSize d) < 2 ^ 63"
  shows "canNodeMatch (replicate n c) (nu_DiskStatus (node_usage ds)) \<longleftrightarrow>
    n \<le> slots c (map (\<lambda>d. uint (disk_AllocatableSize d)) ds)"
proof -
  let ?sizes = "map di_Allocatable (nu_DiskStatus (node_usage ds))"
  have "mset ?sizes = mset (map (\<lambda>d. i64_of_u64 (disk_AllocatableSize d)) ds)"
    by (simp add: node_usage_def add_disk_sums zero_NodeUsageInfo_def Let_def image_mset.compositionality o_def)
  moreover have "map (\<lambda>d. i64_of_u64 (disk_AllocatableSize d)) ds = map (\<lambda>d. uint (disk_AllocatableSize d)) ds"
    using assms(2) by (simp add: published_size)
  ultimately have m: "mset ?sizes = mset (map (\<lambda>d. uint (disk_AllocatableSize d)) ds)" by simp
  have "\<forall>h\<in>set ?sizes. 0 \<le> h \<and> h < 2 ^ 63" using mset_eq_setD [OF m] assms(2) by auto
  then show ?thesis using match_equal [OF assms(1)] slots_mset [OF m] by (simp add: canNodeMatch_def sort_equal)
qed


section \<open>The quota manager, volume by volume\<close>

text \<open>The pod's volumes are mounted one after the other.\<close>

fun mount_all ::
    "'w os \<Rightarrow> int \<Rightarrow> VolumeId list \<Rightarrow> XFSQuotaManager \<Rightarrow> 'w \<Rightarrow> (qm_error + string) list \<times> XFSQuotaManager \<times> 'w" where
  "mount_all sys c [] m w = ([], m, w)"
| "mount_all sys c (vol # vols) m w =
     (case GetVolumeQuotaPath sys vol c m w of
        (r, m, w) \<Rightarrow> (case mount_all sys c vols m w of (rs, m, w) \<Rightarrow> (r # rs, m, w)))"

definition no_disk :: "int \<Rightarrow> qm_error + string" where
  "no_disk c = Inl (ErrAllocatePath (ErrNoDiskMatch (u64_of_i64 c)))"

definition disk_slots :: "int \<Rightarrow> XFSQuotaManager \<Rightarrow> nat" where
  "disk_slots c m = slots c (map (\<lambda>e. uint (disk_AllocatableSize (snd e))) (diskQuotaInfos m))"

definition all_enabled :: "XFSQuotaManager \<Rightarrow> bool" where
  "all_enabled m \<longleftrightarrow> (\<forall>e\<in>set (diskQuotaInfos m). \<not> disk_Disabled (snd e))"

lemma uint_capacity: "0 < c \<Longrightarrow> c < 2 ^ 63 \<Longrightarrow> uint (u64_of_i64 c) = c"
  by (simp add: u64_of_i64_def uint_word_of_int)

lemma refused_slots:
  assumes "all_enabled m" "0 < c" "c < 2 ^ 63" "map_of (quotas m) vol = None"
  shows "fst (GetVolumeQuotaPath sys vol c m w) = no_disk c \<longleftrightarrow> disk_slots c m = 0"
proof -
  have "fst (GetVolumeQuotaPath sys vol c m w) = no_disk c \<longleftrightarrow>
      (\<forall>d\<in>snd ` set (diskQuotaInfos m). disk_AllocatableSize d < u64_of_i64 c)"
    using assms(1) refused_iff [OF assms(4), of sys c w] by (auto simp: no_disk_def all_enabled_def)
  also have "\<dots> \<longleftrightarrow> (\<forall>h\<in>set (map (\<lambda>e. uint (disk_AllocatableSize (snd e))) (diskQuotaInfos m)). h < c)"
    using uint_capacity [OF assms(2,3)] by (simp add: word_less_def)
  finally show ?thesis unfolding disk_slots_def by (subst slots_zero) (use assms(2) in auto)
qed

lemma slots_put:
  assumes "map_of disks dev = Some d" "uint (disk_AllocatableSize d') = uint (disk_AllocatableSize d) - c"
    and "0 < c" "c \<le> uint (disk_AllocatableSize d)"
  shows "slots c (map (\<lambda>e. uint (disk_AllocatableSize (snd e))) disks) =
    Suc (slots c (map (\<lambda>e. uint (disk_AllocatableSize (snd e))) (al_put dev d' disks)))"
  using assms(1)
proof (induction disks)
  case (Cons e disks)
  have a: "uint (disk_AllocatableSize d) div c = (uint (disk_AllocatableSize d) - c) div c + 1"
    using assms(3) div_add_self2 [of c "uint (disk_AllocatableSize d) - c"] by simp
  have "0 \<le> (uint (disk_AllocatableSize d) - c) div c" using assms(3,4) by (simp add: pos_imp_zdiv_nonneg_iff)
  then have "nat (uint (disk_AllocatableSize d) div c) = Suc (nat ((uint (disk_AllocatableSize d) - c) div c))"
    using a by (simp add: nat_add_distrib)
  then show ?case using Cons assms(2) by (cases e) (auto split: if_splits)
qed simp

lemma placed_slot:
  assumes "books m" "all_enabled m" "0 < c" "c < 2 ^ 63" "map_of (quotas m) vol = None"
    and "GetVolumeQuotaPath sys vol c m w = (Inr p, m', w')"
  shows "disk_slots c m = Suc (disk_slots c m')" "all_enabled m'" "fst ` set (quotas m') = insert vol (fst ` set (quotas m))"
proof -
  obtain d v where d: "best_disk (u64_of_i64 c) (diskQuotaInfos m) d"
      "map_of (diskQuotaInfos m) (disk_DeviceName d) = Some d"
      and m': "m' = m\<lparr>quotaProvider := v, quotas := al_put vol (new_info p (disk_DeviceName d) (u64_of_i64 c) (os_Now sys w') vol) (quotas m),
            diskQuotaInfos := al_put (disk_DeviceName d) (rebook (disk_QuotaSize d + u64_of_i64 c) d) (diskQuotaInfos m)\<rparr>"
    using Get_new_disk [OF assms(1,6,5)] by metis
  have le: "u64_of_i64 c \<le> disk_AllocatableSize d" and en: "\<not> disk_Disabled d" using d(1) by (simp_all add: best_disk_def)
  have "disk_AllocatableSize d = disk_Capacity d - disk_QuotaSize d" using books_disk [OF assms(1) d(2)] by (simp add: disk_ok_def)
  then have "disk_AllocatableSize (rebook (disk_QuotaSize d + u64_of_i64 c) d) = disk_AllocatableSize d - u64_of_i64 c"
    by (simp add: rebook_def)
  then have "uint (disk_AllocatableSize (rebook (disk_QuotaSize d + u64_of_i64 c) d)) = uint (disk_AllocatableSize d) - c"
    using uint_minus_simple_alt le uint_capacity [OF assms(3,4)] by metis
  moreover have "c \<le> uint (disk_AllocatableSize d)" using le uint_capacity [OF assms(3,4)] by (simp add: word_le_def)
  ultimately show "disk_slots c m = Suc (disk_slots c m')"
    unfolding disk_slots_def using slots_put [OF d(2) _ assms(3)] by (simp add: m')
  show "all_enabled m'"
    using assms(2) en set_al_put_subset unfolding all_enabled_def m' by (fastforce simp: rebook_def)
  show "fst ` set (quotas m') = insert vol (fst ` set (quotas m))" by (simp add: m')
qed


lemma mount_all_slots:
  assumes "qm_inv m" "all_enabled m" "0 < c" "c < 2 ^ 63" "distinct vols" "set vols \<inter> fst ` set (quotas m) = {}"
    and "mount_all sys c vols m w = (rs, m', w')"
  shows "(length vols \<le> disk_slots c m \<longrightarrow> no_disk c \<notin> set rs) \<and> (set rs \<subseteq> range Inr \<longrightarrow> length vols \<le> disk_slots c m)"
  using assms(1,2,5-7)
proof (induction vols arbitrary: m w rs)
  case (Cons vol vols)
  obtain r m1 w1 where g: "GetVolumeQuotaPath sys vol c m w = (r, m1, w1)" by (metis prod_cases3)
  obtain rs1 where rs: "mount_all sys c vols m1 w1 = (rs1, m', w')" "rs = r # rs1"
    using Cons.prems(5) g by (auto split: prod.splits)
  have new: "map_of (quotas m) vol = None" using Cons.prems(4) by (auto simp: map_of_None_key)
  have refused: "r = no_disk c \<longleftrightarrow> disk_slots c m = 0"
    using refused_slots [OF Cons.prems(2) assms(3,4) new, of sys w] g by simp
  have inv: "qm_inv m1" by (rule Get_inv [OF Cons.prems(1) g])
  show ?case
  proof (cases r)
    case (Inl e)
    then have same: "diskQuotaInfos m1 = diskQuotaInfos m" "quotas m1 = quotas m"
      using Get_error [OF g [unfolded Inl]] provider_only by blast+
    have "all_enabled m1" "disk_slots c m1 = disk_slots c m" using Cons.prems(2) same by (simp_all add: all_enabled_def disk_slots_def)
    moreover have "distinct vols" "set vols \<inter> fst ` set (quotas m1) = {}" using Cons.prems(3,4) same by simp_all
    ultimately have "length vols \<le> disk_slots c m \<longrightarrow> no_disk c \<notin> set rs1"
      using Cons.IH [OF inv _ _ _ rs(1)] by metis
    moreover have "\<not> set rs \<subseteq> range Inr" using rs(2) Inl by (simp add: image_iff)
    ultimately show ?thesis using refused rs(2) by (cases "disk_slots c m = 0") auto
  next
    case (Inr p)
    have b: "books m" using Cons.prems(1) by (simp add: qm_inv_def)
    note s = placed_slot [OF b Cons.prems(2) assms(3,4) new g [unfolded Inr]]
    have "set vols \<inter> fst ` set (quotas m1) = {}" using Cons.prems(3,4) s(3) by auto
    from Cons.IH [OF inv s(2) _ this rs(1)] show ?thesis
      using Cons.prems(3) s(1) refused rs(2) by auto
  qed
qed simp

section \<open>Properties\<close>


text \<open>Disks with 1 and 2 GiB: two volumes of 1 GiB are placed, so the filter accepts them.\<close>

lemma manager0_mounts:
  "\<exists>p1 p2 m2 w2. mount_all mem_os 1073741824 [''v1'', ''v2''] manager0 mem0 = ([Inr p1, Inr p2], m2, w2)"
  by (simp add: run_defs Let_def)



end
