(* ===== verification/Spec2Isabelle.thy ===== *)
theory Spec2Isabelle
  imports Commands Server_Lifecycle Object_Meta Timer_Loop Meta_Race Request_Liveness Sync_Convergence Filter_Several
begin

text \<open>
  Verification of hostpathpv-plugin, a Kubernetes CSI plugin that gives pods directories on the local
  disks of their node, limited by XFS project quotas, with a scheduler extender that places the pods
  and a kubectl plugin that shows the usage.

  \<^bold>\<open>The program and how its parts interact.\<close> The controller (pkg/csi-plugin/hostpath/
  controllerserver.go) creates a volume by composing its ID from name and ephemerality
  (pkg/util/volid.go), rounding its size (pkg/util/util.go) and recording the ID in the meta store, a
  config map (metestore.go). The scheduler extender (pkg/extender-scheduler/) keeps a cache of pods,
  nodes and volumes (pkg/hostpathclient/informer.go, controller.go), filters the nodes with room for a
  pod, scores them and binds the pod and its volumes. The node server (nodeserver.go) asks the quota
  manager (quota-manager/) for the directory of a volume, which it puts on the disk with the most room
  and gives a project ID and a kernel quota (quotaProvider/), and mounts it. The sync worker
  (syncworker.go) gives the directories of deleted volumes back, follows the disabled disks of the
  node object and publishes the usage the extender reads. driver.go and csi-common/server.go put the
  plugin together, and the main functions under cmd/ start the plugin and the extender.

  \<^bold>\<open>Theories.\<close> Each opens with what it models; the names of definitions are those of the code.
  \<^item> Prelude: machine integers (a \<open>uint64\<close> is a word, an \<open>int64\<close> an \<open>int\<close> wrapped by \<open>i64\<close>), slices,
    Go maps. Go\_Strings, Go\_Sort, Go\_Float, Go\_Encoding, Grpc: what the code uses of Go's library and of
    gRPC statuses. Os: the system calls and the mounter as a record of functions over a type \<open>'w\<close> of
    worlds, with an executable in-memory file system for the examples.
  \<^item> Vol\_Id, Size\_Util, Id\_Locker, Fs\_Util: pkg/util/. Round trip and totality of the ID codec, exactness
    of the rounding, mutual exclusion of the two lock types under all interleavings.
  \<^item> Id\_Allocator, Quota\_Provider: the project IDs and quotas. Fresh IDs, a cache that is injective and
    equal to the allocated IDs, roll-back of a failing set, round trip of the limits.
  \<^item> Quota\_Manager (definitions), Quota\_Accounting (the books of each disk add up and fit its capacity in
    every run; placement; release; expansion), Quota\_Restore (the restart, and the contract of the
    manager towards its callers).
  \<^item> Csi\_Common, Meta\_Store, Controller\_Server, Node\_Server: the CSI services. What a successful create,
    publish and unpublish guarantee; the meta store as a set of IDs. Logging: the wrappers of log.go over
    the lines klog writes, and the chain of gRPC interceptors, which passes every call on and turns a
    panic into an error.
  \<^item> Host\_Path\_Client: the converted volumes, nodes and pods, the annotations through JSON and base64,
    and the patches. Sync\_Worker: the round of the worker; what is released, and what is published.
    Object\_Meta: the metadata interface of the cached objects (object.go).
  \<^item> Quota\_Listing, Meta\_Race, Node\_Race, Request\_Race, Request\_Liveness, Sync\_Convergence, Timer\_Loop: the
    behaviour over time, as step relations with invariants by rule induction and as sequences of rounds. Concurrent
    updates of the meta store are linearizable; in every interleaving of the worker with the requests no
    recorded volume is cleaned away; the requests themselves, split into their calls, refine the lock and
    its holders, mount only directories the quota manager holds at that moment, and always return; an orphan is
    eventually given back and the reports settle; the timer loop neither gets stuck nor runs ahead of its
    timer.
  \<^item> Indexer, Host\_Path\_Control: the cache of client-go and the controller over it; the claim index is
    exact after every sequence of events.
  \<^item> Scheduler\_Filter, Scheduler\_Score, Scheduler\_Bind, Extender: the three plugins of the extender, their
    handlers, registries and routes. The filter is sound, the scores rank by free space, a binding pins
    the volumes.
  \<^item> Filter\_Placement, Filter\_Several: the filter against the quota manager of the node. For volumes of one
    size they agree, whatever their number and the order of the mounts; for volumes of different sizes, or
    with disabled disks, they do not.
  \<^item> Driver: the start-up for every configuration, the timer loop over its turns. Server\_Lifecycle: the
    gRPC server with the goroutines that start, wait for, run and stop it; its \<open>Wait\<close> never returns.
    Kubectl: the command get. Commands: the flags, the API clients, the main functions of the three
    programs, the liveness probe and the profiling routes. The command line round-trips, and a program
    either serves or ends with a fatal message.
  \<^item> This theory: a volume through creation, cleaning and deletion, and the disagreement of scheduler and
    quota manager on disabled disks.

  \<^bold>\<open>Interfaces.\<close> \<open>sort_Interface\<close> (what \<open>sort.Sort\<close> needs and promises) is interpreted on the three orders
  the code sorts by; \<open>try_lock\<close> on \<open>VolumeLocks\<close>; \<open>offset_pool\<close> on the allocation bitmap and
  \<open>id_allocator\<close>, its client, on the project-ID allocator, over which the provider's cache is proved;
  \<open>quota_manager\<close>, the contract of \<open>QuotaManagerInterface\<close>, on the XFS manager and on the manager or
  stub the servers hold, for the node server and the sync worker; \<open>quota_listing\<close>, which extends it by the
  listings, on the latter, for the theories on interleavings and on convergence; \<open>object_index\<close> on the caches of volumes
  and pods; \<open>meta_object\<close>, what client-go needs of a cached object, on pods, nodes and volumes;
  \<open>plugin_registry\<close> on the registry of the extender; \<open>log_calls\<close>, what the log wrappers have in common, on the
  thirteen wrappers.

  \<^bold>\<open>State and errors.\<close> A handler is a function of the state it changes (locks, manager, world, cluster)
  and returns it changed; errors are values, and where Go panics the result is \<open>None\<close>. A method that holds
  one mutex for its whole body is one step. Runs are lists of operations, or of watch events, in any
  order; where handlers without a common lock meet (the two requests of a meta store update, the calls of
  the node requests against each other and the worker, the loop against its timer, the gRPC server against
  those who stop it) the steps of each interleave freely. A fatal log
  message ends the process; klog's state holds the exit status.

  \<^bold>\<open>Parameters and what is assumed of them.\<close> The kernel (\<open>os\<close>) answers arbitrarily in the invariants; the
  round trips name what they need of it. The API server is \<open>cm_api\<close> and \<open>kube\<close>: \<open>api_stores\<close> says that
  a config map is read back as written, \<open>patch_adds\<close> and \<open>pv_patch_adds\<close> that a JSON patch that adds
  an annotation adds it, \<open>api_versioned\<close> that a write with an old resource version is refused, and
  \<open>patches_apart\<close> that patches leave the config map alone; \<open>removable\<close> says that the removal of a
  directory works. The clients of the plugin do not use a name again after its deletion and publish only
  existing volumes, under the handle of their volume object. JSON coding (\<open>json\<close>) is only assumed to invert itself where data is published
  and read back. Every such assumption is discharged for an executable instance in the example of the
  property. The order in which a loop ranges over a Go map is the order of an association list, and the
  random numbers of the bitmap are arguments, so theorems hold for all of them.

  \<^bold>\<open>Bounds.\<close> Sizes are rounded exactly up to \<open>2 ^ 53\<close> bytes, where every integer is a \<open>float64\<close>; scores are
  exact up to a capacity of \<open>2 ^ 46\<close> bytes (64 TiB), where a hundredfold is. No definition uses fuel: the
  loops are structural recursions over their data (\<open>Sprintf\<close> consumes its format, a node request its at most
  five calls), and the timer loop is a recursion over the turns it is given, where \<open>None\<close> means that it is
  still running.

  \<^bold>\<open>Not modelled.\<close> The watch, list and queue machinery of client-go (any sequence of deltas stands for
  it); how cobra reads the command line of the kubectl plugin, the generated CSI messages, the cgo wrappers
  around \<open>opendir\<close> and the constructors that only wrap a value (calls of libraries only); the flags of klog
  and of formats with a width, a precision or an argument index, whose text is left open; log lines inside
  the servers, which carry no state. A method of the quota manager, which holds its mutex throughout, is one
  step, and so is a call of the mounter. Goroutines that write disjoint elements are a map; data races are
  only modelled where the code shares a counter. What remains of the sources is interface declarations,
  imports and such wrappers.
\<close>

section \<open>Properties that span components\<close>

text \<open>
  C3. The life of a volume across the controller, the meta store and the sync worker of a node.
  After a successful \<open>CreateVolume\<close> the ID is recorded, and as long as it stays recorded no cleaning
  round takes the directory of the volume or puts it on the retry list, however many rounds there are
  and whatever happens between them, provided that the ID was not on the retry list when the volume was
  created. And after a successful \<open>DeleteVolume\<close>, the next cleaning round that reads the meta store and
  has listed the volume gives its directory back or keeps it for a retry.
\<close>

theorem volume_lifecycle:
  assumes "api_stores capi" "CreateVolume capi d store req l k = (Inr resp, l', k1)"
    and "cr_VolumeId resp \<notin> set (shouldDeleteVolIds r)"
    and "\<forall>(sys, kc, infos, s) \<in> set rounds. keeps_id capi store (cr_VolumeId resp) kc"
    and "clean_rounds capi store rounds r = (r1, ends)"
    and "DeleteVolume capi d store (cr_VolumeId resp) k2 = (None, k3)"
    and "cleanOrphanQuotaPath sys capi store k3 infos3 r1 s3 = (None, r4, s4)"
    and "q \<in> set infos3" "pq_VolumeId q = cr_VolumeId resp"
  shows "(\<exists>m. ListMetaInfos capi store k1 = Inr m \<and> m (cr_VolumeId resp) \<noteq> None) \<and>
    cr_VolumeId resp \<notin> set (shouldDeleteVolIds r1) \<and>
    (\<forall>(s, s') \<in> set ends. qm_path s' (cr_VolumeId resp) = qm_path s (cr_VolumeId resp)) \<and>
    (qm_path s4 (cr_VolumeId resp) = None \<or> cr_VolumeId resp \<in> set (shouldDeleteVolIds r4))"
proof (intro conjI)
  have "create_locked capi store req k = (Inr resp, k1)" using CreateVolume_ok [OF assms(2)] by blast
  then have "AddMetaInfo capi store (cr_VolumeId resp) k = (None, k1)" by (rule create_locked_ok)
  then show "\<exists>m. ListMetaInfos capi store k1 = Inr m \<and> m (cr_VolumeId resp) \<noteq> None"
    using AddMetaInfo_list [OF assms(1)] by fastforce
  show "cr_VolumeId resp \<notin> set (shouldDeleteVolIds r1)"
    "\<forall>(s, s') \<in> set ends. qm_path s' (cr_VolumeId resp) = qm_path s (cr_VolumeId resp)"
    using clean_rounds_spare [OF assms(5,3,4)] by blast+
  have "UnsetMetaInfo capi store (cr_VolumeId resp) k2 = (None, k3)"
    using assms(6) by (auto simp: DeleteVolume_def split: option.splits if_splits prod.splits)
  then obtain ids where ids: "ListMetaInfos capi store k3 = Inr (ids(cr_VolumeId resp := None))"
    using UnsetMetaInfo_list [OF assms(1)] by blast
  show "qm_path s4 (cr_VolumeId resp) = None \<or> cr_VolumeId resp \<in> set (shouldDeleteVolIds r4)"
    using clean_paths [OF assms(7) ids] assms(8,9) by auto
qed

text \<open>The example volume on a node, created, kept by a round, deleted, and cleaned.\<close>

definition info7 :: PathQuotaInfo where
  "info7 = new_info ''/xfs/d1/k8squota_7'' ''/dev/sdb'' 4096 0 vol7"

theorem volume_lifecycle_witness:
  "\<exists>resp k1 k2 r1 s1 r3 s3. CreateVolume mem_cm driver0 store0 req0 NewVolumeLocks api0 = (Inr resp, NewVolumeLocks, k1) \<and>
     clean_rounds mem_cm store0 [(mem_os, k1, [info7], XFS manager7, mem0)] worker0 = (r1, [((XFS manager7, mem0), s1)]) \<and>
     qm_path s1 vol7 = Some ''/xfs/d1/k8squota_7'' \<and>
     DeleteVolume mem_cm driver0 store0 vol7 k1 = (None, k2) \<and>
     cleanOrphanQuotaPath mem_os mem_cm store0 k2 [info7] r1 s1 = (None, r3, s3) \<and>
     (qm_path s3 vol7 = None \<or> vol7 \<in> set (shouldDeleteVolIds r3))"
proof -
  obtain resp k1 where c: "CreateVolume mem_cm driver0 store0 req0 NewVolumeLocks api0 = (Inr resp, NewVolumeLocks, k1)"
    and id: "cr_VolumeId resp = vol7" and d: "fst (DeleteVolume mem_cm driver0 store0 (cr_VolumeId resp) k1) = None"
    using req0_ok by (auto simp: vol7_def)
  obtain k2 where d2: "DeleteVolume mem_cm driver0 store0 (cr_VolumeId resp) k1 = (None, k2)"
    using d by (cases "DeleteVolume mem_cm driver0 store0 (cr_VolumeId resp) k1") auto
  have "UnsetMetaInfo mem_cm store0 (cr_VolumeId resp) k1 = (None, k2)"
    using d2 by (auto simp: DeleteVolume_def split: option.splits if_splits prod.splits)
  then obtain m2 where m2: "ListMetaInfos mem_cm store0 k2 = Inr m2" using UnsetMetaInfo_list [OF mem_cm_stores] by blast
  have "create_locked mem_cm store0 req0 api0 = (Inr resp, k1)" using CreateVolume_ok [OF c] by blast
  then have "AddMetaInfo mem_cm store0 (cr_VolumeId resp) api0 = (None, k1)" by (rule create_locked_ok)
  then obtain m1 where m1: "ListMetaInfos mem_cm store0 k1 = Inr (m1(vol7 \<mapsto> ''''))"
    using AddMetaInfo_list [OF mem_cm_stores] id by metis
  have v: "pq_VolumeId info7 = vol7" by (simp add: info7_def new_info_def)
  have r1: "clean_rounds mem_cm store0 [(mem_os, k1, [info7], XFS manager7, mem0)] worker0 =
      (worker0, [((XFS manager7, mem0), (XFS manager7, mem0))])"
    by (simp add: cleanOrphanQuotaPath_def m1 v worker0_def)
  obtain r3 s3 where r3: "cleanOrphanQuotaPath mem_os mem_cm store0 k2 [info7] worker0 (XFS manager7, mem0) = (None, r3, s3)"
  proof -
    have "fst (cleanOrphanQuotaPath mem_os mem_cm store0 k2 [info7] worker0 (XFS manager7, mem0)) = None"
      by (simp add: cleanOrphanQuotaPath_def m2 split: prod.split)
    then show ?thesis using that by (metis prod.collapse)
  qed
  have w: "cr_VolumeId resp \<notin> set (shouldDeleteVolIds worker0)" by (simp add: worker0_def)
  have p: "qm_path (XFS manager7, mem0) vol7 = Some ''/xfs/d1/k8squota_7''"
    by (simp add: qm_path_def xq_path_def manager7_def new_info_def)
  have kept: "\<forall>(sys, kc, infos, s) \<in> set [(mem_os, k1, [info7], XFS manager7, mem0)]. keeps_id mem_cm store0 (cr_VolumeId resp) kc"
    by (simp add: keeps_id_def m1 id)
  have "qm_path s3 vol7 = None \<or> vol7 \<in> set (shouldDeleteVolIds r3)"
    using volume_lifecycle [OF mem_cm_stores c w kept r1 d2 r3, of info7] v id by simp
  then show ?thesis using c r1 p d2 [unfolded id] r3 by blast
qed

text \<open>
  The scheduler and the node disagree on disabled disks: when all disks of a node are
  disabled, the filter still accepts a volume that one of them would have room for, from the usage
  the node publishes, while the quota manager of the node refuses every new volume.
\<close>

lemma filter_counts_disabled_disks:
  assumes "\<forall>e\<in>set (diskQuotaInfos m). disk_Disabled (snd e)" "map_of (quotas m) vol = None"
    and "(dev, disk) \<in> set (diskQuotaInfos m)" "capacity \<le> i64_of_u64 (disk_AllocatableSize disk)"
  shows "canNodeMatch [capacity] (nu_DiskStatus (node_usage (map snd (diskQuotaInfos m)))) \<and>
    fst (GetVolumeQuotaPath sys vol capacity m w) = Inl (ErrAllocatePath (ErrNoDiskMatch (u64_of_i64 capacity)))"
proof -
  have "i64_of_u64 (disk_AllocatableSize disk) \<in> di_Allocatable ` set (nu_DiskStatus (node_usage (map snd (diskQuotaInfos m))))"
    unfolding node_usage_allocatable using assms(3) by force
  then show ?thesis
    using assms(4) no_enabled_disk [OF assms(2,1), of sys capacity w] by (auto simp: single_volume)
qed

end
